theory Spec2Isabelle
  imports Complex_Main "HOL-Library.Char_ord" "HOL-Library.List_Lexorder"
    "HOL-Library.Product_Lexorder" "HOL-Library.Multiset"
begin

section \<open>Ranges\<close>

text \<open>
  A \<open>Range\<close> of the source is a two-element array \<open>[start, end]\<close> of offsets. Offsets are
  JavaScript numbers holding integers; they are modelled as \<open>int\<close>, since a record's
  \<open>start\<close> becomes \<open>-1\<close> when it is invalidated.
\<close>

type_synonym Range = "int \<times> int"

definition isInRange :: "int \<Rightarrow> Range \<Rightarrow> bool" where
  "isInRange index rng = (fst rng \<le> index \<and> index \<le> snd rng)"

text \<open>\<open>Array.prototype.find\<close>: the first range holding the index, or \<open>undefined\<close>.\<close>

definition isInRanges :: "int \<Rightarrow> Range list \<Rightarrow> Range option" where
  "isInRanges index ranges = find (\<lambda>rng. isInRange index rng) ranges"

definition areRangesIntersecting :: "Range \<Rightarrow> Range \<Rightarrow> bool" where
  "areRangesIntersecting a b =
     (isInRange (fst a) b \<or> isInRange (snd a) b \<or> isInRange (fst b) a \<or> isInRange (snd b) a)"

subsection \<open>Sorting with a comparator\<close>

text \<open>
  \<open>Array.prototype.sort(cmp)\<close> is a stable sort: elements that the comparator does not
  separate keep their order. Insertion from the right, placing an element in front of
  the first one it does not exceed, computes that unique stable arrangement.
\<close>

fun insertSorted :: "('a \<Rightarrow> 'a \<Rightarrow> int) \<Rightarrow> 'a \<Rightarrow> 'a list \<Rightarrow> 'a list" where
  "insertSorted cmp x [] = [x]"
| "insertSorted cmp x (y # ys) =
     (if cmp x y \<le> 0 then x # y # ys else y # insertSorted cmp x ys)"

definition js_sort :: "('a \<Rightarrow> 'a \<Rightarrow> int) \<Rightarrow> 'a list \<Rightarrow> 'a list" where
  "js_sort cmp xs = foldr (insertSorted cmp) xs []"

subsection \<open>mergeRanges\<close>

text \<open>
  The loop of \<open>mergeRanges\<close>: \<open>merged\<close> grows at its end; \<open>last\<close> is its final element
  (\<open>undefined\<close> while \<open>merged\<close> is empty), whose end is overwritten when the next range
  starts at or before it.
\<close>

fun mergeLoop :: "Range list \<Rightarrow> Range list \<Rightarrow> Range list" where
  "mergeLoop merged [] = merged"
| "mergeLoop merged (rng # rest) =
     (if merged \<noteq> [] \<and> snd (last merged) \<ge> fst rng
      then mergeLoop (butlast merged @ [(fst (last merged), max (snd (last merged)) (snd rng))]) rest
      else mergeLoop (merged @ [rng]) rest)"

definition mergeRanges :: "Range list \<Rightarrow> Range list" where
  "mergeRanges ranges = mergeLoop [] (js_sort (\<lambda>a b. fst a - fst b) ranges)"

text \<open>The offsets a half-open range \<open>[start, end)\<close> covers, and those a list of ranges covers.\<close>

definition cover :: "Range \<Rightarrow> int set" where
  "cover r = {fst r ..< snd r}"

definition covered :: "Range list \<Rightarrow> int set" where
  "covered rs = \<Union> (cover ` set rs)"

text \<open>No range starts at or before the end of a range that precedes it in the list.\<close>

definition disjointRanges :: "Range list \<Rightarrow> bool" where
  "disjointRanges rs = sorted_wrt (\<lambda>a b. snd a < fst b) rs"

text \<open>A range that starts in the text and does not end before it starts.\<close>

definition wellFormed :: "Range \<Rightarrow> bool" where
  "wellFormed r = (0 \<le> fst r \<and> fst r \<le> snd r)"

section \<open>Strings\<close>

text \<open>
  \<open>String.prototype.slice(start, end)\<close>: a negative argument counts from the end of the
  string, both are clamped to the string, and the result is empty when the start is not
  before the end. \<open>sliceFrom\<close> is the call without the second argument.
\<close>

definition slice :: "'a list \<Rightarrow> int \<Rightarrow> int \<Rightarrow> 'a list" where
  "slice s a b =
     (let len = int (length s);
          from = (if a < 0 then max (len + a) 0 else min a len);
          to = (if b < 0 then max (len + b) 0 else min b len)
      in if from \<ge> to then [] else take (nat (to - from)) (drop (nat from) s))"

definition sliceFrom :: "'a list \<Rightarrow> int \<Rightarrow> 'a list" where
  "sliceFrom s a = slice s a (int (length s))"

section \<open>Removing ranges from the code\<close>

record NodeStartLength =
  start :: int
  length_n :: int

text \<open>The callback that \<open>removeCodeRanges\<close> runs on every node for one removed range.\<close>

definition moveNode :: "Range \<Rightarrow> 'a NodeStartLength_scheme \<Rightarrow> 'a NodeStartLength_scheme" where
  "moveNode remove node =
     (if start node + length_n node \<le> fst remove then node
      else if start node < snd remove then node\<lparr>start := -1\<rparr>
      else node\<lparr>start := start node - (snd remove - fst remove)\<rparr>)"

text \<open>
  The loop over the ranges. \<open>nodes\<close> is optional in the source (\<open>nodes?.forEach\<close>); the
  nodes of the array are distinct objects, each visited once per range.
\<close>

fun removeLoop :: "'c list \<Rightarrow> 'a NodeStartLength_scheme list option \<Rightarrow> Range list
    \<Rightarrow> 'c list \<times> 'a NodeStartLength_scheme list option" where
  "removeLoop outputCode nodes [] = (outputCode, nodes)"
| "removeLoop outputCode nodes (remove # rest) =
     removeLoop (slice outputCode 0 (fst remove) @ sliceFrom outputCode (snd remove))
       (map_option (map (moveNode remove)) nodes) rest"

text \<open>The result \<open>{ code, removals, nodes }\<close> is the triple of the three fields.\<close>

definition removeCodeRanges :: "'c list \<Rightarrow> Range list \<Rightarrow> 'a NodeStartLength_scheme list option
    \<Rightarrow> 'c list \<times> Range list \<times> 'a NodeStartLength_scheme list option" where
  "removeCodeRanges src removals nodes =
     (let ranges = js_sort (\<lambda>a b. fst b - fst a) (mergeRanges removals);
          (outputCode, nodes') = removeLoop src nodes ranges
      in (outputCode, ranges, nodes'))"

text \<open>
  The rule of the specification for one removed range \<open>[s, e)\<close> and one record, and the
  splice of the range out of the text.
\<close>

definition specRecordRule :: "int \<Rightarrow> int \<Rightarrow> 'a NodeStartLength_scheme \<Rightarrow> 'a NodeStartLength_scheme" where
  "specRecordRule s e record =
     (if start record + length_n record \<le> s then record
      else if start record < e then record\<lparr>start := -1\<rparr>
      else record\<lparr>start := start record - (e - s)\<rparr>)"

definition specSplice :: "'c list \<Rightarrow> Range \<Rightarrow> 'c list" where
  "specSplice text r = slice text 0 (fst r) @ sliceFrom text (snd r)"



section \<open>Characters and regular expressions\<close>

text \<open>
  A string is a list of characters with codes below 256. Of the line terminators of the
  language (LF, CR, U+2028, U+2029) and of its white space, those in that range are
  modelled.
\<close>

definition isLineTerminator :: "char \<Rightarrow> bool" where
  "isLineTerminator c = (c = CHR 0x0A \<or> c = CHR 0x0D)"

definition isWhiteSpace :: "char \<Rightarrow> bool" where
  "isWhiteSpace c = (c \<in> {CHR 0x09, CHR 0x0A, CHR 0x0B, CHR 0x0C, CHR 0x0D, CHR 0x20, CHR 0xA0})"

definition toLowerCaseChar :: "char \<Rightarrow> char" where
  "toLowerCaseChar c =
     (let n = (of_char c :: nat)
      in if (65 \<le> n \<and> n \<le> 90) \<or> (192 \<le> n \<and> n \<le> 222 \<and> n \<noteq> 215) then char_of (n + 32) else c)"

definition toLowerCase :: "string \<Rightarrow> string" where
  "toLowerCase s = map toLowerCaseChar s"

definition trimEnd :: "string \<Rightarrow> string" where
  "trimEnd s = rev (dropWhile isWhiteSpace (rev s))"

text \<open>
  A match of a regular expression: \<open>match.index\<close>, \<open>match[0]\<close> and the groups
  \<open>match[1]\<close>, \<open>match[2]\<close>, ... A regular expression is given by its attempt to match at
  one position of a string: the matched text and the groups, or nothing.
\<close>

record 'g RegExpMatch =
  matchIndex :: nat
  matchText :: string
  matchGroups :: 'g

type_synonym 'g RegExp = "string \<Rightarrow> nat \<Rightarrow> (string \<times> 'g) option"

text \<open>
  \<open>Array.from(s.matchAll(re))\<close> for an expression with the flag \<open>g\<close>: the search goes on
  from \<open>lastIndex\<close>, trying each position in turn, and stops when \<open>lastIndex\<close> is beyond
  the string; a match moves \<open>lastIndex\<close> to its end, an empty match moves it one further.
\<close>

function matchAllFrom :: "'g RegExp \<Rightarrow> string \<Rightarrow> nat \<Rightarrow> 'g RegExpMatch list" where
  "matchAllFrom re s lastIndex =
     (if lastIndex > length s then []
      else case re s lastIndex of
        None \<Rightarrow> matchAllFrom re s (Suc lastIndex)
      | Some (t, g) \<Rightarrow>
          \<lparr>matchIndex = lastIndex, matchText = t, matchGroups = g\<rparr>
            # matchAllFrom re s (if t = [] then Suc lastIndex else lastIndex + length t))"
  by pat_completeness auto

termination
  by (relation "measure (\<lambda>(re, s, lastIndex). Suc (length s) - lastIndex)")
    (auto intro!: diff_less_mono2)

declare matchAllFrom.simps [simp del]

definition matchAll :: "'g RegExp \<Rightarrow> string \<Rightarrow> 'g RegExpMatch list" where
  "matchAll re s = matchAllFrom re s 0"

text \<open>
  \<open>/.*?($|\n)/g\<close>, the expression of \<open>createPositionConverter\<close>: as few characters as
  possible that are not line terminators, then the end of the string or a line feed. At
  a position whose line runs into a carriage return the expression does not match.
\<close>

definition reLines :: "unit RegExp" where
  "reLines s i =
     (let rest = drop i s;
          run = takeWhile (\<lambda>c. \<not> isLineTerminator c) rest
      in case drop (length run) rest of
           [] \<Rightarrow> Some (run, ())
         | c # _ \<Rightarrow> if c = CHR 0x0A then Some (run @ [c], ()) else None)"

text \<open>
  The converter is given by its \<open>lines\<close>; \<open>indexToPos\<close>, \<open>posToIndex\<close> and
  \<open>getIndexOfLineAbove\<close> below are its three functions, with the lines as first argument.
\<close>

definition createPositionConverter :: "string \<Rightarrow> string list" where
  "createPositionConverter src = map matchText (matchAll reLines src)"

section \<open>Values of the language\<close>

text \<open>
  The values that option objects and flags hold. A number is \<open>NaN\<close>, an infinity or a
  rational; \<open>truthy\<close> is the test of \<open>if\<close>, \<open>!\<close> and \<open>||\<close>, and \<open>typeOf\<close> is \<open>typeof\<close>.
\<close>

datatype JSNumber = NaN | PosInfinity | NegInfinity | Finite rat

datatype JSValue =
    JUndefined
  | JBoolean bool
  | JNumber JSNumber
  | JString string
  | JArray "JSValue list"

fun truthy :: "JSValue \<Rightarrow> bool" where
  "truthy JUndefined = False"
| "truthy (JBoolean b) = b"
| "truthy (JNumber n) = (n \<noteq> NaN \<and> n \<noteq> Finite 0)"
| "truthy (JString s) = (s \<noteq> [])"
| "truthy (JArray vs) = True"

fun typeOf :: "JSValue \<Rightarrow> string" where
  "typeOf JUndefined = ''undefined''"
| "typeOf (JBoolean b) = ''boolean''"
| "typeOf (JNumber n) = ''number''"
| "typeOf (JString s) = ''string''"
| "typeOf (JArray vs) = ''object''"

text \<open>An object literal or a \<open>Map\<close>: its entries in insertion order, keys distinct.\<close>

type_synonym JSObject = "(string \<times> JSValue) list"

definition getProperty :: "JSObject \<Rightarrow> string \<Rightarrow> JSValue" where
  "getProperty obj key = (case map_of obj key of None \<Rightarrow> JUndefined | Some v \<Rightarrow> v)"

text \<open>\<open>obj[key] = v\<close>: an existing key keeps its place, a new one is appended.\<close>

fun setProperty :: "JSObject \<Rightarrow> string \<Rightarrow> JSValue \<Rightarrow> JSObject" where
  "setProperty [] key v = [(key, v)]"
| "setProperty ((k, w) # obj) key v =
     (if k = key then (k, v) # obj else (k, w) # setProperty obj key v)"

text \<open>The spread \<open>{ ...a, ...b }\<close>.\<close>

definition spread :: "JSObject \<Rightarrow> JSObject \<Rightarrow> JSObject" where
  "spread a b = foldl (\<lambda>obj (k, v). setProperty obj k v) a b"

section \<open>Errors\<close>

text \<open>
  Every \<open>throw new TwoslashError(title, description, recommendation)\<close> of the source is
  one constructor, carrying the values its message interpolates; \<open>title\<close> gives the first
  argument. \<open>TypeError\<close> is the language's own error for a property read on
  \<open>undefined\<close> or a call of something that is not a function, and \<open>MissingSourceFile\<close>
  is the error that \<open>env.updateFile\<close> throws for a file that the environment does not have.
\<close>

datatype Failure =
    UnknownPrimitive string JSValue
  | UnknownExtension string
  | InvalidCompilerValue JSValue string "string list"
  | MismatchedCutCount nat nat
  | MismatchedCutOrder nat nat
  | UnknownFlags "string list"
  | InvalidQuickInfoQuery int string
  | InvalidHighlightQuery int string
  | InvalidCompletionQuery int string
  | ShowEmitWithKeepNotations
  | NoEmitSource JSValue "string list"
  | NoOutputFile string "string list"
  | ValidationFailure string
  | TypeError
  | MissingSourceFile string

fun title :: "Failure \<Rightarrow> string" where
  "title (UnknownPrimitive t v) = ''Unknown primitive value in compiler flag''"
| "title (UnknownExtension t) = ''Unknown TypeScript extension given to Twoslash''"
| "title (InvalidCompilerValue key name keys) = ''Invalid inline compiler value''"
| "title (MismatchedCutCount s e) = ''Mismatched cut markers''"
| "title (MismatchedCutOrder s e) = ''Mismatched cut markers''"
| "title (UnknownFlags names) = ''Unknown inline compiler flags''"
| "title (InvalidQuickInfoQuery l f) = ''Invalid quick info query''"
| "title (InvalidHighlightQuery l f) = ''Invalid highlight query''"
| "title (InvalidCompletionQuery l f) = ''Invalid completion query''"
| "title ShowEmitWithKeepNotations =
     ''Option '' @ [CHR 0x27] @ ''showEmit'' @ [CHR 0x27] @ '' cannot be used with ''
       @ [CHR 0x27] @ ''keepNotations'' @ [CHR 0x27]"
| "title (NoEmitSource f fs) = ''Could not find source file to show the emit for''"
| "title (NoOutputFile f fs) = ''Cannot find the output file in the Twoslash VFS''"
| "title (ValidationFailure t) = t"
| "title TypeError = ''TypeError''"
| "title (MissingSourceFile f) = ''Did not find a source file for '' @ f"

text \<open>Sequencing of a step that may throw with the code after it.\<close>

definition andThen :: "Failure + 'a \<Rightarrow> ('a \<Rightarrow> Failure + 'b) \<Rightarrow> Failure + 'b" where
  "andThen r f = (case r of Inl e \<Rightarrow> Inl e | Inr x \<Rightarrow> f x)"

text \<open>\<open>xs.map(f)\<close> and \<open>xs.forEach(f)\<close> for an \<open>f\<close> that may throw: the first throw ends the walk.\<close>

fun mapThrowing :: "('a \<Rightarrow> Failure + 'b) \<Rightarrow> 'a list \<Rightarrow> Failure + 'b list" where
  "mapThrowing f [] = Inr []"
| "mapThrowing f (x # xs) =
     (case f x of
        Inl e \<Rightarrow> Inl e
      | Inr y \<Rightarrow> (case mapThrowing f xs of Inl e \<Rightarrow> Inl e | Inr ys \<Rightarrow> Inr (y # ys)))"

section \<open>The position converter\<close>

record Position =
  line :: int
  character :: int

text \<open>The loop of \<open>indexToPos\<close> over the lines, with its variables \<open>character\<close> and \<open>line\<close>.\<close>

fun indexToPosLoop :: "string list \<Rightarrow> int \<Rightarrow> int \<Rightarrow> Position" where
  "indexToPosLoop [] ch lineNo = \<lparr>line = lineNo, character = ch\<rparr>"
| "indexToPosLoop (lineText # rest) ch lineNo =
     (if ch < int (length lineText) then \<lparr>line = lineNo, character = ch\<rparr>
      else indexToPosLoop rest (ch - int (length lineText)) (lineNo + 1))"

definition indexToPos :: "string list \<Rightarrow> int \<Rightarrow> Position" where
  "indexToPos lines index = indexToPosLoop lines index 0"

text \<open>
  The loop \<open>for (let i = 0; i < line - 1; i++) index += lines[i].length\<close>; reading the
  length of a line that does not exist throws.
\<close>

fun posToIndexLoop :: "string list \<Rightarrow> nat list \<Rightarrow> int \<Rightarrow> Failure + int" where
  "posToIndexLoop lines [] index = Inr index"
| "posToIndexLoop lines (i # rest) index =
     (if i < length lines then posToIndexLoop lines rest (index + int (length (lines ! i)))
      else Inl TypeError)"

definition posToIndex :: "string list \<Rightarrow> int \<Rightarrow> int \<Rightarrow> Failure + int" where
  "posToIndex lines lineNo ch =
     andThen (posToIndexLoop lines [0 ..< nat (lineNo - 1)] 0) (\<lambda>index. Inr (index + ch))"

definition getIndexOfLineAbove :: "string list \<Rightarrow> int \<Rightarrow> Failure + int" where
  "getIndexOfLineAbove lines index =
     (let pos = indexToPos lines index in posToIndex lines (line pos) (character pos))"

text \<open>A position is valid when its line exists and its character lies inside that line.\<close>

definition validPosition :: "string list \<Rightarrow> Position \<Rightarrow> bool" where
  "validPosition lines p =
     (0 \<le> line p \<and> nat (line p) < length lines \<and> 0 \<le> character p
      \<and> character p < int (length (lines ! nat (line p))))"

text \<open>The sum of the lengths of some lines, for the proofs about the converter.\<close>

definition lineLengths :: "string list \<Rightarrow> int" where
  "lineLengths ls = sum_list (map (\<lambda>l. int (length l)) ls)"

section \<open>Splitting the code into files\<close>

text \<open>
  \<open>reFilenamesMakers\<close> is \<open>/^\/\/\s?@filename: (.+)$/mg\<close>: at the start of a line, two
  slashes, at most one white-space character, the text \<open>@filename: \<close>, and one or more
  characters up to the end of the line, which are the group.
\<close>

definition reFilenamesMakers :: "string RegExp" where
  "reFilenamesMakers s i =
     (if \<not> (i = 0 \<or> isLineTerminator (s ! (i - 1))) then None
      else
        let rest = drop i s in
        if take 2 rest \<noteq> ''//'' then None
        else
          let afterSlashes = drop 2 rest;
              ws = (if afterSlashes \<noteq> [] \<and> isWhiteSpace (hd afterSlashes) then 1 else 0 :: nat);
              afterSpace = drop ws afterSlashes in
          if take 11 afterSpace \<noteq> ''@filename: '' then None
          else
            let name = takeWhile (\<lambda>c. \<not> isLineTerminator c) (drop 11 afterSpace) in
            if name = [] then None
            else Some (take (2 + ws + 11 + length name) rest, name))"

record VirtualFile =
  offset :: int
  filename :: string
  filepath :: string
  content :: string
  extension :: string

text \<open>\<open>fileName.split('.').pop()\<close>: what follows the last dot, or the whole name.\<close>

definition getExtension :: "string \<Rightarrow> string" where
  "getExtension fileName = rev (takeWhile (\<lambda>c. c \<noteq> CHR ''.'') (rev fileName))"

text \<open>
  The loop of \<open>splitFiles\<close> over the matches, with its three variables \<open>index\<close>,
  \<open>currentFileName\<close> and \<open>files\<close>.
\<close>

fun splitLoop :: "string \<Rightarrow> string \<Rightarrow> string RegExpMatch list \<Rightarrow> int \<Rightarrow> string
    \<Rightarrow> VirtualFile list \<Rightarrow> int \<times> string \<times> VirtualFile list" where
  "splitLoop src rootPath [] index currentFileName files = (index, currentFileName, files)"
| "splitLoop src rootPath (m # rest) index currentFileName files =
     (let off = int (matchIndex m);
          text = slice src index off
      in splitLoop src rootPath rest off (trimEnd (matchGroups m))
           (if text \<noteq> []
            then files @ [\<lparr>offset = index, filename = currentFileName,
                           filepath = rootPath @ currentFileName, content = text,
                           extension = getExtension currentFileName\<rparr>]
            else files))"

definition splitFiles :: "string \<Rightarrow> string \<Rightarrow> string \<Rightarrow> VirtualFile list" where
  "splitFiles src defaultFileName rootPath =
     (let matches = matchAll reFilenamesMakers src;
          allFilenames = map (\<lambda>m. trimEnd (matchGroups m)) matches;
          (index, currentFileName, files) =
            splitLoop src rootPath matches 0
              (if defaultFileName \<in> set allFilenames then ''__index__.ts'' else defaultFileName) []
      in if index < int (length src)
         then files @ [\<lparr>offset = index, filename = currentFileName,
                         filepath = rootPath @ currentFileName, content = sliceFrom src index,
                         extension = getExtension currentFileName\<rparr>]
         else files)"

section \<open>Cut notations\<close>

text \<open>
  The regular expressions of the module \<open>regexp\<close> are parameters of the functions that
  use them. The type of a match's groups says which groups the expression has.
\<close>

record RegExps =
  reAnnonateMarkers :: "(string \<times> string option) RegExp"
  reConfigBoolean :: "string RegExp"
  reConfigValue :: "(string \<times> string) RegExp"
  reCutAfter :: "unit RegExp"
  reCutBefore :: "unit RegExp"
  reCutEnd :: "unit RegExp"
  reCutStart :: "unit RegExp"

text \<open>
  The loop \<open>for (let i = 0; i < cutStart.length; i++)\<close> over the two arrays side by side;
  it runs only when they have the same length.
\<close>

fun cutPairs :: "unit RegExpMatch list \<Rightarrow> unit RegExpMatch list \<Rightarrow> Range list
    \<Rightarrow> Failure + Range list" where
  "cutPairs [] cutEnd removals = Inr removals"
| "cutPairs (s # cutStart) [] removals = Inl TypeError"
| "cutPairs (s # cutStart) (e # cutEnd) removals =
     (if matchIndex s > matchIndex e then Inl (MismatchedCutOrder (matchIndex s) (matchIndex e))
      else cutPairs cutStart cutEnd
             (removals @ [(int (matchIndex s), int (matchIndex e + length (matchText e) + 1))]))"

definition findCutNotations :: "'r RegExps_scheme \<Rightarrow> string \<Rightarrow> Failure + Range list" where
  "findCutNotations res src =
     (let cutBefore = matchAll (reCutBefore res) src;
          cutAfter = matchAll (reCutAfter res) src;
          cutStart = matchAll (reCutStart res) src;
          cutEnd = matchAll (reCutEnd res) src;
          removals1 = (if cutBefore \<noteq> []
            then [(0, int (matchIndex (last cutBefore) + length (matchText (last cutBefore)) + 1))]
            else []);
          removals2 = (if cutAfter \<noteq> []
            then removals1 @ [(int (matchIndex (hd cutAfter)), int (length src))]
            else removals1)
      in if length cutStart \<noteq> length cutEnd
         then Inl (MismatchedCutCount (length cutStart) (length cutEnd))
         else cutPairs cutStart cutEnd removals2)"

section \<open>Flags\<close>

text \<open>
  \<open>ToNumber\<close>, the conversion behind the unary plus and \<open>Number(...)\<close>, belongs to the
  language and is a parameter of the functions that use it.
\<close>

text \<open>
  The value of a flag is \<open>true\<close> or a text; calling \<open>toLowerCase\<close> or \<open>split\<close> on a value
  that is not a text throws a \<open>TypeError\<close>.
\<close>

definition parsePrimitive :: "(JSValue \<Rightarrow> JSNumber) \<Rightarrow> JSValue \<Rightarrow> string \<Rightarrow> Failure + JSValue" where
  "parsePrimitive ToNumber v t =
     (if typeOf v = t then Inr v
      else if t = ''number'' then Inr (JNumber (ToNumber v))
      else if t = ''string'' then Inr v
      else if t = ''boolean'' then
        (case v of
           JString s \<Rightarrow> Inr (JBoolean (toLowerCase s = ''true'' \<or> length s = 0))
         | _ \<Rightarrow> Inl TypeError)
      else Inl (UnknownPrimitive t v))"

definition getOptionValueFromMap :: "string \<Rightarrow> JSValue \<Rightarrow> JSObject \<Rightarrow> Failure + JSValue" where
  "getOptionValueFromMap name key optMap =
     (case key of
        JString k \<Rightarrow>
          (let result = getProperty optMap (toLowerCase k)
           in if result = JUndefined then Inl (InvalidCompilerValue key name (map fst optMap))
              else Inr result)
      | _ \<Rightarrow> Inl TypeError)"

text \<open>\<open>s.split(sep)\<close> for a separator of one character.\<close>

fun splitString :: "char \<Rightarrow> string \<Rightarrow> string list" where
  "splitString sep [] = [[]]"
| "splitString sep (c # cs) =
     (if c = sep then [] # splitString sep cs
      else case splitString sep cs of
             [] \<Rightarrow> [[c]]
           | x # xs \<Rightarrow> (c # x) # xs)"

text \<open>
  A declaration of a compiler option: its name, its type (the name of a type or a map of
  allowed values) and, for a list, the type of its elements. The four types of a parsed
  flag are the texts \<open>tag\<close>, \<open>compilerOptions\<close>, \<open>handbookOptions\<close> and \<open>unknown\<close>.
\<close>

datatype OptionType = TypeName string | TypeMap JSObject

record CompilerOptionDeclaration =
  declName :: string
  declType :: OptionType
  declElement :: "OptionType option"

datatype FlagType = FlagTag | FlagCompilerOptions | FlagHandbookOptions | FlagUnknown

record ParsedFlagNotation =
  flagType :: FlagType
  flagName :: string
  flagValue :: JSValue
  flagStart :: int
  flagEnd :: int

text \<open>
  The value of a compiler option of the declaration \<open>compilerDecl\<close>: the \<open>switch\<close> of
  \<open>parseFlag\<close> on the declared type.
\<close>

definition compilerOptionValue :: "(JSValue \<Rightarrow> JSNumber) \<Rightarrow> CompilerOptionDeclaration \<Rightarrow> JSValue
    \<Rightarrow> Failure + JSValue" where
  "compilerOptionValue ToNumber compilerDecl v =
     (case declType compilerDecl of
        TypeName t \<Rightarrow>
          if t = ''number'' \<or> t = ''string'' \<or> t = ''boolean'' then parsePrimitive ToNumber v t
          else if t = ''list'' then
            (case declElement compilerDecl of
               None \<Rightarrow> Inl TypeError
             | Some elementType \<Rightarrow>
                 (case v of
                    JString s \<Rightarrow>
                      andThen
                        (case elementType of
                           TypeName et \<Rightarrow>
                             mapThrowing (\<lambda>x. parsePrimitive ToNumber (JString x) et)
                               (splitString (CHR '','') s)
                         | TypeMap optMap \<Rightarrow>
                             mapThrowing
                               (\<lambda>x. getOptionValueFromMap (declName compilerDecl) (JString x) optMap)
                               (splitString (CHR '','') s))
                        (\<lambda>resolved. Inr (JArray resolved))
                  | _ \<Rightarrow> Inl TypeError))
          else Inl TypeError
      | TypeMap optMap \<Rightarrow> getOptionValueFromMap (declName compilerDecl) v optMap)"

text \<open>The value of a handbook option: \<open>errors\<close> and \<open>noErrors\<close> given as text are parsed.\<close>

definition handbookOptionValue :: "(JSValue \<Rightarrow> JSNumber) \<Rightarrow> string \<Rightarrow> JSValue \<Rightarrow> JSValue" where
  "handbookOptionValue ToNumber name v =
     (case v of
        JString s \<Rightarrow>
          if name = ''errors'' then
            JArray (map (\<lambda>x. JNumber (ToNumber (JString x))) (splitString (CHR '' '') s))
          else if name = ''noErrors'' then
            (if s = ''true'' then JBoolean True
             else if s = ''false'' then JBoolean False
             else JArray (map (\<lambda>x. JNumber (ToNumber (JString x))) (splitString (CHR '' '') s)))
          else v
      | _ \<Rightarrow> v)"

definition parseFlag :: "(JSValue \<Rightarrow> JSNumber) \<Rightarrow> JSObject \<Rightarrow> string \<Rightarrow> JSValue \<Rightarrow> int \<Rightarrow> int
    \<Rightarrow> string list \<Rightarrow> CompilerOptionDeclaration list \<Rightarrow> Failure + ParsedFlagNotation" where
  "parseFlag ToNumber defaultHandbookOptions name v start' end' customTags tsOptionDeclarations =
     (if name \<in> set customTags then
        Inr \<lparr>flagType = FlagTag, flagName = name, flagValue = v, flagStart = start', flagEnd = end'\<rparr>
      else case find (\<lambda>d. toLowerCase (declName d) = toLowerCase name) tsOptionDeclarations of
        Some compilerDecl \<Rightarrow>
          andThen (compilerOptionValue ToNumber compilerDecl v)
            (\<lambda>parsed. Inr \<lparr>flagType = FlagCompilerOptions, flagName = declName compilerDecl,
                              flagValue = parsed, flagStart = start', flagEnd = end'\<rparr>)
      | None \<Rightarrow>
          if name \<in> set (map fst defaultHandbookOptions) then
            Inr \<lparr>flagType = FlagHandbookOptions, flagName = name,
                  flagValue = handbookOptionValue ToNumber name v, flagStart = start', flagEnd = end'\<rparr>
          else
            Inr \<lparr>flagType = FlagUnknown, flagName = name, flagValue = v,
                  flagStart = start', flagEnd = end'\<rparr>)"

definition findFlagNotations :: "'r RegExps_scheme \<Rightarrow> (JSValue \<Rightarrow> JSNumber) \<Rightarrow> JSObject \<Rightarrow> string
    \<Rightarrow> string list \<Rightarrow> CompilerOptionDeclaration list \<Rightarrow> Failure + ParsedFlagNotation list" where
  "findFlagNotations res ToNumber defaultHandbookOptions src customTags tsOptionDeclarations =
     andThen
       (mapThrowing
          (\<lambda>m. let index = int (matchIndex m) in
                parseFlag ToNumber defaultHandbookOptions (matchGroups m) (JBoolean True) index
                  (index + int (length (matchText m)) + 1) customTags tsOptionDeclarations)
          (matchAll (reConfigBoolean res) src))
       (\<lambda>booleans.
          andThen
            (mapThrowing
               (\<lambda>m. let index = int (matchIndex m) in
                     parseFlag ToNumber defaultHandbookOptions (fst (matchGroups m))
                       (JString (snd (matchGroups m))) index
                       (index + int (length (matchText m)) + 1) customTags tsOptionDeclarations)
               (filter (\<lambda>m. fst (matchGroups m) \<noteq> ''filename'') (matchAll (reConfigValue res) src)))
            (\<lambda>valued. Inr (booleans @ valued)))"

text \<open>
  The invariant of the loop of \<open>splitFiles\<close>: the files so far partition the code up to
  \<open>index\<close>.
\<close>

definition filesUpTo :: "string \<Rightarrow> int \<Rightarrow> VirtualFile list \<Rightarrow> bool" where
  "filesUpTo src index files =
     (0 \<le> index \<and> index \<le> int (length src)
      \<and> concat (map content files) = take (nat index) src
      \<and> (\<forall>f \<in> set files. content f \<noteq> []
            \<and> content f = slice src (offset f) (offset f + int (length (content f)))
            \<and> offset f + int (length (content f)) \<le> index)
      \<and> sorted_wrt (<) (map offset files))"

section \<open>Nodes\<close>

text \<open>
  The six types of a node, with their names in the source. A node without position has
  \<open>start\<close>, \<open>length\<close> (here \<open>length_n\<close>), \<open>type\<close> and the fields of its kind; a resolved
  node has \<open>line\<close> and \<open>character\<close> as well (here \<open>line_n\<close> and \<open>character_n\<close>).
\<close>

datatype NodeType = NodeTag | NodeHover | NodeQuery | NodeHighlight | NodeCompletion | NodeError

fun typeName :: "NodeType \<Rightarrow> string" where
  "typeName NodeTag = ''tag''"
| "typeName NodeHover = ''hover''"
| "typeName NodeQuery = ''query''"
| "typeName NodeHighlight = ''highlight''"
| "typeName NodeCompletion = ''completion''"
| "typeName NodeError = ''error''"

record CompletionEntry =
  entryName :: string
  entryDetails :: JSValue

text \<open>
  The fields a node carries beside \<open>type\<close>, \<open>start\<close> and \<open>length\<close>, by the shape of the
  object literal that creates it. The \<open>id\<close> of an error node is the text
  \<open>err-code-start-length\<close> and is given by these three numbers.
\<close>

datatype NodeInfo =
    TagInfo string JSValue
  | HoverInfo string "string option" string
  | CompletionInfo "CompletionEntry list" string
  | ErrorInfo int string "int \<times> int \<times> int" string int

record NodeWithoutPosition = NodeStartLength +
  type :: NodeType
  info :: NodeInfo

record TwoslashNode = NodeWithoutPosition +
  line_n :: int
  character_n :: int

text \<open>
  \<open>a.localeCompare(b)\<close> on the names of the node types, which are words of lower-case
  ASCII letters: their collation order is the alphabetical one.
\<close>

definition localeCompare :: "string \<Rightarrow> string \<Rightarrow> int" where
  "localeCompare a b = (if a < b then -1 else if a = b then 0 else 1)"

text \<open>The comparator \<open>a.start - b.start || a.type.localeCompare(b.type)\<close>.\<close>

definition compareNodes :: "'a NodeWithoutPosition_scheme \<Rightarrow> 'a NodeWithoutPosition_scheme \<Rightarrow> int" where
  "compareNodes a b =
     (if start a - start b \<noteq> 0 then start a - start b
      else localeCompare (typeName (type a)) (typeName (type b)))"

text \<open>\<open>Object.assign(node, indexToPos(node.start))\<close>.\<close>

definition assignPosition :: "(int \<Rightarrow> Position) \<Rightarrow> NodeWithoutPosition \<Rightarrow> TwoslashNode" where
  "assignPosition toPos node =
     NodeWithoutPosition.extend node
       (TwoslashNode.fields (line (toPos (start node))) (character (toPos (start node))))"

text \<open>
  The second argument of \<open>resolveNodePositions\<close> is the code or a function from an index
  to a position.
\<close>

definition resolveNodePositions :: "NodeWithoutPosition list \<Rightarrow> string + (int \<Rightarrow> Position)
    \<Rightarrow> TwoslashNode list" where
  "resolveNodePositions nodes options =
     (let toPos = (case options of
                     Inl src \<Rightarrow> indexToPos (createPositionConverter src)
                   | Inr f \<Rightarrow> f);
          resolved = js_sort compareNodes (filter (\<lambda>node. start node \<ge> 0) nodes)
      in map (assignPosition toPos) resolved)"


section \<open>Query markers\<close>

text \<open>\<open>s.indexOf(c)\<close> and \<open>s.lastIndexOf(c)\<close> for one character: \<open>-1\<close> when it does not occur.\<close>

fun indexOfFrom :: "char \<Rightarrow> string \<Rightarrow> int \<Rightarrow> int" where
  "indexOfFrom c [] i = -1"
| "indexOfFrom c (x # xs) i = (if x = c then i else indexOfFrom c xs (i + 1))"

definition indexOf :: "string \<Rightarrow> char \<Rightarrow> int" where
  "indexOf s c = indexOfFrom c s 0"

definition lastIndexOf :: "string \<Rightarrow> char \<Rightarrow> int" where
  "lastIndexOf s c = (if c \<in> set s then int (length s) - 1 - indexOf (rev s) c else -1)"

definition trim :: "string \<Rightarrow> string" where
  "trim s = trimEnd (dropWhile isWhiteSpace s)"

text \<open>\<open>s.includes(sub)\<close>.\<close>

fun includesText :: "string \<Rightarrow> string \<Rightarrow> bool" where
  "includesText [] sub = (sub = [])"
| "includesText (c # cs) sub = (take (length sub) (c # cs) = sub \<or> includesText cs sub)"

text \<open>The object \<open>meta\<close> of a run; \<open>metaExtension\<close> is its field \<open>extension\<close>.\<close>

record TwoSlashReturnMeta =
  metaExtension :: string
  compilerOptions :: JSObject
  handbookOptions :: JSObject
  removals :: "Range list"
  flagNotations :: "ParsedFlagNotation list"
  virtualFiles :: "VirtualFile list"
  positionQueries :: "int list"
  positionCompletions :: "int list"
  positionHighlights :: "(int \<times> int \<times> string option) list"

text \<open>The callback of \<open>findQueryMarkers\<close> for one match, and the walk over the matches.\<close>

definition markQuery :: "(int \<Rightarrow> Failure + int) \<Rightarrow> (string \<times> string option) RegExpMatch
    \<Rightarrow> TwoSlashReturnMeta \<Rightarrow> Failure + TwoSlashReturnMeta" where
  "markQuery lineAbove m meta =
     (let kind = fst (matchGroups m);
          index = int (matchIndex m);
          meta1 = meta\<lparr>removals := removals meta @ [(index, index + int (length (matchText m)) + 1)]\<rparr>;
          markerIndex = indexOf (matchText m) (CHR ''^'')
      in andThen (lineAbove (index + markerIndex))
           (\<lambda>targetIndex.
              if kind = ''?'' then
                Inr (meta1\<lparr>positionQueries := positionQueries meta1 @ [targetIndex]\<rparr>)
              else if kind = ''|'' then
                Inr (meta1\<lparr>positionCompletions := positionCompletions meta1 @ [targetIndex]\<rparr>)
              else
                let markerLength = lastIndexOf (matchText m) (CHR ''^'') - markerIndex + 1
                in Inr (meta1\<lparr>positionHighlights := positionHighlights meta1
                          @ [(targetIndex, targetIndex + markerLength, map_option trim (snd (matchGroups m)))]\<rparr>)))"

fun markQueries :: "(int \<Rightarrow> Failure + int) \<Rightarrow> (string \<times> string option) RegExpMatch list
    \<Rightarrow> TwoSlashReturnMeta \<Rightarrow> Failure + TwoSlashReturnMeta" where
  "markQueries lineAbove [] meta = Inr meta"
| "markQueries lineAbove (m # ms) meta =
     andThen (markQuery lineAbove m meta) (markQueries lineAbove ms)"

definition findQueryMarkers :: "'r RegExps_scheme \<Rightarrow> string \<Rightarrow> TwoSlashReturnMeta
    \<Rightarrow> (int \<Rightarrow> Failure + int) \<Rightarrow> Failure + TwoSlashReturnMeta" where
  "findQueryMarkers res src meta lineAbove =
     (if includesText src ''//'' then markQueries lineAbove (matchAll (reAnnonateMarkers res) src) meta
      else Inr meta)"

text \<open>The ranges that the walk over the query markers is to add to the removals.\<close>

definition specMarkerRanges :: "'r RegExps_scheme \<Rightarrow> string \<Rightarrow> Range list" where
  "specMarkerRanges res src =
     (if includesText src ''//''
      then map (\<lambda>m. (int (matchIndex m), int (matchIndex m) + int (length (matchText m)) + 1))
             (matchAll (reAnnonateMarkers res) src)
      else [])"

section \<open>The extension of the code\<close>

definition extensionMap :: "(string \<times> string) list" where
  "extensionMap =
     [(''js'', ''js''), (''javascript'', ''js''), (''ts'', ''ts''), (''typescript'', ''ts''),
      (''tsx'', ''tsx''), (''jsx'', ''jsx''), (''json'', ''json''), (''jsn'', ''json''),
      (''map'', ''json''), (''mts'', ''ts''), (''cts'', ''ts''), (''mjs'', ''js''), (''cjs'', ''js'')]"

text \<open>
  \<open>map[types]\<close> on an object literal also finds what every object inherits (\<open>toString\<close>,
  \<open>constructor\<close> and the like), which counts as true in the test. \<open>inherited\<close> gives, for
  such a name, the text the inherited value prints as.
\<close>

definition typesToExtension :: "(string \<Rightarrow> string option) \<Rightarrow> string \<Rightarrow> Failure + string" where
  "typesToExtension inherited types =
     (case map_of extensionMap types of
        Some ext \<Rightarrow> Inr ext
      | None \<Rightarrow>
          (case inherited types of
             Some printed \<Rightarrow> Inr printed
           | None \<Rightarrow> Inl (UnknownExtension types)))"

section \<open>The type-checking backend\<close>

text \<open>
  The virtual TypeScript environment and its language service are outside the program.
  An environment is the list of the calls made on it so far, and what the backend
  answers to a call is a function of that list; so every deterministic backend is an
  instance, and the order of the calls of a run can be read off the environment.
\<close>

datatype BackendCall =
    CreateVirtualTypeScriptEnvironment JSObject
  | CreateFile string string
  | UpdateFile string string
  | GetSourceFile string
  | GetQuickInfoAtPosition string int
  | GetCompletionsAtPosition string int
  | GetSemanticDiagnostics string
  | GetSyntacticDiagnostics string
  | GetEmitOutput string

type_synonym Env = "BackendCall list"

record QuickInfo =
  displayParts :: "string list option"
  documentation :: "string list option"

record Diagnostic =
  diagFileName :: "string option"
  diagCode :: int
  diagStart :: int
  diagLength :: int
  diagMessageText :: string
  diagCategory :: int

record OutputFile =
  outputName :: string
  outputText :: string

text \<open>
  \<open>sourceIdentifiers\<close> lists the identifier nodes of a source file in the order in which
  \<open>getIdentifierTextSpans\<close> walks them, each with its start in the file and its text.
  \<open>hasSourceFile\<close> tells whether the program of the environment has a source file of the
  name; \<open>env.updateFile\<close> throws when it has none.
\<close>

record Backend =
  sourceIdentifiers :: "Env \<Rightarrow> string \<Rightarrow> (int \<times> string) list"
  quickInfoAtPosition :: "Env \<Rightarrow> string \<Rightarrow> int \<Rightarrow> QuickInfo option"
  completionsAtPosition :: "Env \<Rightarrow> string \<Rightarrow> int \<Rightarrow> CompletionEntry list option"
  semanticDiagnostics :: "Env \<Rightarrow> string \<Rightarrow> Diagnostic list"
  syntacticDiagnostics :: "Env \<Rightarrow> string \<Rightarrow> Diagnostic list"
  emitOutput :: "Env \<Rightarrow> string \<Rightarrow> OutputFile list"
  hasSourceFile :: "Env \<Rightarrow> string \<Rightarrow> bool"

definition getIdentifierTextSpans :: "(int \<times> string) list \<Rightarrow> int \<Rightarrow> (int \<times> int \<times> string) list" where
  "getIdentifierTextSpans identifiers fileOffset =
     map (\<lambda>(childStart, text).
            (childStart + fileOffset, childStart + fileOffset + int (length text), text))
       identifiers"

section \<open>The options of a run\<close>

text \<open>
  What other modules and the language provide: the regular expressions, the default
  options, the validation of the error nodes, \<open>deExtensionify\<close>, the hash of the compiler
  options, \<open>ToNumber\<close> and the inherited properties of an object literal.
\<close>

record Imports = RegExps +
  defaultCompilerOptions :: JSObject
  defaultHandbookOptions :: JSObject
  validateCodeForErrors :: "NodeWithoutPosition list \<Rightarrow> JSObject \<Rightarrow> string \<Rightarrow> Failure option"
  deExtensionify :: "string \<Rightarrow> string"
  objectHash :: "JSObject \<Rightarrow> string"
  toNumber :: "JSValue \<Rightarrow> JSNumber"
  inheritedProperty :: "string \<Rightarrow> string option"

text \<open>
  The options of \<open>createTwoSlasher\<close> and those of one call. An absent object of options
  is the empty object, an absent list of positions the empty list; \<open>useFS\<close> says whether
  \<open>fsMap\<close> is given, and \<open>optionDeclarations\<close> is the table of the TypeScript module.
\<close>

record CreateTwoSlashOptions =
  createCompilerOptions :: JSObject
  createHandbookOptions :: JSObject
  createCustomTags :: "string list option"
  createShouldGetHoverInfo :: "(string \<Rightarrow> int \<Rightarrow> string \<Rightarrow> bool) option"
  createFilterNode :: "(NodeWithoutPosition \<Rightarrow> bool) option"
  optionDeclarations :: "CompilerOptionDeclaration list"
  vfsRoot :: string
  useFS :: bool

record TwoSlashExecuteOptions =
  execCompilerOptions :: JSObject
  execHandbookOptions :: JSObject
  execCustomTags :: "string list option"
  execShouldGetHoverInfo :: "(string \<Rightarrow> int \<Rightarrow> string \<Rightarrow> bool) option"
  execFilterNode :: "(NodeWithoutPosition \<Rightarrow> bool) option"
  execPositionQueries :: "int list"
  execPositionCompletions :: "int list"
  execPositionHighlights :: "(int \<times> int \<times> string option) list"

definition fsRootOf :: "CreateTwoSlashOptions \<Rightarrow> string" where
  "fsRootOf createOptions =
     (if useFS createOptions then ''/''
      else map (\<lambda>c. if c = CHR 0x5C then CHR ''/'' else c) (vfsRoot createOptions) @ ''/'')"

text \<open>
  The cache of environments, when there is one, by the hash of the compiler options. An
  environment in the cache is the object the run works on: \<open>twoslasher\<close> below stores the
  environment back when the run ends.
\<close>

type_synonym Cache = "(string \<Rightarrow> Env option) option"

definition getEnv :: "'i Imports_scheme \<Rightarrow> Cache \<Rightarrow> JSObject \<Rightarrow> Env" where
  "getEnv imports cache options =
     (case cache of
        None \<Rightarrow> [CreateVirtualTypeScriptEnvironment options]
      | Some entries \<Rightarrow>
          (case entries (objectHash imports options) of
             None \<Rightarrow> [CreateVirtualTypeScriptEnvironment options]
           | Some env \<Rightarrow> env))"

definition storeEnv :: "'i Imports_scheme \<Rightarrow> Cache \<Rightarrow> JSObject \<Rightarrow> Env \<Rightarrow> Cache" where
  "storeEnv imports cache options env =
     (case cache of
        None \<Rightarrow> None
      | Some entries \<Rightarrow> Some (entries(objectHash imports options \<mapsto> env)))"

section \<open>The run\<close>

text \<open>The first statement of \<open>twoslasher\<close>: the object \<open>meta\<close>.\<close>

definition initialMeta :: "'i Imports_scheme \<Rightarrow> CreateTwoSlashOptions \<Rightarrow> TwoSlashExecuteOptions
    \<Rightarrow> string \<Rightarrow> Failure + TwoSlashReturnMeta" where
  "initialMeta imports createOptions options ext =
     andThen (typesToExtension (inheritedProperty imports) ext)
       (\<lambda>extension'.
          Inr \<lparr>metaExtension = extension',
                compilerOptions =
                  spread (spread (defaultCompilerOptions imports) (createCompilerOptions createOptions))
                    (execCompilerOptions options),
                handbookOptions =
                  spread (spread (defaultHandbookOptions imports) (createHandbookOptions createOptions))
                    (execHandbookOptions options),
                removals = [], flagNotations = [], virtualFiles = [],
                positionQueries = execPositionQueries options,
                positionCompletions = execPositionCompletions options,
                positionHighlights = execPositionHighlights options\<rparr>)"

text \<open>
  The loop that applies the flags. A flag of type \<open>unknown\<close> takes the \<open>continue\<close> of the
  \<open>switch\<close>; for every other flag the statement after the \<open>switch\<close> pushes its range.
\<close>

fun applyFlags :: "ParsedFlagNotation list \<Rightarrow> TwoSlashReturnMeta \<Rightarrow> NodeWithoutPosition list
    \<Rightarrow> TwoSlashReturnMeta \<times> NodeWithoutPosition list" where
  "applyFlags [] meta nodes = (meta, nodes)"
| "applyFlags (flag # rest) meta nodes =
     (case flagType flag of
        FlagUnknown \<Rightarrow> applyFlags rest meta nodes
      | FlagCompilerOptions \<Rightarrow>
          applyFlags rest
            (meta\<lparr>compilerOptions := setProperty (compilerOptions meta) (flagName flag) (flagValue flag),
                  removals := removals meta @ [(flagStart flag, flagEnd flag)]\<rparr>)
            nodes
      | FlagHandbookOptions \<Rightarrow>
          applyFlags rest
            (meta\<lparr>handbookOptions := setProperty (handbookOptions meta) (flagName flag) (flagValue flag),
                  removals := removals meta @ [(flagStart flag, flagEnd flag)]\<rparr>)
            nodes
      | FlagTag \<Rightarrow>
          applyFlags rest
            (meta\<lparr>removals := removals meta @ [(flagStart flag, flagEnd flag)]\<rparr>)
            (nodes @ [\<lparr>start = flagEnd flag, length_n = 0, type = NodeTag,
                       info = TagInfo (flagName flag) (flagValue flag)\<rparr>]))"

definition checkUnknownFlags :: "TwoSlashReturnMeta \<Rightarrow> Failure + unit" where
  "checkUnknownFlags meta =
     (if \<not> truthy (getProperty (handbookOptions meta) ''noErrorValidation'') then
        (let unknownFlags = filter (\<lambda>i. flagType i = FlagUnknown) (flagNotations meta)
         in if unknownFlags \<noteq> [] then Inl (UnknownFlags (map flagName unknownFlags)) else Inr ())
      else Inr ())"

text \<open>A step on the environment that may throw; the environment stays as the throw left it.\<close>

definition thenStep :: "(Failure + 'a) \<times> Env \<Rightarrow> ('a \<Rightarrow> Env \<Rightarrow> (Failure + 'b) \<times> Env)
    \<Rightarrow> (Failure + 'b) \<times> Env" where
  "thenStep r f = (case r of (Inl e, env) \<Rightarrow> (Inl e, env) | (Inr x, env) \<Rightarrow> f x env)"

definition isInRemoval :: "TwoSlashReturnMeta \<Rightarrow> int \<Rightarrow> bool" where
  "isInRemoval meta index = (isInRanges index (removals meta) \<noteq> None)"

definition getFileAtPosition :: "TwoSlashReturnMeta \<Rightarrow> int \<Rightarrow> VirtualFile option" where
  "getFileAtPosition meta pos =
     find (\<lambda>i. isInRange pos (offset i, offset i + int (length (content i)))) (virtualFiles meta)"

fun joinWith :: "string \<Rightarrow> string list \<Rightarrow> string" where
  "joinWith sep [] = []"
| "joinWith sep [x] = x"
| "joinWith sep (x # y # rest) = x @ sep @ joinWith sep (y # rest)"

definition getQuickInfo :: "Backend \<Rightarrow> TwoSlashReturnMeta \<Rightarrow> int \<Rightarrow> string \<Rightarrow> Env
    \<Rightarrow> (Failure + NodeWithoutPosition option) \<times> Env" where
  "getQuickInfo bk meta start' target env =
     (case getFileAtPosition meta start' of
        None \<Rightarrow> (Inl TypeError, env)
      | Some file \<Rightarrow>
          (let quickInfo = quickInfoAtPosition bk env (filepath file) (start' - offset file);
               env' = env @ [GetQuickInfoAtPosition (filepath file) (start' - offset file)]
           in case quickInfo of
                None \<Rightarrow> (Inr None, env')
              | Some q \<Rightarrow>
                  (case displayParts q of
                     None \<Rightarrow> (Inr None, env')
                   | Some parts \<Rightarrow>
                       (Inr (Some \<lparr>start = start', length_n = int (length target), type = NodeHover,
                                   info = HoverInfo (concat parts)
                                     (case documentation q of
                                        None \<Rightarrow> None
                                      | Some ds \<Rightarrow>
                                          if joinWith ''\<newline>'' ds = [] then None
                                          else Some (joinWith ''\<newline>'' ds))
                                     target\<rparr>),
                        env'))))"

text \<open>The loop over the identifiers of a file that collects the hovers.\<close>

fun hoverLoop :: "Backend \<Rightarrow> TwoSlashReturnMeta \<Rightarrow> (string \<Rightarrow> int \<Rightarrow> string \<Rightarrow> bool) \<Rightarrow> VirtualFile
    \<Rightarrow> (int \<times> int \<times> string) list \<Rightarrow> NodeWithoutPosition list \<Rightarrow> Env
    \<Rightarrow> (Failure + NodeWithoutPosition list) \<times> Env" where
  "hoverLoop bk meta shouldGetHoverInfo file [] nodes env = (Inr nodes, env)"
| "hoverLoop bk meta shouldGetHoverInfo file ((start', end', target) # rest) nodes env =
     (if isInRemoval meta start' then hoverLoop bk meta shouldGetHoverInfo file rest nodes env
      else if \<not> shouldGetHoverInfo target start' (filename file) then
        hoverLoop bk meta shouldGetHoverInfo file rest nodes env
      else
        thenStep (getQuickInfo bk meta start' target env)
          (\<lambda>node env'.
             hoverLoop bk meta shouldGetHoverInfo file rest
               (case node of None \<Rightarrow> nodes | Some n \<Rightarrow> nodes @ [n]) env'))"

definition isInFile :: "VirtualFile \<Rightarrow> int \<Rightarrow> bool" where
  "isInFile file pos = (offset file \<le> pos \<and> pos < offset file + int (length (content file)))"

fun queryLoop :: "Backend \<Rightarrow> TwoSlashReturnMeta \<Rightarrow> string list \<Rightarrow> VirtualFile
    \<Rightarrow> (int \<times> int \<times> string) list \<Rightarrow> int list \<Rightarrow> NodeWithoutPosition list \<Rightarrow> Env
    \<Rightarrow> (Failure + NodeWithoutPosition list) \<times> Env" where
  "queryLoop bk meta pc file identifiers [] nodes env = (Inr nodes, env)"
| "queryLoop bk meta pc file identifiers (query # rest) nodes env =
     (if \<not> isInFile file query then queryLoop bk meta pc file identifiers rest nodes env
      else
        thenStep
          (case find (\<lambda>i. isInRange query (fst i, fst (snd i))) identifiers of
             None \<Rightarrow> (Inr None, env)
           | Some id' \<Rightarrow> getQuickInfo bk meta query (snd (snd id')) env)
          (\<lambda>node env'.
             case node of
               Some n \<Rightarrow> queryLoop bk meta pc file identifiers rest (nodes @ [n\<lparr>type := NodeQuery\<rparr>]) env'
             | None \<Rightarrow>
                 (Inl (InvalidQuickInfoQuery (line (indexToPos pc query) + 2) (filename file)),
                  env')))"

text \<open>\<open>ids.map(i => getQuickInfo(i[0], i[2])).filter(Boolean)\<close>.\<close>

fun quickInfos :: "Backend \<Rightarrow> TwoSlashReturnMeta \<Rightarrow> (int \<times> int \<times> string) list \<Rightarrow> Env
    \<Rightarrow> (Failure + NodeWithoutPosition list) \<times> Env" where
  "quickInfos bk meta [] env = (Inr [], env)"
| "quickInfos bk meta (i # ids) env =
     thenStep (getQuickInfo bk meta (fst i) (snd (snd i)) env)
       (\<lambda>node env'.
          thenStep (quickInfos bk meta ids env')
            (\<lambda>matched env''.
               (Inr (case node of None \<Rightarrow> matched | Some n \<Rightarrow> n # matched), env'')))"

fun highlightLoop :: "Backend \<Rightarrow> TwoSlashReturnMeta \<Rightarrow> string list \<Rightarrow> VirtualFile
    \<Rightarrow> (int \<times> int \<times> string) list \<Rightarrow> (int \<times> int \<times> string option) list
    \<Rightarrow> NodeWithoutPosition list \<Rightarrow> Env \<Rightarrow> (Failure + NodeWithoutPosition list) \<times> Env" where
  "highlightLoop bk meta pc file identifiers [] nodes env = (Inr nodes, env)"
| "highlightLoop bk meta pc file identifiers (highlight # rest) nodes env =
     (if \<not> isInFile file (fst highlight) then highlightLoop bk meta pc file identifiers rest nodes env
      else
        thenStep
          (quickInfos bk meta
             (filter (\<lambda>i. areRangesIntersecting (fst i, fst (snd i)) (fst highlight, fst (snd highlight)))
                identifiers)
             env)
          (\<lambda>matched env'.
             if matched \<noteq> [] then
               highlightLoop bk meta pc file identifiers rest
                 (nodes @ map (\<lambda>n. n\<lparr>type := NodeHighlight\<rparr>) matched) env'
             else
               (Inl (InvalidHighlightQuery (line (indexToPos pc (fst highlight)) + 2) (filename file)),
                env')))"

text \<open>
  The prefix of a completion: of the code before the target, the last run of characters
  that are not white space (\<open>/\S+$/\<close>), and of that what follows its last dot.
\<close>

definition completionPrefix :: "string \<Rightarrow> int \<Rightarrow> string" where
  "completionPrefix src target =
     getExtension (rev (takeWhile (\<lambda>c. \<not> isWhiteSpace c) (rev (slice src 0 (target - 1 + 1)))))"

fun completionLoop :: "Backend \<Rightarrow> TwoSlashReturnMeta \<Rightarrow> string list \<Rightarrow> string \<Rightarrow> VirtualFile
    \<Rightarrow> string \<Rightarrow> int list \<Rightarrow> NodeWithoutPosition list \<Rightarrow> Env
    \<Rightarrow> (Failure + NodeWithoutPosition list) \<times> Env" where
  "completionLoop bk meta pc src file path [] nodes env = (Inr nodes, env)"
| "completionLoop bk meta pc src file path (target # rest) nodes env =
     (if \<not> isInFile file target then completionLoop bk meta pc src file path rest nodes env
      else if isInRemoval meta target then completionLoop bk meta pc src file path rest nodes env
      else
        let completions = completionsAtPosition bk env path (target - 1);
            env' = env @ [GetCompletionsAtPosition path (target - 1)]
        in if completions = None \<and> \<not> truthy (getProperty (handbookOptions meta) ''noErrorValidation'')
           then (Inl (InvalidCompletionQuery (line (indexToPos pc target)) (filename file)), env')
           else
             completionLoop bk meta pc src file path rest
               (nodes @ [\<lparr>start = target, length_n = 0, type = NodeCompletion,
                          info = CompletionInfo
                            (filter (\<lambda>i. take (length (completionPrefix src target)) (entryName i)
                                          = completionPrefix src target)
                               (case completions of None \<Rightarrow> [] | Some entries \<Rightarrow> entries))
                            (completionPrefix src target)\<rparr>])
               env')"

definition supportedFileTyes :: "string list" where
  "supportedFileTyes = [''js'', ''jsx'', ''ts'', ''tsx'']"

text \<open>The body of the first loop over the virtual files, for one file.\<close>

definition populateFile :: "Backend \<Rightarrow> TwoSlashReturnMeta \<Rightarrow> (string \<Rightarrow> int \<Rightarrow> string \<Rightarrow> bool)
    \<Rightarrow> string list \<Rightarrow> string \<Rightarrow> string \<Rightarrow> VirtualFile \<Rightarrow> NodeWithoutPosition list \<Rightarrow> Env
    \<Rightarrow> (Failure + NodeWithoutPosition list) \<times> Env" where
  "populateFile bk meta shouldGetHoverInfo pc src fsRoot file nodes env =
     (if extension file = ''json'' \<and> \<not> truthy (getProperty (compilerOptions meta) ''resolveJsonModule'')
      then (Inr nodes, env)
      else if extension file \<noteq> ''json'' \<and> extension file \<notin> set supportedFileTyes
      then (Inr nodes, env)
      else
        let path = fsRoot @ filename file;
            env1 = env @ [CreateFile path (content file)]
        in if truthy (getProperty (handbookOptions meta) ''showEmit'') then (Inr nodes, env1)
           else
             let identifiers = getIdentifierTextSpans (sourceIdentifiers bk env1 path) (offset file);
                 env2 = env1 @ [GetSourceFile path]
             in thenStep
                  (if \<not> truthy (getProperty (handbookOptions meta) ''noStaticSemanticInfo'')
                   then hoverLoop bk meta shouldGetHoverInfo file identifiers nodes env2
                   else (Inr nodes, env2))
                  (\<lambda>nodes1 env3.
                     thenStep (queryLoop bk meta pc file identifiers (positionQueries meta) nodes1 env3)
                       (\<lambda>nodes2 env4.
                          thenStep
                            (highlightLoop bk meta pc file identifiers (positionHighlights meta) nodes2 env4)
                            (\<lambda>nodes3 env5.
                               completionLoop bk meta pc src file path (positionCompletions meta)
                                 nodes3 env5))))"

fun populateFiles :: "Backend \<Rightarrow> TwoSlashReturnMeta \<Rightarrow> (string \<Rightarrow> int \<Rightarrow> string \<Rightarrow> bool)
    \<Rightarrow> string list \<Rightarrow> string \<Rightarrow> string \<Rightarrow> VirtualFile list \<Rightarrow> NodeWithoutPosition list \<Rightarrow> Env
    \<Rightarrow> (Failure + NodeWithoutPosition list) \<times> Env" where
  "populateFiles bk meta shouldGetHoverInfo pc src fsRoot [] nodes env = (Inr nodes, env)"
| "populateFiles bk meta shouldGetHoverInfo pc src fsRoot (file # files) nodes env =
     thenStep (populateFile bk meta shouldGetHoverInfo pc src fsRoot file nodes env)
       (populateFiles bk meta shouldGetHoverInfo pc src fsRoot files)"

text \<open>The diagnostics of one file that become error nodes.\<close>

fun diagnosticNodes :: "TwoSlashReturnMeta \<Rightarrow> VirtualFile \<Rightarrow> string \<Rightarrow> JSValue list \<Rightarrow> Diagnostic list
    \<Rightarrow> NodeWithoutPosition list \<Rightarrow> NodeWithoutPosition list" where
  "diagnosticNodes meta file path ignores [] errorNodes = errorNodes"
| "diagnosticNodes meta file path ignores (diagnostic # rest) errorNodes =
     (if diagFileName diagnostic \<noteq> Some path then diagnosticNodes meta file path ignores rest errorNodes
      else if JNumber (Finite (of_int (diagCode diagnostic))) \<in> set ignores
      then diagnosticNodes meta file path ignores rest errorNodes
      else if truthy (getProperty (handbookOptions meta) ''noErrorsCutted'')
              \<and> isInRemoval meta (diagStart diagnostic + offset file)
      then diagnosticNodes meta file path ignores rest errorNodes
      else
        diagnosticNodes meta file path ignores rest
          (errorNodes @ [\<lparr>start = diagStart diagnostic + offset file, length_n = diagLength diagnostic,
                          type = NodeError,
                          info = ErrorInfo (diagCode diagnostic) (filename file)
                                   (diagCode diagnostic, diagStart diagnostic + offset file,
                                    diagLength diagnostic)
                                   (diagMessageText diagnostic) (diagCategory diagnostic)\<rparr>]))"

text \<open>The second loop over the virtual files, after all files are mounted.\<close>

fun diagnoseFiles :: "Backend \<Rightarrow> TwoSlashReturnMeta \<Rightarrow> string \<Rightarrow> VirtualFile list
    \<Rightarrow> NodeWithoutPosition list \<Rightarrow> Env \<Rightarrow> NodeWithoutPosition list \<times> Env" where
  "diagnoseFiles bk meta fsRoot [] errorNodes env = (errorNodes, env)"
| "diagnoseFiles bk meta fsRoot (file # files) errorNodes env =
     (if extension file \<notin> set supportedFileTyes then diagnoseFiles bk meta fsRoot files errorNodes env
      else if getProperty (handbookOptions meta) ''noErrors'' \<noteq> JBoolean True then
        (let path = fsRoot @ filename file;
             semantic = semanticDiagnostics bk env path;
             env1 = env @ [GetSemanticDiagnostics path];
             syntactic = syntacticDiagnostics bk env1 path;
             env2 = env1 @ [GetSyntacticDiagnostics path];
             ignores = (case getProperty (handbookOptions meta) ''noErrors'' of
                          JArray codes \<Rightarrow> codes
                        | _ \<Rightarrow> [])
         in diagnoseFiles bk meta fsRoot files
              (diagnosticNodes meta file path ignores (semantic @ syntactic) errorNodes) env2)
      else diagnoseFiles bk meta fsRoot files errorNodes env)"

text \<open>
  The calls that the two loops over the virtual files are to make when \<open>showEmit\<close> is
  set: \<open>createFile\<close> for every file that is a source file (a \<open>json\<close> file only with
  \<open>resolveJsonModule\<close>), then, unless \<open>noErrors\<close> is \<open>true\<close>, the semantic and the
  syntactic diagnostics of every file with a supported extension.
\<close>

definition specCreateCalls :: "JSObject \<Rightarrow> string \<Rightarrow> VirtualFile list \<Rightarrow> BackendCall list" where
  "specCreateCalls compilerOpts fsRoot files =
     map (\<lambda>file. CreateFile (fsRoot @ filename file) (content file))
       (filter (\<lambda>file. if extension file = ''json''
                        then truthy (getProperty compilerOpts ''resolveJsonModule'')
                        else extension file \<in> set supportedFileTyes)
          files)"

definition specDiagnosticCalls :: "JSObject \<Rightarrow> string \<Rightarrow> VirtualFile list \<Rightarrow> BackendCall list" where
  "specDiagnosticCalls handbookOpts fsRoot files =
     (if getProperty handbookOpts ''noErrors'' = JBoolean True then []
      else concat (map (\<lambda>file. [GetSemanticDiagnostics (fsRoot @ filename file),
                                 GetSyntacticDiagnostics (fsRoot @ filename file)])
                     (filter (\<lambda>file. extension file \<in> set supportedFileTyes) files)))"

text \<open>
  The loop \<open>for (const file of files) env.updateFile(file.filepath, file.content)\<close>; the
  call on a file that the environment does not have throws and ends the loop.
\<close>

fun updateFiles :: "Backend \<Rightarrow> VirtualFile list \<Rightarrow> Env \<Rightarrow> (Failure + unit) \<times> Env" where
  "updateFiles bk [] env = (Inr (), env)"
| "updateFiles bk (file # files) env =
     (if hasSourceFile bk env (filepath file)
      then updateFiles bk files (env @ [UpdateFile (filepath file) (content file)])
      else (Inl (MissingSourceFile (filepath file)), env @ [UpdateFile (filepath file) (content file)]))"

text \<open>
  The block \<open>if (meta.handbookOptions.showEmit)\<close>. Its result is the new output code and
  the new extension; the removals and the nodes are emptied by the caller below. A name
  of the emitted file that is not a string makes \<open>deExtensionify\<close> throw on the first
  virtual file.
\<close>

definition emitFrom :: "Backend \<Rightarrow> string \<Rightarrow> string \<Rightarrow> string \<Rightarrow> Env
    \<Rightarrow> (Failure + string \<times> string) \<times> Env" where
  "emitFrom bk fsRoot emitName emitSource env =
     (let output = emitOutput bk env (fsRoot @ emitSource);
          env' = env @ [GetEmitOutput (fsRoot @ emitSource)]
      in case find (\<lambda>k. outputName k = fsRoot @ emitName \<or> outputName k = emitName) output of
           None \<Rightarrow> (Inl (NoOutputFile emitName (map outputName output)), env')
         | Some outfile \<Rightarrow> (Inr (outputText outfile, getExtension (outputName outfile)), env'))"

definition showEmit :: "Backend \<Rightarrow> 'i Imports_scheme \<Rightarrow> TwoSlashReturnMeta \<Rightarrow> string \<Rightarrow> string
    \<Rightarrow> string \<Rightarrow> Env \<Rightarrow> (Failure + string \<times> string) \<times> Env" where
  "showEmit bk imports meta src defaultFilename fsRoot env =
     (if truthy (getProperty (handbookOptions meta) ''keepNotations'')
      then (Inl ShowEmitWithKeepNotations, env)
      else
        let removedCode = fst (removeCodeRanges src (removals meta)
                                 (None :: NodeStartLength list option))
        in thenStep (updateFiles bk (splitFiles removedCode defaultFilename fsRoot) env)
             (\<lambda>updated env1.
                let emitFilename =
                      (if truthy (getProperty (handbookOptions meta) ''showEmittedFile'')
                       then getProperty (handbookOptions meta) ''showEmittedFile''
                       else if getProperty (compilerOptions meta) ''jsx'' = JNumber (Finite 1)
                       then JString ''index.jsx''
                       else JString ''index.js'');
                    outFile = truthy (getProperty (compilerOptions meta) ''outFile'')
                in case emitFilename of
                     JString emitName \<Rightarrow>
                       (case find (\<lambda>i. deExtensionify imports (filename i)
                                        = deExtensionify imports emitName)
                               (virtualFiles meta) of
                          None \<Rightarrow>
                            if \<not> outFile
                            then (Inl (NoEmitSource emitFilename (map filename (virtualFiles meta))), env1)
                            else (case virtualFiles meta of
                                    [] \<Rightarrow> (Inl TypeError, env1)
                                  | file # files \<Rightarrow> emitFrom bk fsRoot emitName (filename file) env1)
                        | Some found \<Rightarrow>
                            if outFile
                            then emitFrom bk fsRoot emitName (filename (hd (virtualFiles meta))) env1
                            else emitFrom bk fsRoot emitName (filename found) env1)
                   | _ \<Rightarrow>
                       (if virtualFiles meta \<noteq> [] then (Inl TypeError, env1)
                        else if \<not> outFile
                        then (Inl (NoEmitSource emitFilename (map filename (virtualFiles meta))), env1)
                        else (Inl TypeError, env1))))"

record TwoSlashReturn =
  returnCode :: string
  returnNodes :: "TwoslashNode list"
  returnMeta :: TwoSlashReturnMeta

text \<open>The end of the run: the removal of the ranges and the positions of the nodes.\<close>

definition finish :: "string \<Rightarrow> string list \<Rightarrow> string \<Rightarrow> TwoSlashReturnMeta \<Rightarrow> NodeWithoutPosition list
    \<Rightarrow> TwoSlashReturn" where
  "finish src pc outputCode meta nodes =
     (let (outputCode', removals', nodes') =
            (if \<not> truthy (getProperty (handbookOptions meta) ''keepNotations'')
             then (case removeCodeRanges outputCode (removals meta) (Some nodes) of
                     (c, r, n) \<Rightarrow> (c, r, case n of None \<Rightarrow> [] | Some ns \<Rightarrow> ns))
             else (outputCode, removals meta, nodes));
          toPos = (if outputCode' = src then indexToPos pc
                   else indexToPos (createPositionConverter outputCode'))
      in \<lparr>returnCode = outputCode',
          returnNodes = resolveNodePositions nodes' (Inr toPos),
          returnMeta = meta\<lparr>removals := removals'\<rparr>\<rparr>)"

text \<open>
  The part of \<open>twoslasher\<close> before \<open>getEnv\<close>: the flags are found, applied and checked.
\<close>

definition scanFlags :: "'i Imports_scheme \<Rightarrow> CreateTwoSlashOptions \<Rightarrow> TwoSlashExecuteOptions
    \<Rightarrow> string \<Rightarrow> string \<Rightarrow> Failure + TwoSlashReturnMeta \<times> NodeWithoutPosition list" where
  "scanFlags imports createOptions options src ext =
     andThen (initialMeta imports createOptions options ext)
       (\<lambda>meta0.
          let customTags = (case execCustomTags options of
                              Some tags \<Rightarrow> tags
                            | None \<Rightarrow> (case createCustomTags createOptions of Some tags \<Rightarrow> tags | None \<Rightarrow> []))
          in andThen
               (findFlagNotations imports (toNumber imports) (defaultHandbookOptions imports) src
                  customTags (optionDeclarations createOptions))
               (\<lambda>flags.
                  let (meta1, nodes) = applyFlags flags (meta0\<lparr>flagNotations := flags\<rparr>) []
                  in andThen (checkUnknownFlags meta1) (\<lambda>u. Inr (meta1, nodes))))"

text \<open>The part after \<open>getEnv\<close>, on the environment \<open>env\<close>.\<close>

definition runOnEnv :: "Backend \<Rightarrow> 'i Imports_scheme \<Rightarrow> CreateTwoSlashOptions \<Rightarrow> TwoSlashExecuteOptions
    \<Rightarrow> string \<Rightarrow> TwoSlashReturnMeta \<Rightarrow> NodeWithoutPosition list \<Rightarrow> Env
    \<Rightarrow> (Failure + TwoSlashReturn) \<times> Env" where
  "runOnEnv bk imports createOptions options src meta1 nodes0 env =
     (let fsRoot = fsRootOf createOptions;
          defaultFilename = ''index.'' @ metaExtension meta1;
          shouldGetHoverInfo = (case execShouldGetHoverInfo options of
                                  Some f \<Rightarrow> f
                                | None \<Rightarrow> (case createShouldGetHoverInfo createOptions of
                                              Some f \<Rightarrow> f
                                            | None \<Rightarrow> (\<lambda>target start' name. True)));
          filterNode = (case execFilterNode options of
                          Some f \<Rightarrow> Some f
                        | None \<Rightarrow> createFilterNode createOptions);
          pc = createPositionConverter src
      in case findCutNotations imports src of
           Inl e \<Rightarrow> (Inl e, env)
         | Inr cuts \<Rightarrow>
             (case findQueryMarkers imports src (meta1\<lparr>removals := removals meta1 @ cuts\<rparr>)
                     (getIndexOfLineAbove pc) of
                Inl e \<Rightarrow> (Inl e, env)
              | Inr meta2 \<Rightarrow>
                  (let meta = meta2\<lparr>virtualFiles := splitFiles src defaultFilename fsRoot\<rparr>
                   in thenStep
                        (populateFiles bk meta shouldGetHoverInfo pc src fsRoot (virtualFiles meta) nodes0 env)
                        (\<lambda>nodes1 env1.
                           let (errorNodes0, env2) = diagnoseFiles bk meta fsRoot (virtualFiles meta) [] env1;
                               nodes2 = (case filterNode of None \<Rightarrow> nodes1 | Some f \<Rightarrow> filter f nodes1);
                               errorNodes = (case filterNode of
                                               None \<Rightarrow> errorNodes0
                                             | Some f \<Rightarrow> filter f errorNodes0);
                               nodes3 = nodes2 @ errorNodes
                           in case (if \<not> truthy (getProperty (handbookOptions meta) ''noErrorValidation'')
                                       \<and> errorNodes \<noteq> []
                                    then validateCodeForErrors imports errorNodes (handbookOptions meta) fsRoot
                                    else None) of
                                Some e \<Rightarrow> (Inl e, env2)
                              | None \<Rightarrow>
                                  if truthy (getProperty (handbookOptions meta) ''showEmit'') then
                                    thenStep (showEmit bk imports meta src defaultFilename fsRoot env2)
                                      (\<lambda>emitted env3.
                                         (Inr (finish src pc (fst emitted)
                                                 (meta\<lparr>metaExtension := snd emitted, removals := []\<rparr>) []),
                                          env3))
                                  else (Inr (finish src pc src meta nodes3), env2)))))"

text \<open>
  One call of the function that \<open>createTwoSlasher\<close> returns. The result holds what the call
  returns or throws, the environment with the calls made on it (none when the call ends
  before \<open>getEnv\<close>), and the cache afterwards.
\<close>

record RunResult =
  outcome :: "Failure + TwoSlashReturn"
  environment :: "Env option"
  cacheAfter :: Cache

definition twoslasher :: "Backend \<Rightarrow> 'i Imports_scheme \<Rightarrow> CreateTwoSlashOptions \<Rightarrow> Cache \<Rightarrow> string
    \<Rightarrow> string \<Rightarrow> TwoSlashExecuteOptions \<Rightarrow> RunResult" where
  "twoslasher bk imports createOptions cache src ext options =
     (case scanFlags imports createOptions options src ext of
        Inl e \<Rightarrow> \<lparr>outcome = Inl e, environment = None, cacheAfter = cache\<rparr>
      | Inr (meta1, nodes0) \<Rightarrow>
          (let env = getEnv imports cache (compilerOptions meta1);
               (result, env') = runOnEnv bk imports createOptions options src meta1 nodes0 env
           in \<lparr>outcome = result, environment = Some env',
                cacheAfter = storeEnv imports cache (compilerOptions meta1) env'\<rparr>))"

text \<open>
  An instance for examples: regular expressions that match nowhere (as those of the
  program do on a text without \<open>//\<close>), no default options, and a backend that
  answers every quick info request, reports nothing else, and has the source files
  that were created on the environment.
\<close>

definition exampleImports :: Imports where
  "exampleImports =
     \<lparr>reAnnonateMarkers = (\<lambda>s i. None), reConfigBoolean = (\<lambda>s i. None), reConfigValue = (\<lambda>s i. None),
      reCutAfter = (\<lambda>s i. None), reCutBefore = (\<lambda>s i. None), reCutEnd = (\<lambda>s i. None),
      reCutStart = (\<lambda>s i. None),
      defaultCompilerOptions = [], defaultHandbookOptions = [],
      validateCodeForErrors = (\<lambda>errorNodes options fsRoot. None),
      deExtensionify = (\<lambda>name. name), objectHash = (\<lambda>options. []),
      toNumber = (\<lambda>v. NaN), inheritedProperty = (\<lambda>name. None)\<rparr>"

definition exampleBackend :: Backend where
  "exampleBackend =
     \<lparr>sourceIdentifiers = (\<lambda>env path. []),
      quickInfoAtPosition = (\<lambda>env path pos. Some \<lparr>displayParts = Some [''any''], documentation = None\<rparr>),
      completionsAtPosition = (\<lambda>env path pos. None), semanticDiagnostics = (\<lambda>env path. []),
      syntacticDiagnostics = (\<lambda>env path. []), emitOutput = (\<lambda>env path. []),
      hasSourceFile = (\<lambda>env path. list_ex (\<lambda>call. case call of
                                                     CreateFile created text \<Rightarrow> created = path
                                                   | _ \<Rightarrow> False) env)\<rparr>"

definition exampleCreateOptions :: CreateTwoSlashOptions where
  "exampleCreateOptions =
     \<lparr>createCompilerOptions = [], createHandbookOptions = [], createCustomTags = None,
      createShouldGetHoverInfo = None, createFilterNode = None, optionDeclarations = [],
      vfsRoot = [], useFS = True\<rparr>"

definition exampleOptions :: "JSObject \<Rightarrow> TwoSlashExecuteOptions" where
  "exampleOptions handbook =
     \<lparr>execCompilerOptions = [], execHandbookOptions = handbook, execCustomTags = None,
      execShouldGetHoverInfo = None, execFilterNode = None, execPositionQueries = [],
      execPositionCompletions = [], execPositionHighlights = []\<rparr>"

definition exampleMeta :: TwoSlashReturnMeta where
  "exampleMeta =
     \<lparr>metaExtension = ''ts'', compilerOptions = [], handbookOptions = [], removals = [],
      flagNotations = [], virtualFiles = [], positionQueries = [], positionCompletions = [],
      positionHighlights = []\<rparr>"

definition exampleFile :: VirtualFile where
  "exampleFile =
     \<lparr>offset = 0, filename = ''index.ts'', filepath = ''/index.ts'',
      content = ''// @x\<newline>a'', extension = ''ts''\<rparr>"

text \<open>A regular expression for a fixed text, and the example instance with two cut markers.\<close>

definition reLiteral :: "string \<Rightarrow> unit RegExp" where
  "reLiteral lit s i =
     (if lit \<noteq> [] \<and> take (length lit) (drop i s) = lit then Some (lit, ()) else None)"

definition exampleCutImports :: Imports where
  "exampleCutImports =
     exampleImports\<lparr>reCutStart := reLiteral ''// ---cut-start---'',
                    reCutEnd := reLiteral ''// ---cut-end---''\<rparr>"

text \<open>
  An expression for a flag without a value, in the manner of \<open>/^\/\/ @(\w+)$/mg\<close>: a line
  that is \<open>// @\<close> and a name; the group is the name. The example instance with it knows
  the handbook option \<open>noErrors\<close>.
\<close>

definition isWordChar :: "char \<Rightarrow> bool" where
  "isWordChar c = (c \<in> set ''abcdefghijklmnopqrstuvwxyzABCDEFGHIJKLMNOPQRSTUVWXYZ0123456789_'')"

definition reFlagLine :: "string RegExp" where
  "reFlagLine s i =
     (let rest = drop i s;
          name = takeWhile isWordChar (drop 4 rest);
          after = drop (4 + length name) rest
      in if (i = 0 \<or> isLineTerminator (s ! (i - 1))) \<and> take 4 rest = ''// @'' \<and> name \<noteq> []
            \<and> (after = [] \<or> isLineTerminator (hd after))
         then Some (''// @'' @ name, name)
         else None)"

definition exampleFlagImports :: Imports where
  "exampleFlagImports =
     exampleImports\<lparr>reConfigBoolean := reFlagLine,
                    defaultHandbookOptions := [(''noErrors'', JBoolean False)]\<rparr>"

text \<open>
  A backend that reports the error 2304 at the start of every file, and imports whose
  validation rejects every error node.
\<close>

definition exampleDiagnosingBackend :: Backend where
  "exampleDiagnosingBackend =
     exampleBackend\<lparr>semanticDiagnostics :=
       (\<lambda>env path. [\<lparr>diagFileName = Some path, diagCode = 2304, diagStart = 0, diagLength = 1,
                       diagMessageText = ''Cannot find name'', diagCategory = 1\<rparr>])\<rparr>"

definition exampleValidatingImports :: Imports where
  "exampleValidatingImports =
     exampleImports\<lparr>validateCodeForErrors :=
       (\<lambda>errorNodes options fsRoot. Some (ValidationFailure ''Errors were thrown in the sample''))\<rparr>"

section \<open>Properties of the range operations\<close>

lemma insertSorted_insort_key:
  assumes "\<And>x y. (cmp x y \<le> 0) = (f x \<le> f y)"
  shows "insertSorted cmp x ys = insort_key f x ys"
  by (induction ys) (simp_all add: assms)

lemma js_sort_sort_key:
  assumes "\<And>x y. (cmp x y \<le> 0) = (f x \<le> f y)"
  shows "js_sort cmp xs = sort_key f xs"
proof -
  have "insertSorted cmp = insort_key f"
    by (intro ext) (rule insertSorted_insort_key [OF assms])
  then show ?thesis
    by (simp add: js_sort_def sort_key_def)
qed

lemma js_sort_ascending: "js_sort (\<lambda>a b. fst a - fst b) (rs :: Range list) = sort_key fst rs"
  by (rule js_sort_sort_key) simp

lemma js_sort_descending:
  "js_sort (\<lambda>a b. fst b - fst a) (rs :: Range list) = sort_key (\<lambda>r. - fst r) rs"
  by (rule js_sort_sort_key) simp

lemma sorted_wrt_total:
  "sorted_wrt R xs \<Longrightarrow> x \<in> set xs \<Longrightarrow> y \<in> set xs \<Longrightarrow> x = y \<or> R x y \<or> R y x"
  by (induction xs) auto

lemma cover_merge:
  "fst l \<le> fst r \<Longrightarrow> fst r \<le> snd l \<Longrightarrow> fst r \<le> snd r \<Longrightarrow>
   cover (fst l, max (snd l) (snd r)) = cover l \<union> cover r"
  by (auto simp: cover_def)

lemma covered_append: "covered (xs @ ys) = covered xs \<union> covered ys"
  by (auto simp: covered_def)

lemma covered_Cons: "covered (x # xs) = cover x \<union> covered xs"
  by (auto simp: covered_def)

lemma covered_Nil: "covered [] = {}"
  by (simp add: covered_def)

lemma covered_set: "set xs = set ys \<Longrightarrow> covered xs = covered ys"
  by (simp add: covered_def)

lemma mergeLoop_invariant:
  assumes "\<forall>r \<in> set merged. fst r \<le> snd r"
    and "\<forall>r \<in> set rest. fst r \<le> snd r"
    and "disjointRanges merged"
    and "sorted (map fst rest)"
    and "merged \<noteq> [] \<longrightarrow> (\<forall>r \<in> set rest. fst (last merged) \<le> fst r)"
  shows "(\<forall>r \<in> set (mergeLoop merged rest). fst r \<le> snd r)
       \<and> disjointRanges (mergeLoop merged rest)
       \<and> covered (mergeLoop merged rest) = covered merged \<union> covered rest"
  using assms
proof (induction rest arbitrary: merged)
  case Nil
  then show ?case by (simp add: covered_Nil)
next
  case (Cons r rest)
  show ?case
  proof (cases "merged \<noteq> [] \<and> snd (last merged) \<ge> fst r")
    case True
    then obtain ms l where m: "merged = ms @ [l]"
      by (cases merged rule: rev_cases) auto
    let ?l = "(fst l, max (snd l) (snd r))"
    have lr: "fst l \<le> fst r" "fst r \<le> snd l" "fst r \<le> snd r"
      using True Cons.prems m by auto
    have step: "mergeLoop merged (r # rest) = mergeLoop (ms @ [?l]) rest"
      using True m by simp
    have 1: "\<forall>q \<in> set (ms @ [?l]). fst q \<le> snd q"
      using Cons.prems(1) m lr by auto
    have 2: "\<forall>q \<in> set rest. fst q \<le> snd q"
      using Cons.prems(2) by simp
    have 3: "disjointRanges (ms @ [?l])"
      using Cons.prems(3) m by (auto simp: disjointRanges_def sorted_wrt_append)
    have 4: "sorted (map fst rest)"
      using Cons.prems(4) by simp
    have 5: "ms @ [?l] \<noteq> [] \<longrightarrow> (\<forall>q \<in> set rest. fst (last (ms @ [?l])) \<le> fst q)"
      using Cons.prems(4) lr by auto
    have cov: "covered (ms @ [?l]) = covered merged \<union> cover r"
      using cover_merge [OF lr] by (auto simp: m covered_append covered_Cons covered_Nil)
    from Cons.IH [OF 1 2 3 4 5] show ?thesis
      unfolding step cov by (auto simp: covered_Cons)
  next
    case False
    have step: "mergeLoop merged (r # rest) = mergeLoop (merged @ [r]) rest"
      using False by auto
    have before: "\<forall>a \<in> set merged. snd a < fst r"
    proof (cases merged rule: rev_cases)
      case Nil
      then show ?thesis by simp
    next
      case (snoc ms l)
      have "snd l < fst r" using False snoc by simp
      moreover have "\<forall>a \<in> set ms. snd a < fst l"
        using Cons.prems(3) snoc by (auto simp: disjointRanges_def sorted_wrt_append)
      moreover have "fst l \<le> snd l" using Cons.prems(1) snoc by simp
      ultimately show ?thesis using snoc by fastforce
    qed
    have 1: "\<forall>q \<in> set (merged @ [r]). fst q \<le> snd q"
      using Cons.prems(1,2) by auto
    have 2: "\<forall>q \<in> set rest. fst q \<le> snd q"
      using Cons.prems(2) by simp
    have 3: "disjointRanges (merged @ [r])"
      using Cons.prems(3) before by (auto simp: disjointRanges_def sorted_wrt_append)
    have 4: "sorted (map fst rest)"
      using Cons.prems(4) by simp
    have 5: "merged @ [r] \<noteq> [] \<longrightarrow> (\<forall>q \<in> set rest. fst (last (merged @ [r])) \<le> fst q)"
      using Cons.prems(4) by auto
    from Cons.IH [OF 1 2 3 4 5] show ?thesis
      unfolding step by (auto simp: covered_append covered_Cons covered_Nil)
  qed
qed

lemma mergeLoop_origin:
  "\<forall>r \<in> set (mergeLoop merged rest). \<exists>q \<in> set merged \<union> set rest. fst q = fst r \<and> snd q \<le> snd r"
proof (induction rest arbitrary: merged)
  case Nil
  then show ?case by auto
next
  case (Cons r rest)
  show ?case
  proof (cases "merged \<noteq> [] \<and> snd (last merged) \<ge> fst r")
    case True
    then obtain ms l where m: "merged = ms @ [l]"
      by (cases merged rule: rev_cases) auto
    have step: "mergeLoop merged (r # rest) = mergeLoop (ms @ [(fst l, max (snd l) (snd r))]) rest"
      using True m by simp
    show ?thesis
      unfolding step
    proof
      fix x assume "x \<in> set (mergeLoop (ms @ [(fst l, max (snd l) (snd r))]) rest)"
      with Cons.IH [of "ms @ [(fst l, max (snd l) (snd r))]"]
      obtain q where q: "q \<in> set (ms @ [(fst l, max (snd l) (snd r))]) \<union> set rest"
        "fst q = fst x" "snd q \<le> snd x" by blast
      show "\<exists>q \<in> set merged \<union> set (r # rest). fst q = fst x \<and> snd q \<le> snd x"
      proof (cases "q = (fst l, max (snd l) (snd r))")
        case True
        then have "fst l = fst x \<and> snd l \<le> snd x" using q by auto
        then show ?thesis using m by auto
      next
        case False
        then show ?thesis using q m by auto
      qed
    qed
  next
    case False
    have step: "mergeLoop merged (r # rest) = mergeLoop (merged @ [r]) rest"
      using False by auto
    show ?thesis
      unfolding step using Cons.IH [of "merged @ [r]"] by auto
  qed
qed

lemma disjointRanges_sorted:
  "disjointRanges rs \<Longrightarrow> \<forall>r \<in> set rs. fst r \<le> snd r \<Longrightarrow> sorted_wrt (<) (map fst rs)"
proof (induction rs)
  case Nil
  then show ?case by simp
next
  case (Cons r rs)
  have "\<forall>q \<in> set rs. fst r < fst q"
  proof
    fix q assume "q \<in> set rs"
    then have "snd r < fst q" using Cons.prems(1) by (simp add: disjointRanges_def)
    moreover have "fst r \<le> snd r" using Cons.prems(2) by simp
    ultimately show "fst r < fst q" by simp
  qed
  moreover have "sorted_wrt (<) (map fst rs)"
    using Cons by (simp add: disjointRanges_def)
  ultimately show ?case by simp
qed

lemma disjointRanges_distinct:
  "disjointRanges rs \<Longrightarrow> \<forall>r \<in> set rs. fst r \<le> snd r \<Longrightarrow> distinct rs"
  using disjointRanges_sorted [of rs] strict_sorted_iff [of "map fst rs"] distinct_map [of fst rs]
  by simp

lemma minimal_cover:
  assumes dis: "disjointRanges ms"
    and ne: "\<forall>r \<in> set ms. fst r < snd r"
    and cov: "covered cs = covered ms"
  shows "length ms \<le> length cs"
proof -
  have total: "\<And>a b. a \<in> set ms \<Longrightarrow> b \<in> set ms \<Longrightarrow> a = b \<or> snd a < fst b \<or> snd b < fst a"
    using sorted_wrt_total [OF dis [unfolded disjointRanges_def]] by blast
  have dist: "distinct ms"
    by (rule disjointRanges_distinct [OF dis]) (use ne in \<open>simp add: less_imp_le\<close>)
  have ex: "\<forall>r \<in> set ms. \<exists>c \<in> set cs. fst r \<in> cover c"
  proof
    fix r assume r: "r \<in> set ms"
    then have "fst r \<in> cover r" using ne by (simp add: cover_def)
    then have "fst r \<in> covered ms" using r by (auto simp: covered_def)
    then have "fst r \<in> covered cs" using cov by simp
    then show "\<exists>c \<in> set cs. fst r \<in> cover c" by (auto simp: covered_def)
  qed
  then have "\<forall>r \<in> set ms. \<exists>c. c \<in> set cs \<and> fst r \<in> cover c"
    by blast
  then have "\<exists>f. \<forall>r \<in> set ms. f r \<in> set cs \<and> fst r \<in> cover (f r)"
    by (rule bchoice)
  then obtain f where f: "\<forall>r \<in> set ms. f r \<in> set cs \<and> fst r \<in> cover (f r)" ..
  have gap: "snd a \<notin> covered ms" if a: "a \<in> set ms" for a
  proof
    assume "snd a \<in> covered ms"
    then obtain b where b: "b \<in> set ms" "fst b \<le> snd a" "snd a < snd b"
      by (auto simp: covered_def cover_def)
    have "fst a < snd a" "fst b < snd b" using ne a b by auto
    with total [OF a b(1)] b show False by auto
  qed
  have inj: "inj_on f (set ms)"
  proof (rule inj_onI)
    fix a b assume a: "a \<in> set ms" and b: "b \<in> set ms" and eq: "f a = f b"
    show "a = b"
    proof (rule ccontr)
      assume "a \<noteq> b"
      with total [OF a b] consider "snd a < fst b" | "snd b < fst a" by blast
      then show False
      proof cases
        case 1
        have "fst a < snd a" using ne a by simp
        then have "snd a \<in> cover (f a)"
          using f a b eq 1 by (auto simp: cover_def)
        then have "snd a \<in> covered cs" using f a by (auto simp: covered_def)
        then show False using gap [OF a] cov by simp
      next
        case 2
        have "fst b < snd b" using ne b by simp
        then have "snd b \<in> cover (f b)"
          using f a b eq 2 by (auto simp: cover_def)
        then have "snd b \<in> covered cs" using f b by (auto simp: covered_def)
        then show False using gap [OF b] cov by simp
      qed
    qed
  qed
  have "card (set ms) \<le> card (set cs)"
    by (rule card_inj_on_le [OF inj]) (use f in auto)
  then show ?thesis
    using dist card_length [of cs] by (simp add: distinct_card)
qed

lemma removeLoop_fold:
  "removeLoop src (Some nodes) ranges =
     (foldl specSplice src ranges,
      Some (map (\<lambda>record. foldl (\<lambda>r (s, e). specRecordRule s e r) record ranges) nodes))"
proof (induction ranges arbitrary: src nodes)
  case Nil
  then show ?case by simp
next
  case (Cons remove rest)
  have rule: "moveNode remove = specRecordRule (fst remove) (snd remove)"
    by (intro ext) (simp add: moveNode_def specRecordRule_def)
  show ?case
    by (simp add: Cons.IH rule specSplice_def case_prod_beta comp_def)
qed

text \<open>
  Claim C1. With records given, \<open>removeCodeRanges\<close> takes the merged ranges in descending
  order of start; for each range \<open>[s, e)\<close> it splices the range out of the text and
  treats every record by the rule: unchanged when \<open>start + length \<le> s\<close>, else invalidated
  (\<open>start = -1\<close>) when \<open>start < e\<close>, else moved down by \<open>e - s\<close>. Removing \<open>[2, 5)\<close> from
  \<open>abcdefghij\<close> gives \<open>abfghij\<close>; the record at 6 of length 1 ends at 3, the record at 3 of
  length 1 ends at \<open>-1\<close>.
\<close>

theorem removeCodeRanges_rule:
  "(let ranges = js_sort (\<lambda>a b. fst b - fst a) (mergeRanges rs)
    in removeCodeRanges src rs (Some nodes) =
         (foldl specSplice src ranges, ranges,
          Some (map (\<lambda>record. foldl (\<lambda>r (s, e). specRecordRule s e r) record ranges) nodes)))
   \<and> removeCodeRanges ''abcdefghij'' [(2, 5)]
        (Some [\<lparr>start = 6, length_n = 1\<rparr>, \<lparr>start = 3, length_n = 1\<rparr>]) =
       (''abfghij'', [(2, 5)], Some [\<lparr>start = 3, length_n = 1\<rparr>, \<lparr>start = -1, length_n = 1\<rparr>])"
proof
  show "(let ranges = js_sort (\<lambda>a b. fst b - fst a) (mergeRanges rs)
    in removeCodeRanges src rs (Some nodes) =
         (foldl specSplice src ranges, ranges,
          Some (map (\<lambda>record. foldl (\<lambda>r (s, e). specRecordRule s e r) record ranges) nodes)))"
    by (simp add: removeCodeRanges_def removeLoop_fold Let_def)
  show "removeCodeRanges ''abcdefghij'' [(2, 5)]
        (Some [\<lparr>start = 6, length_n = 1\<rparr>, \<lparr>start = 3, length_n = 1\<rparr>]) =
       (''abfghij'', [(2, 5)], Some [\<lparr>start = 3, length_n = 1\<rparr>, \<lparr>start = -1, length_n = 1\<rparr>])"
    by (simp add: removeCodeRanges_def mergeRanges_def js_sort_def moveNode_def slice_def sliceFrom_def)
qed

text \<open>
  Claim C7, amended. For ranges with \<open>start \<le> end\<close>, the result of \<open>mergeRanges\<close> is
  sorted ascending by start, no range starts at or before the end of an earlier one, and
  it covers the same offsets as the input. When every input range is non-empty
  (\<open>start < end\<close>), no list of ranges covering the same offsets is shorter.
\<close>

theorem mergeRanges_cover:
  assumes "\<forall>r \<in> set ranges. fst r \<le> snd r"
  shows "sorted_wrt (<) (map fst (mergeRanges ranges))
       \<and> disjointRanges (mergeRanges ranges)
       \<and> covered (mergeRanges ranges) = covered ranges
       \<and> ((\<forall>r \<in> set ranges. fst r < snd r) \<longrightarrow>
            (\<forall>cs. covered cs = covered ranges \<longrightarrow> length (mergeRanges ranges) \<le> length cs))"
proof -
  let ?sorted = "sort_key fst ranges"
  have m: "mergeRanges ranges = mergeLoop [] ?sorted"
    by (simp add: mergeRanges_def js_sort_ascending)
  have wf: "\<forall>r \<in> set ?sorted. fst r \<le> snd r"
    using assms by simp
  have inv: "(\<forall>r \<in> set (mergeLoop [] ?sorted). fst r \<le> snd r)
       \<and> disjointRanges (mergeLoop [] ?sorted)
       \<and> covered (mergeLoop [] ?sorted) = covered [] \<union> covered ?sorted"
    by (rule mergeLoop_invariant) (use wf in \<open>simp_all add: disjointRanges_def\<close>)
  have cov: "covered (mergeRanges ranges) = covered ranges"
    using inv m covered_set [of ?sorted ranges] by (simp add: covered_Nil)
  have srt: "sorted_wrt (<) (map fst (mergeRanges ranges))"
    using inv m disjointRanges_sorted by simp
  have minimal: "length (mergeRanges ranges) \<le> length cs"
    if ne: "\<forall>r \<in> set ranges. fst r < snd r" and c: "covered cs = covered ranges" for cs
  proof (rule minimal_cover)
    show "disjointRanges (mergeRanges ranges)" using inv m by simp
    show "\<forall>r \<in> set (mergeRanges ranges). fst r < snd r"
    proof
      fix r assume "r \<in> set (mergeRanges ranges)"
      with mergeLoop_origin [of "[]" ?sorted] m
      obtain q where "q \<in> set ranges" "fst q = fst r" "snd q \<le> snd r" by auto
      with ne show "fst r < snd r" by fastforce
    qed
    show "covered cs = covered (mergeRanges ranges)" using c cov by simp
  qed
  show ?thesis using srt inv m cov minimal by simp
qed

text \<open>The theorem at three ranges of which two overlap.\<close>

theorem mergeRanges_cover_witness:
  "sorted_wrt (<) (map fst (mergeRanges [(1, 3), (8, 10), (2, 6)]))
   \<and> disjointRanges (mergeRanges [(1, 3), (8, 10), (2, 6)])
   \<and> covered (mergeRanges [(1, 3), (8, 10), (2, 6)]) = covered [(1, 3), (8, 10), (2, 6)]
   \<and> length (mergeRanges [(1, 3), (8, 10), (2, 6)]) \<le> length [(1, 6), (8, 9), (9, 10 :: int)]
   \<and> mergeRanges [(1, 3), (8, 10), (2, 6)] = [(1, 6), (8, 10)]"
proof -
  have c: "covered [(1, 6), (8, 9), (9, 10)] = covered [(1, 3), (8, 10), (2, 6)]"
    by (auto simp: covered_def cover_def)
  have v: "mergeRanges [(1, 3), (8, 10), (2, 6)] = [(1, 6), (8, 10)]"
    by (simp add: mergeRanges_def js_sort_def)
  show ?thesis
    using mergeRanges_cover [of "[(1, 3), (8, 10), (2, 6)]"] c v by simp
qed

text \<open>
  Claim C7 as stated fails for an empty range: \<open>mergeRanges\<close> keeps \<open>[3, 3)\<close>, which covers
  no offset, while the empty list is a sorted disjoint cover of the same offsets.
\<close>

theorem mergeRanges_minimal_counterexample:
  "fst (3 :: int, 3 :: int) \<le> snd (3 :: int, 3 :: int)
   \<and> mergeRanges [(3, 3)] = [(3, 3)]
   \<and> sorted (map fst ([] :: Range list)) \<and> disjointRanges []
   \<and> covered [] = covered [(3, 3)]
   \<and> length ([] :: Range list) < length (mergeRanges [(3, 3)])"
  by (simp add: mergeRanges_def js_sort_def covered_def cover_def disjointRanges_def)

section \<open>Properties of the position converter\<close>

lemma lineLengths_Cons: "lineLengths (l # ls) = int (length l) + lineLengths ls"
  by (simp add: lineLengths_def)

lemma lineLengths_nonneg: "0 \<le> lineLengths ls"
  by (induction ls) (simp_all add: lineLengths_def)

lemma posToIndexLoop_upt:
  "b \<le> length ls \<Longrightarrow>
   posToIndexLoop ls [a ..< b] acc = Inr (acc + lineLengths (drop a (take b ls)))"
proof (induction "b - a" arbitrary: a acc)
  case 0
  then show ?case by (simp add: lineLengths_def)
next
  case (Suc n)
  then have ab: "a < b" "a < length ls" by auto
  have d: "drop a (take b ls) = ls ! a # drop (Suc a) (take b ls)"
    using ab by (metis Cons_nth_drop_Suc length_take min.absorb2 Suc.prems nth_take)
  have "posToIndexLoop ls [a ..< b] acc = posToIndexLoop ls [Suc a ..< b] (acc + int (length (ls ! a)))"
    using ab by (simp add: upt_conv_Cons)
  also have "\<dots> = Inr (acc + int (length (ls ! a)) + lineLengths (drop (Suc a) (take b ls)))"
    using Suc by simp
  finally show ?case by (simp add: d lineLengths_def)
qed

lemma posToIndex_take:
  "0 \<le> l \<Longrightarrow> nat l \<le> length ls \<Longrightarrow>
   posToIndex ls (l + 1) c = Inr (lineLengths (take (nat l) ls) + c)"
  using posToIndexLoop_upt [of "nat l" ls 0 0] by (simp add: posToIndex_def andThen_def)

lemma indexToPosLoop_walk:
  "\<exists>k \<le> length ls. indexToPosLoop ls ch l0 =
      \<lparr>line = l0 + int k, character = ch - lineLengths (take k ls)\<rparr>"
proof (induction ls arbitrary: ch l0)
  case Nil
  then show ?case by (simp add: lineLengths_def)
next
  case (Cons lineText rest)
  show ?case
  proof (cases "ch < int (length lineText)")
    case True
    then have "indexToPosLoop (lineText # rest) ch l0 =
        \<lparr>line = l0 + int 0, character = ch - lineLengths (take 0 (lineText # rest))\<rparr>"
      by (simp add: lineLengths_def)
    then show ?thesis by blast
  next
    case False
    from Cons.IH [of "ch - int (length lineText)" "l0 + 1"]
    obtain k where k: "k \<le> length rest"
      "indexToPosLoop rest (ch - int (length lineText)) (l0 + 1) =
         \<lparr>line = l0 + 1 + int k, character = ch - int (length lineText) - lineLengths (take k rest)\<rparr>"
      by blast
    have "indexToPosLoop (lineText # rest) ch l0 =
        \<lparr>line = l0 + int (Suc k), character = ch - lineLengths (take (Suc k) (lineText # rest))\<rparr>"
      using False k(2) by (simp add: lineLengths_def)
    moreover have "Suc k \<le> length (lineText # rest)" using k(1) by simp
    ultimately show ?thesis by blast
  qed
qed

lemma posToIndex_indexToPos:
  "posToIndex ls (line (indexToPos ls i) + 1) (character (indexToPos ls i)) = Inr i"
proof -
  obtain k where k: "k \<le> length ls"
    "indexToPos ls i = \<lparr>line = int k, character = i - lineLengths (take k ls)\<rparr>"
    using indexToPosLoop_walk [of ls i 0] by (auto simp: indexToPos_def)
  show ?thesis
    using posToIndex_take [of "int k" ls "i - lineLengths (take k ls)"] k by simp
qed

lemma indexToPosLoop_skip:
  "0 \<le> c \<Longrightarrow>
   indexToPosLoop (xs @ ys) (lineLengths xs + c) l0 = indexToPosLoop ys c (l0 + int (length xs))"
proof (induction xs arbitrary: l0)
  case Nil
  then show ?case by (simp add: lineLengths_def)
next
  case (Cons x xs)
  have "0 \<le> lineLengths xs" by (rule lineLengths_nonneg)
  then have "indexToPosLoop ((x # xs) @ ys) (lineLengths (x # xs) + c) l0
      = indexToPosLoop (xs @ ys) (lineLengths xs + c) (l0 + 1)"
    using Cons.prems by (simp add: lineLengths_Cons)
  also have "\<dots> = indexToPosLoop ys c (l0 + 1 + int (length xs))"
    by (rule Cons.IH [OF Cons.prems])
  finally show ?case by (simp add: add.assoc)
qed

lemma indexToPos_posToIndex:
  assumes "validPosition ls p"
  shows "posToIndex ls (line p + 1) (character p) = Inr (lineLengths (take (nat (line p)) ls) + character p)"
    and "indexToPos ls (lineLengths (take (nat (line p)) ls) + character p) = p"
proof -
  let ?l = "nat (line p)"
  have v: "0 \<le> line p" "?l < length ls" "0 \<le> character p" "character p < int (length (ls ! ?l))"
    using assms by (simp_all add: validPosition_def)
  show "posToIndex ls (line p + 1) (character p) = Inr (lineLengths (take ?l ls) + character p)"
    using posToIndex_take [of "line p" ls "character p"] v by simp
  have split: "ls = take ?l ls @ (ls ! ?l # drop (Suc ?l) ls)"
    using v(2) by (simp add: Cons_nth_drop_Suc)
  have "indexToPosLoop (take ?l ls @ (ls ! ?l # drop (Suc ?l) ls)) (lineLengths (take ?l ls) + character p) 0
      = indexToPosLoop (ls ! ?l # drop (Suc ?l) ls) (character p) (0 + int (length (take ?l ls)))"
    by (rule indexToPosLoop_skip [OF v(3)])
  also have "\<dots> = \<lparr>line = line p, character = character p\<rparr>"
    using v by simp
  finally show "indexToPos ls (lineLengths (take ?l ls) + character p) = p"
    using split by (simp add: indexToPos_def)
qed

lemma getIndexOfLineAbove_first: "getIndexOfLineAbove ls i = posToIndex ls (line (indexToPos ls i)) (character (indexToPos ls i))"
  by (simp add: getIndexOfLineAbove_def Let_def)

text \<open>
  Claim C2, amended. \<open>posToIndex\<close> counts its line from one where \<open>indexToPos\<close> counts
  from zero. For every offset \<open>i\<close>, \<open>posToIndex\<close> at the line after that of \<open>indexToPos(i)\<close>
  and at its character returns \<open>i\<close>; for every valid position \<open>p\<close>, \<open>indexToPos\<close> of
  \<open>posToIndex\<close> at the line after that of \<open>p\<close> is \<open>p\<close>; and so converting an offset to a
  position, back with the line shifted, and to a position again gives the first position.
\<close>

theorem position_converter_shifted:
  "posToIndex (createPositionConverter src)
      (line (indexToPos (createPositionConverter src) i) + 1)
      (character (indexToPos (createPositionConverter src) i)) = Inr i
   \<and> (validPosition (createPositionConverter src) p \<longrightarrow>
        (\<exists>k. posToIndex (createPositionConverter src) (line p + 1) (character p) = Inr k
             \<and> indexToPos (createPositionConverter src) k = p))
   \<and> (\<exists>k. posToIndex (createPositionConverter src)
            (line (indexToPos (createPositionConverter src) i) + 1)
            (character (indexToPos (createPositionConverter src) i)) = Inr k
          \<and> indexToPos (createPositionConverter src) k = indexToPos (createPositionConverter src) i)"
  using posToIndex_indexToPos [of "createPositionConverter src" i]
    indexToPos_posToIndex [of "createPositionConverter src" p]
  by simp

text \<open>The theorem on the code of two lines \<open>a\<close> and \<open>b\<close>, at the start of the second line.\<close>

theorem position_converter_shifted_witness:
  "validPosition (createPositionConverter ''a\<newline>b'') \<lparr>line = 1, character = 0\<rparr>
   \<and> posToIndex (createPositionConverter ''a\<newline>b'') 2 0 = Inr 2
   \<and> indexToPos (createPositionConverter ''a\<newline>b'') 2 = \<lparr>line = 1, character = 0\<rparr>"
proof -
  have l: "createPositionConverter ''a\<newline>b'' = [''a\<newline>'', ''b'', '''']"
    by code_simp
  have v: "validPosition [''a\<newline>'', ''b'', ''''] \<lparr>line = 1, character = 0\<rparr>"
    by (simp add: validPosition_def)
  have i: "indexToPos [''a\<newline>'', ''b'', ''''] 2 = \<lparr>line = 1, character = 0\<rparr>"
    by (simp add: indexToPos_def)
  show ?thesis
    using position_converter_shifted [of "''a\<newline>b''" 2 "\<lparr>line = 1, character = 0\<rparr>"] v i
    unfolding l by simp
qed

text \<open>
  Claim C2 as stated fails on that code: offset 2 is at line 1, character 0, a valid
  position; \<open>posToIndex\<close> of it is 0, the same column one line above, and \<open>indexToPos\<close> of
  0 is line 0.
\<close>

theorem position_converter_counterexample:
  "posToIndex (createPositionConverter ''a\<newline>b'')
      (line (indexToPos (createPositionConverter ''a\<newline>b'') 2))
      (character (indexToPos (createPositionConverter ''a\<newline>b'') 2)) = Inr 0
   \<and> validPosition (createPositionConverter ''a\<newline>b'') \<lparr>line = 1, character = 0\<rparr>
   \<and> posToIndex (createPositionConverter ''a\<newline>b'') 1 0 = Inr 0
   \<and> indexToPos (createPositionConverter ''a\<newline>b'') 0 = \<lparr>line = 0, character = 0\<rparr>
   \<and> indexToPos (createPositionConverter ''a\<newline>b'') 0 \<noteq> \<lparr>line = 1, character = 0\<rparr>"
proof -
  have l: "createPositionConverter ''a\<newline>b'' = [''a\<newline>'', ''b'', '''']"
    by code_simp
  show ?thesis
    unfolding l by (simp add: indexToPos_def posToIndex_def andThen_def validPosition_def)
qed

section \<open>Properties of the file splitter\<close>

lemma matchAllFrom_indices:
  "(\<forall>m \<in> set (matchAllFrom re s i). i \<le> matchIndex m \<and> matchIndex m \<le> length s)
   \<and> sorted_wrt (<) (map matchIndex (matchAllFrom re s i))"
proof (induction re s i rule: matchAllFrom.induct)
  case (1 re s lastIndex)
  show ?case
  proof (cases "lastIndex > length s")
    case True
    then show ?thesis by (subst matchAllFrom.simps, simp)+
  next
    case False
    show ?thesis
    proof (cases "re s lastIndex")
      case None
      have eq: "matchAllFrom re s lastIndex = matchAllFrom re s (Suc lastIndex)"
        using False None by (subst matchAllFrom.simps) simp
      from "1.IH"(1) [OF False None] show ?thesis
        unfolding eq by auto
    next
      case (Some tg)
      obtain t g where tg: "tg = (t, g)" by (cases tg)
      let ?next = "if t = [] then Suc lastIndex else lastIndex + length t"
      have eq: "matchAllFrom re s lastIndex =
          \<lparr>matchIndex = lastIndex, matchText = t, matchGroups = g\<rparr> # matchAllFrom re s ?next"
        using False Some tg by (subst matchAllFrom.simps) simp
      have lt: "lastIndex < ?next" by auto
      from "1.IH"(2) [OF False Some tg [symmetric]]
      have ih: "(\<forall>m \<in> set (matchAllFrom re s ?next). ?next \<le> matchIndex m \<and> matchIndex m \<le> length s)"
        "sorted_wrt (<) (map matchIndex (matchAllFrom re s ?next))"
        by blast+
      have above: "\<forall>m \<in> set (matchAllFrom re s ?next). lastIndex < matchIndex m"
        using ih(1) lt by fastforce
      have "\<forall>m \<in> set (matchAllFrom re s ?next). lastIndex \<le> matchIndex m \<and> matchIndex m \<le> length s"
      proof
        fix m assume m: "m \<in> set (matchAllFrom re s ?next)"
        with above have "lastIndex < matchIndex m" by blast
        moreover from ih(1) m have "matchIndex m \<le> length s" by blast
        ultimately show "lastIndex \<le> matchIndex m \<and> matchIndex m \<le> length s" by simp
      qed
      moreover have "lastIndex \<le> length s" using False by simp
      ultimately show ?thesis
        unfolding eq using ih(2) above by simp
    qed
  qed
qed

lemma slice_inside:
  "0 \<le> a \<Longrightarrow> a \<le> b \<Longrightarrow> b \<le> int (length s) \<Longrightarrow>
   slice s a b = take (nat (b - a)) (drop (nat a) s)"
  by (auto simp: slice_def Let_def)

lemma take_slice:
  assumes "0 \<le> a" "a \<le> b" "b \<le> int (length s)"
  shows "take (nat a) s @ slice s a b = take (nat b) s"
proof -
  have "nat b = nat a + nat (b - a)" using assms by simp
  then show ?thesis
    using assms by (simp add: slice_inside take_add)
qed

lemma sliceFrom_inside:
  "0 \<le> a \<Longrightarrow> a \<le> int (length s) \<Longrightarrow> sliceFrom s a = drop (nat a) s"
  by (auto simp: sliceFrom_def slice_def Let_def)

lemma length_slice_inside:
  "0 \<le> a \<Longrightarrow> a \<le> b \<Longrightarrow> b \<le> int (length s) \<Longrightarrow> int (length (slice s a b)) = b - a"
  by (simp add: slice_inside)

lemma filesUpTo_add:
  assumes inv: "filesUpTo src index files"
    and b: "index \<le> b" "b \<le> int (length src)"
    and f: "offset f = index" "content f = slice src index b" "content f \<noteq> []"
  shows "filesUpTo src b (files @ [f])"
proof -
  have i: "0 \<le> index" "index \<le> int (length src)" using inv by (simp_all add: filesUpTo_def)
  have len: "int (length (content f)) = b - index"
    using f(2) length_slice_inside [OF i(1) b] by simp
  have c: "concat (map content (files @ [f])) = take (nat b) src"
    using inv f(2) take_slice [OF i(1) b] by (simp add: filesUpTo_def)
  have old: "\<forall>g \<in> set files. content g \<noteq> []
            \<and> content g = slice src (offset g) (offset g + int (length (content g)))
            \<and> offset g + int (length (content g)) \<le> index"
    using inv by (simp add: filesUpTo_def)
  have lt: "\<forall>g \<in> set files. offset g < offset f"
  proof
    fix g assume "g \<in> set files"
    with old have "content g \<noteq> []" "offset g + int (length (content g)) \<le> index" by auto
    then show "offset g < offset f" using f(1) by (cases "content g") auto
  qed
  have s: "sorted_wrt (<) (map offset (files @ [f]))"
    using inv lt by (simp add: filesUpTo_def sorted_wrt_append)
  have new: "content f = slice src (offset f) (offset f + int (length (content f)))"
    using f(1,2) len by simp
  have all: "\<forall>g \<in> set (files @ [f]). content g \<noteq> []
            \<and> content g = slice src (offset g) (offset g + int (length (content g)))
            \<and> offset g + int (length (content g)) \<le> b"
    using old new f(1,3) len b(1) by auto
  show ?thesis
    unfolding filesUpTo_def using i b c s all by simp
qed

lemma filesUpTo_skip:
  assumes inv: "filesUpTo src index files"
    and b: "index \<le> b" "b \<le> int (length src)"
    and e: "slice src index b = []"
  shows "filesUpTo src b files"
proof -
  have i: "0 \<le> index" using inv by (simp add: filesUpTo_def)
  have "int (length (slice src index b)) = b - index"
    by (rule length_slice_inside [OF i b])
  then have "b = index" using e by simp
  then show ?thesis using inv by simp
qed

lemma splitLoop_invariant:
  assumes "filesUpTo src index files"
    and "\<forall>m \<in> set ms. index \<le> int (matchIndex m) \<and> matchIndex m \<le> length src"
    and "sorted_wrt (<) (map matchIndex ms)"
    and "splitLoop src rootPath ms index cur files = (index', cur', files')"
  shows "filesUpTo src index' files'"
  using assms
proof (induction ms arbitrary: index cur files)
  case Nil
  then show ?case by simp
next
  case (Cons m ms)
  let ?off = "int (matchIndex m)"
  let ?text = "slice src index ?off"
  let ?f = "\<lparr>offset = index, filename = cur, filepath = rootPath @ cur, content = ?text,
             extension = getExtension cur\<rparr>"
  let ?files = "if ?text \<noteq> [] then files @ [?f] else files"
  have b: "index \<le> ?off" "?off \<le> int (length src)" using Cons.prems(2) by auto
  have inv: "filesUpTo src ?off ?files"
  proof (cases "?text = []")
    case True
    then show ?thesis using filesUpTo_skip [OF Cons.prems(1) b] by simp
  next
    case False
    then show ?thesis using filesUpTo_add [OF Cons.prems(1) b, of ?f] by simp
  qed
  have rest: "\<forall>m' \<in> set ms. ?off \<le> int (matchIndex m') \<and> matchIndex m' \<le> length src"
    using Cons.prems(2,3) by fastforce
  have srt: "sorted_wrt (<) (map matchIndex ms)" using Cons.prems(3) by simp
  have run: "splitLoop src rootPath ms ?off (trimEnd (matchGroups m)) ?files = (index', cur', files')"
    using Cons.prems(4) by (simp add: Let_def)
  show ?case by (rule Cons.IH [OF inv rest srt run])
qed

lemma filesUpTo_all:
  assumes "filesUpTo src (int (length src)) files"
  shows "(\<forall>f \<in> set files. content f \<noteq> []
            \<and> content f = slice src (offset f) (offset f + int (length (content f))))
       \<and> sorted_wrt (<) (map offset files)
       \<and> concat (map content files) = src"
  using assms by (simp add: filesUpTo_def)

text \<open>
  Claim C9. The files that \<open>splitFiles\<close> returns partition the code: the content of every
  file is not empty and is the slice of the code that starts at the file's offset, the
  offsets are strictly increasing, and the contents in order concatenate to the code.
\<close>

theorem splitFiles_partition:
  "(\<forall>f \<in> set (splitFiles src defaultFileName rootPath). content f \<noteq> []
       \<and> content f = slice src (offset f) (offset f + int (length (content f))))
   \<and> sorted_wrt (<) (map offset (splitFiles src defaultFileName rootPath))
   \<and> concat (map content (splitFiles src defaultFileName rootPath)) = src"
proof -
  let ?ms = "matchAll reFilenamesMakers src"
  let ?cur = "if defaultFileName \<in> set (map (\<lambda>m. trimEnd (matchGroups m)) ?ms)
              then ''__index__.ts'' else defaultFileName"
  obtain index cur files where run: "splitLoop src rootPath ?ms 0 ?cur [] = (index, cur, files)"
    by (cases "splitLoop src rootPath ?ms 0 ?cur []") auto
  have init: "filesUpTo src 0 []" by (simp add: filesUpTo_def)
  have ms: "\<forall>m \<in> set ?ms. 0 \<le> int (matchIndex m) \<and> matchIndex m \<le> length src"
    "sorted_wrt (<) (map matchIndex ?ms)"
    using matchAllFrom_indices [of reFilenamesMakers src 0] by (simp_all add: matchAll_def)
  have inv: "filesUpTo src index files"
    by (rule splitLoop_invariant [OF init ms run])
  then have i: "0 \<le> index" "index \<le> int (length src)" by (simp_all add: filesUpTo_def)
  let ?last = "\<lparr>offset = index, filename = cur, filepath = rootPath @ cur,
                content = sliceFrom src index, extension = getExtension cur\<rparr>"
  have res: "splitFiles src defaultFileName rootPath =
      (if index < int (length src) then files @ [?last] else files)"
    using run by (simp add: splitFiles_def Let_def)
  have "filesUpTo src (int (length src)) (splitFiles src defaultFileName rootPath)"
  proof (cases "index < int (length src)")
    case True
    have sl: "sliceFrom src index = slice src index (int (length src))"
      by (simp add: sliceFrom_def)
    have "int (length (slice src index (int (length src)))) = int (length src) - index"
      using i by (intro length_slice_inside) simp_all
    then have ne: "sliceFrom src index \<noteq> []" using True sl by auto
    have "filesUpTo src (int (length src)) (files @ [?last])"
      by (rule filesUpTo_add [OF inv]) (use i sl ne in simp_all)
    then show ?thesis using True res by simp
  next
    case False
    then have "index = int (length src)" using i by simp
    then show ?thesis using False res inv by simp
  qed
  then show ?thesis by (rule filesUpTo_all)
qed

text \<open>The theorem on a code with one filename directive.\<close>

theorem splitFiles_partition_witness:
  "map offset (splitFiles ''a\<newline>// @filename: b.ts\<newline>b'' ''index.ts'' ''/'') = [0, 2]
   \<and> map filename (splitFiles ''a\<newline>// @filename: b.ts\<newline>b'' ''index.ts'' ''/'') = [''index.ts'', ''b.ts'']
   \<and> concat (map content (splitFiles ''a\<newline>// @filename: b.ts\<newline>b'' ''index.ts'' ''/''))
        = ''a\<newline>// @filename: b.ts\<newline>b''
   \<and> sorted_wrt (<) (map offset (splitFiles ''a\<newline>// @filename: b.ts\<newline>b'' ''index.ts'' ''/''))"
proof -
  have o: "map offset (splitFiles ''a\<newline>// @filename: b.ts\<newline>b'' ''index.ts'' ''/'') = [0, 2]"
    by code_simp
  have n: "map filename (splitFiles ''a\<newline>// @filename: b.ts\<newline>b'' ''index.ts'' ''/'') = [''index.ts'', ''b.ts'']"
    by code_simp
  show ?thesis
    using splitFiles_partition [of "''a\<newline>// @filename: b.ts\<newline>b''" "''index.ts''" "''/''"] o n
    by simp
qed

section \<open>Properties of the directive scanner\<close>

lemma cutPairs_result:
  "length cutStart = length cutEnd \<Longrightarrow>
   (if \<exists>i < length cutStart. matchIndex (cutStart ! i) > matchIndex (cutEnd ! i)
    then \<exists>a b. cutPairs cutStart cutEnd acc = Inl (MismatchedCutOrder a b)
    else \<exists>rs. cutPairs cutStart cutEnd acc = Inr rs)"
proof (induction cutStart cutEnd arbitrary: acc rule: list_induct2)
  case Nil
  then show ?case by simp
next
  case (Cons s ss e es)
  have ex: "(\<exists>i < length (s # ss). matchIndex ((s # ss) ! i) > matchIndex ((e # es) ! i))
      = (matchIndex s > matchIndex e \<or> (\<exists>i < length ss. matchIndex (ss ! i) > matchIndex (es ! i)))"
    by (auto simp: less_Suc_eq_0_disj)
  show ?case
  proof (cases "matchIndex s > matchIndex e")
    case True
    then show ?thesis unfolding ex by simp
  next
    case False
    let ?acc = "acc @ [(int (matchIndex s), int (matchIndex e + length (matchText e) + 1))]"
    have step: "cutPairs (s # ss) (e # es) acc = cutPairs ss es ?acc"
      using False by (simp only: cutPairs.simps if_False)
    show ?thesis
      unfolding ex step using Cons.IH [of ?acc] False by (simp only: False_implies_equals simp_thms)
  qed
qed

text \<open>
  Claim C6. \<open>findCutNotations\<close> throws the error titled \<open>Mismatched cut markers\<close> exactly
  when the numbers of cut-start and cut-end matches differ or some cut-start lies after
  the cut-end of the same rank, whatever else the code holds; otherwise it returns.
\<close>

theorem findCutNotations_mismatch:
  "(\<exists>e. findCutNotations res src = Inl e \<and> title e = ''Mismatched cut markers'')
     = (length (matchAll (reCutStart res) src) \<noteq> length (matchAll (reCutEnd res) src)
        \<or> (\<exists>i < length (matchAll (reCutStart res) src).
              matchIndex (matchAll (reCutStart res) src ! i) > matchIndex (matchAll (reCutEnd res) src ! i)))
   \<and> (\<exists>rs. findCutNotations res src = Inr rs)
     = (length (matchAll (reCutStart res) src) = length (matchAll (reCutEnd res) src)
        \<and> \<not> (\<exists>i < length (matchAll (reCutStart res) src).
              matchIndex (matchAll (reCutStart res) src ! i) > matchIndex (matchAll (reCutEnd res) src ! i)))"
proof (cases "length (matchAll (reCutStart res) src) = length (matchAll (reCutEnd res) src)")
  case False
  then have "findCutNotations res src =
      Inl (MismatchedCutCount (length (matchAll (reCutStart res) src)) (length (matchAll (reCutEnd res) src)))"
    by (simp add: findCutNotations_def Let_def)
  then show ?thesis using False by simp
next
  case True
  let ?cutStart = "matchAll (reCutStart res) src" and ?cutEnd = "matchAll (reCutEnd res) src"
  obtain acc where run: "findCutNotations res src = cutPairs ?cutStart ?cutEnd acc"
    using True by (simp add: findCutNotations_def Let_def)
  show ?thesis
  proof (cases "\<exists>i < length ?cutStart. matchIndex (?cutStart ! i) > matchIndex (?cutEnd ! i)")
    case inverted: True
    with cutPairs_result [OF True, of acc]
    obtain a b where "cutPairs ?cutStart ?cutEnd acc = Inl (MismatchedCutOrder a b)" by auto
    then show ?thesis using run inverted True by simp
  next
    case ordered: False
    with cutPairs_result [OF True, of acc]
    obtain rs where "cutPairs ?cutStart ?cutEnd acc = Inr rs" by auto
    then show ?thesis using run ordered True by simp
  qed
qed

text \<open>The theorem on an inverted pair; a matching pair and a lone cut-start beside it.\<close>

theorem findCutNotations_mismatch_witness:
  "(\<exists>e. findCutNotations exampleCutImports ''a// ---cut-end---b// ---cut-start---c'' = Inl e
        \<and> title e = ''Mismatched cut markers'')
   \<and> findCutNotations exampleCutImports ''a// ---cut-end---b// ---cut-start---c''
        = Inl (MismatchedCutOrder 18 1)
   \<and> findCutNotations exampleCutImports ''a// ---cut-start---b// ---cut-end---c'' = Inr [(1, 37)]
   \<and> findCutNotations exampleCutImports ''a// ---cut-start---b'' = Inl (MismatchedCutCount 1 0)"
proof -
  have s: "matchAll (reCutStart exampleCutImports) ''a// ---cut-end---b// ---cut-start---c''
      = [\<lparr>matchIndex = 18, matchText = ''// ---cut-start---'', matchGroups = ()\<rparr>]"
    by code_simp
  have e: "matchAll (reCutEnd exampleCutImports) ''a// ---cut-end---b// ---cut-start---c''
      = [\<lparr>matchIndex = 1, matchText = ''// ---cut-end---'', matchGroups = ()\<rparr>]"
    by code_simp
  have 1: "findCutNotations exampleCutImports ''a// ---cut-end---b// ---cut-start---c''
        = Inl (MismatchedCutOrder 18 1)"
    by code_simp
  have 2: "findCutNotations exampleCutImports ''a// ---cut-start---b// ---cut-end---c'' = Inr [(1, 37)]"
    by code_simp
  have 3: "findCutNotations exampleCutImports ''a// ---cut-start---b'' = Inl (MismatchedCutCount 1 0)"
    by code_simp
  show ?thesis
    using findCutNotations_mismatch [of exampleCutImports "''a// ---cut-end---b// ---cut-start---c''"]
      1 2 3
    unfolding s e by simp
qed

text \<open>
  Claim C5, amended. For a text value \<open>parsePrimitive\<close> never throws when the declared
  type is \<open>number\<close>, \<open>string\<close> or \<open>boolean\<close>: a number option gets \<open>ToNumber\<close> of the text
  (\<open>NaN\<close> when it is not numeric), a boolean option gets true exactly for \<open>true\<close> in any
  case or the empty text and false otherwise. It throws, naming the type and the value,
  exactly when the declared type is none of the three. \<open>getOptionValueFromMap\<close> throws
  exactly when the lower-cased value is not a key of the map, and the error names the
  value and the option.
\<close>

theorem parsePrimitive_coercion:
  "parsePrimitive ToNumber (JString s) ''number'' = Inr (JNumber (ToNumber (JString s)))
   \<and> parsePrimitive ToNumber (JString s) ''boolean'' = Inr (JBoolean (toLowerCase s = ''true'' \<or> s = []))
   \<and> parsePrimitive ToNumber (JString s) ''string'' = Inr (JString s)
   \<and> (\<exists>e. parsePrimitive ToNumber (JString s) t = Inl e) = (t \<notin> {''number'', ''string'', ''boolean''})
   \<and> (t \<notin> {''number'', ''string'', ''boolean''} \<longrightarrow>
        parsePrimitive ToNumber (JString s) t = Inl (UnknownPrimitive t (JString s)))
   \<and> (\<exists>e. getOptionValueFromMap name (JString s) optMap = Inl e)
        = (getProperty optMap (toLowerCase s) = JUndefined)
   \<and> (getProperty optMap (toLowerCase s) = JUndefined \<longrightarrow>
        getOptionValueFromMap name (JString s) optMap
          = Inl (InvalidCompilerValue (JString s) name (map fst optMap)))
   \<and> (getProperty optMap (toLowerCase s) \<noteq> JUndefined \<longrightarrow>
        getOptionValueFromMap name (JString s) optMap = Inr (getProperty optMap (toLowerCase s)))"
  by (auto simp: parsePrimitive_def getOptionValueFromMap_def Let_def)

text \<open>The theorem at an unknown type and at a map with one key.\<close>

theorem parsePrimitive_coercion_witness:
  "parsePrimitive (\<lambda>v. NaN) (JString ''x'') ''list'' = Inl (UnknownPrimitive ''list'' (JString ''x''))
   \<and> getOptionValueFromMap ''target'' (JString ''ES9'') [(''es5'', JNumber (Finite 1))]
        = Inl (InvalidCompilerValue (JString ''ES9'') ''target'' [''es5''])
   \<and> getOptionValueFromMap ''target'' (JString ''ES5'') [(''es5'', JNumber (Finite 1))]
        = Inr (JNumber (Finite 1))"
proof -
  have 1: "''list'' \<notin> {''number'', ''string'', ''boolean''}" by simp
  have 2: "getProperty [(''es5'', JNumber (Finite 1))] (toLowerCase ''ES9'') = JUndefined"
    by code_simp
  have 3: "getProperty [(''es5'', JNumber (Finite 1))] (toLowerCase ''ES5'') = JNumber (Finite 1)"
    by code_simp
  show ?thesis
    using parsePrimitive_coercion [of "\<lambda>v. NaN" "''x''" "''list''" "''target''" "[(''es5'', JNumber (Finite 1))]"]
      parsePrimitive_coercion [of "\<lambda>v. NaN" "''ES9''" "''list''" "''target''" "[(''es5'', JNumber (Finite 1))]"]
      parsePrimitive_coercion [of "\<lambda>v. NaN" "''ES5''" "''list''" "''target''" "[(''es5'', JNumber (Finite 1))]"]
      1 2 3
    by simp
qed

text \<open>
  Claim C5 as stated fails: a boolean option given \<open>maybe\<close> becomes false, and a number
  option given \<open>abc\<close> becomes \<open>NaN\<close>, both without an error.
\<close>

theorem parsePrimitive_counterexample:
  "parsePrimitive (\<lambda>v. NaN) (JString ''maybe'') ''boolean'' = Inr (JBoolean False)
   \<and> parsePrimitive (\<lambda>v. NaN) (JString ''abc'') ''number'' = Inr (JNumber NaN)"
  by code_simp

section \<open>Properties of the resolved nodes\<close>








section \<open>Properties of the run\<close>

lemma applyFlags_removals_aux:
  "removals (fst (applyFlags flags meta nodes))
     = removals meta @ map (\<lambda>flag. (flagStart flag, flagEnd flag))
                         (filter (\<lambda>flag. flagType flag \<noteq> FlagUnknown) flags)
   \<and> flagNotations (fst (applyFlags flags meta nodes)) = flagNotations meta"
proof (induction flags arbitrary: meta nodes)
  case Nil
  then show ?case by simp
next
  case (Cons flag rest)
  show ?case
    by (cases "flagType flag") (simp_all add: Cons.IH)
qed

lemma initialMeta_removals:
  "initialMeta imports createOptions options ext = Inr meta0 \<Longrightarrow> removals meta0 = []"
  by (auto simp: initialMeta_def andThen_def split: sum.splits)

lemma scanFlags_removals:
  assumes "scanFlags imports createOptions options src ext = Inr (meta1, nodes1)"
  shows "removals meta1 = map (\<lambda>flag. (flagStart flag, flagEnd flag))
                            (filter (\<lambda>flag. flagType flag \<noteq> FlagUnknown) (flagNotations meta1))"
proof -
  from assms obtain meta0 flags where
    m0: "initialMeta imports createOptions options ext = Inr meta0"
    and "applyFlags flags (meta0\<lparr>flagNotations := flags\<rparr>) [] = (meta1, nodes1)"
    by (auto simp: scanFlags_def andThen_def Let_def split: sum.splits prod.splits)
  then have m1: "meta1 = fst (applyFlags flags (meta0\<lparr>flagNotations := flags\<rparr>) [])"
    by simp
  have "removals (meta0\<lparr>flagNotations := flags\<rparr>) = []"
    using initialMeta_removals [OF m0] by simp
  moreover have "flagNotations (meta0\<lparr>flagNotations := flags\<rparr>) = flags" by simp
  ultimately show ?thesis
    unfolding m1 using applyFlags_removals_aux [of flags "meta0\<lparr>flagNotations := flags\<rparr>" "[]"]
    by simp
qed

text \<open>
  Removing well-formed ranges from a text deletes the characters at the offsets that the
  ranges cover, and every range that a returning run collects is well-formed.
\<close>

lemma nths_cong_length:
  "(\<And>i. i < length xs \<Longrightarrow> (i \<in> A) = (i \<in> B)) \<Longrightarrow> nths xs A = nths xs B"
proof (induction xs arbitrary: A B)
  case Nil
  then show ?case by simp
next
  case (Cons x xs)
  have "(0 \<in> A) = (0 \<in> B)" using Cons.prems [of 0] by simp
  moreover have "nths xs {j. Suc j \<in> A} = nths xs {j. Suc j \<in> B}"
    by (rule Cons.IH) (use Cons.prems in auto)
  ultimately show ?case by (simp add: nths_Cons)
qed

lemma slice_from_zero: "0 \<le> b \<Longrightarrow> slice s 0 b = take (nat b) s"
  by (auto simp: slice_def Let_def min_def)

lemma sliceFrom_drop: "0 \<le> a \<Longrightarrow> sliceFrom s a = drop (nat a) s"
  by (auto simp: sliceFrom_def slice_def Let_def min_def)

lemma specSplice_take_drop:
  "0 \<le> fst m \<Longrightarrow> fst m \<le> snd m \<Longrightarrow> specSplice t m = take (nat (fst m)) t @ drop (nat (snd m)) t"
  by (simp add: specSplice_def slice_from_zero sliceFrom_drop)

lemma specSplice_keep:
  assumes m: "0 \<le> fst m" "fst m \<le> snd m"
    and above: "\<forall>a \<in> A. snd m < a"
  shows "specSplice (nths src {i. int i \<notin> A}) m = nths src {i. int i \<notin> cover m \<union> A}"
proof -
  let ?k = "nat (fst m)" and ?n = "nat (snd m)"
  let ?t = "nths src {i. int i \<notin> A}"
  have kn: "?k \<le> ?n" using m by simp
  have low: "int i \<notin> A" if "i < ?n" for i
    using that above m by fastforce
  show ?thesis
  proof (cases "?n \<le> length src")
    case True
    have len: "length (take ?n src) = ?n" using True by simp
    have "?t = nths (take ?n src @ drop ?n src) {i. int i \<notin> A}" by simp
    also have "\<dots> = nths (take ?n src) {i. int i \<notin> A} @ nths (drop ?n src) {j. int (j + ?n) \<notin> A}"
      by (simp only: nths_append len mem_Collect_eq)
    also have "nths (take ?n src) {i. int i \<notin> A} = take ?n src"
      by (rule nths_all) (use low in simp)
    finally have t: "?t = take ?n src @ nths (drop ?n src) {j. int (j + ?n) \<notin> A}" .
    have left: "specSplice ?t m = take ?k src @ nths (drop ?n src) {j. int (j + ?n) \<notin> A}"
      using kn len by (simp add: specSplice_take_drop [OF m] t min_def)
    have "nths src {i. int i \<notin> cover m \<union> A}
        = nths (take ?n src @ drop ?n src) {i. int i \<notin> cover m \<union> A}" by simp
    also have "\<dots> = nths (take ?n src) {i. int i \<notin> cover m \<union> A}
        @ nths (drop ?n src) {j. int (j + ?n) \<notin> cover m \<union> A}"
      by (simp only: nths_append len mem_Collect_eq)
    also have "nths (take ?n src) {i. int i \<notin> cover m \<union> A} = nths (take ?n src) {..<?k}"
      by (rule nths_cong_length) (use low m in \<open>auto simp: cover_def\<close>)
    also have "nths (take ?n src) {..<?k} = take ?k src"
      using kn by (simp add: min_def)
    also have "{j. int (j + ?n) \<notin> cover m \<union> A} = {j. int (j + ?n) \<notin> A}"
      using m by (auto simp: cover_def)
    finally show ?thesis using left by simp
  next
    case False
    then have all: "take ?n src = src" "drop ?n src = []" by simp_all
    have t: "?t = src"
      by (rule nths_all) (use low False in simp)
    have left: "specSplice ?t m = take ?k src"
      using all by (simp add: specSplice_take_drop [OF m] t)
    have "nths src {i. int i \<notin> cover m \<union> A} = nths src {..<?k}"
      by (rule nths_cong_length) (use low m False in \<open>auto simp: cover_def\<close>)
    then show ?thesis using left by simp
  qed
qed

lemma covered_above:
  assumes "disjointRanges (m # ms)" "\<forall>r \<in> set ms. fst r \<le> snd r"
  shows "\<forall>a \<in> covered ms. snd m < a"
  using assms by (fastforce simp: disjointRanges_def covered_def cover_def)

lemma foldl_specSplice_keep:
  assumes "disjointRanges ms" "\<forall>r \<in> set ms. 0 \<le> fst r \<and> fst r \<le> snd r"
  shows "foldl specSplice src (rev ms) = nths src {i. int i \<notin> covered ms}"
  using assms
proof (induction ms)
  case Nil
  then show ?case by (simp add: covered_def nths_all)
next
  case (Cons m ms)
  have ih: "foldl specSplice src (rev ms) = nths src {i. int i \<notin> covered ms}"
    using Cons by (simp add: disjointRanges_def)
  have above: "\<forall>a \<in> covered ms. snd m < a"
    by (rule covered_above [OF Cons.prems(1)]) (use Cons.prems(2) in simp)
  have "foldl specSplice src (rev (m # ms)) = specSplice (nths src {i. int i \<notin> covered ms}) m"
    by (simp add: ih)
  also have "\<dots> = nths src {i. int i \<notin> cover m \<union> covered ms}"
    by (rule specSplice_keep) (use Cons.prems(2) above in simp_all)
  finally show ?case by (simp add: covered_Cons)
qed

lemma descending_rev:
  assumes "sorted_wrt (<) (map fst (ms :: Range list))"
  shows "js_sort (\<lambda>a b. fst b - fst a) ms = rev ms"
proof -
  have d: "distinct (map fst ms)" using assms strict_sorted_iff by blast
  have inj: "inj_on (\<lambda>r. - fst r) (set ms)"
    using d by (auto simp: inj_on_def distinct_map)
  have "sorted_wrt (\<lambda>a b. fst a \<le> fst b) ms"
    using assms by (simp add: sorted_wrt_map) (erule sorted_wrt_mono_rel [rotated], simp)
  then have s: "sorted (map (\<lambda>r. - fst r) (rev ms))"
    by (simp add: sorted_wrt_map rev_map [symmetric] sorted_wrt_rev)
  show ?thesis
    unfolding js_sort_descending
    by (rule sort_key_inj_key_eq) (use inj s in simp_all)
qed

lemma removeLoop_text: "fst (removeLoop src nodes ranges) = foldl specSplice src ranges"
  by (induction ranges arbitrary: src nodes) (simp_all add: specSplice_def)

lemma mergeRanges_props:
  assumes "\<forall>r \<in> set ranges. fst r \<le> snd r"
  shows "(\<forall>r \<in> set (mergeRanges ranges). fst r \<le> snd r)
       \<and> disjointRanges (mergeRanges ranges)
       \<and> covered (mergeRanges ranges) = covered ranges
       \<and> sorted_wrt (<) (map fst (mergeRanges ranges))
       \<and> (\<forall>r \<in> set (mergeRanges ranges). \<exists>q \<in> set ranges. fst q = fst r \<and> snd q \<le> snd r)"
proof -
  let ?sorted = "sort_key fst ranges"
  have m: "mergeRanges ranges = mergeLoop [] ?sorted"
    by (simp add: mergeRanges_def js_sort_ascending)
  have wf: "\<forall>r \<in> set ?sorted. fst r \<le> snd r"
    using assms by simp
  have inv: "(\<forall>r \<in> set (mergeLoop [] ?sorted). fst r \<le> snd r)
       \<and> disjointRanges (mergeLoop [] ?sorted)
       \<and> covered (mergeLoop [] ?sorted) = covered [] \<union> covered ?sorted"
    by (rule mergeLoop_invariant) (use wf in \<open>simp_all add: disjointRanges_def\<close>)
  have cov: "covered (mergeRanges ranges) = covered ranges"
    using inv m covered_set [of ?sorted ranges] by (simp add: covered_Nil)
  have srt: "sorted_wrt (<) (map fst (mergeRanges ranges))"
    using inv m disjointRanges_sorted by simp
  have orig: "\<forall>r \<in> set (mergeRanges ranges). \<exists>q \<in> set ranges. fst q = fst r \<and> snd q \<le> snd r"
    using mergeLoop_origin [of "[]" ?sorted] m by simp
  show ?thesis using inv m cov srt orig by simp
qed

lemma removeCodeRanges_text:
  assumes "\<forall>r \<in> set rs. 0 \<le> fst r \<and> fst r \<le> snd r"
  shows "fst (removeCodeRanges src rs nodes) = nths src {i. int i \<notin> covered rs}"
    and "covered (fst (snd (removeCodeRanges src rs nodes))) = covered rs"
proof -
  have wf: "\<forall>r \<in> set rs. fst r \<le> snd r" using assms by simp
  note p = mergeRanges_props [OF wf]
  have desc: "js_sort (\<lambda>a b. fst b - fst a) (mergeRanges rs) = rev (mergeRanges rs)"
    by (rule descending_rev) (use p in simp)
  have pos: "\<forall>r \<in> set (mergeRanges rs). 0 \<le> fst r \<and> fst r \<le> snd r"
  proof
    fix r assume r: "r \<in> set (mergeRanges rs)"
    with p obtain q where "q \<in> set rs" "fst q = fst r" by blast
    with assms r p show "0 \<le> fst r \<and> fst r \<le> snd r" by fastforce
  qed
  have "fst (removeCodeRanges src rs nodes) = foldl specSplice src (rev (mergeRanges rs))"
    using removeLoop_text [of src nodes "rev (mergeRanges rs)"]
    by (simp add: removeCodeRanges_def desc Let_def case_prod_beta)
  also have "\<dots> = nths src {i. int i \<notin> covered (mergeRanges rs)}"
    by (rule foldl_specSplice_keep) (use p pos in simp_all)
  finally show "fst (removeCodeRanges src rs nodes) = nths src {i. int i \<notin> covered rs}"
    using p by simp
  have "fst (snd (removeCodeRanges src rs nodes)) = rev (mergeRanges rs)"
    by (simp add: removeCodeRanges_def desc Let_def case_prod_beta)
  then show "covered (fst (snd (removeCodeRanges src rs nodes))) = covered rs"
    using p covered_set [of "rev (mergeRanges rs)" "mergeRanges rs"] by simp
qed

lemma mapThrowing_Inr:
  "mapThrowing f xs = Inr ys \<Longrightarrow> \<forall>y \<in> set ys. \<exists>x \<in> set xs. f x = Inr y"
proof (induction xs arbitrary: ys)
  case Nil
  then show ?case by simp
next
  case (Cons x xs)
  then show ?case by (auto split: sum.splits)
qed

lemma parseFlag_span:
  "parseFlag tn dh name v s e tags decls = Inr p \<Longrightarrow> flagStart p = s \<and> flagEnd p = e"
  by (auto simp: parseFlag_def andThen_def split: if_splits option.splits sum.splits)

lemma findFlagNotations_spans:
  assumes "findFlagNotations res tn dh src tags decls = Inr flags"
  shows "\<forall>f \<in> set flags. 0 \<le> flagStart f \<and> flagStart f \<le> flagEnd f"
proof -
  from assms obtain booleans valued where
    b: "mapThrowing
          (\<lambda>m. let index = int (matchIndex m) in
                parseFlag tn dh (matchGroups m) (JBoolean True) index
                  (index + int (length (matchText m)) + 1) tags decls)
          (matchAll (reConfigBoolean res) src) = Inr booleans"
    and v: "mapThrowing
               (\<lambda>m. let index = int (matchIndex m) in
                     parseFlag tn dh (fst (matchGroups m))
                       (JString (snd (matchGroups m))) index
                       (index + int (length (matchText m)) + 1) tags decls)
               (filter (\<lambda>m. fst (matchGroups m) \<noteq> ''filename'') (matchAll (reConfigValue res) src))
             = Inr valued"
    and f: "flags = booleans @ valued"
    by (auto simp: findFlagNotations_def andThen_def split: sum.splits)
  have "0 \<le> flagStart p \<and> flagStart p \<le> flagEnd p" if "p \<in> set booleans" for p
    using mapThrowing_Inr [OF b] that by (auto simp: Let_def dest!: parseFlag_span)
  moreover have "0 \<le> flagStart p \<and> flagStart p \<le> flagEnd p" if "p \<in> set valued" for p
    using mapThrowing_Inr [OF v] that by (auto simp: Let_def dest!: parseFlag_span)
  ultimately show ?thesis using f by auto
qed

lemma scanFlags_spans:
  assumes "scanFlags imports createOptions options src ext = Inr (meta1, nodes1)"
  shows "\<forall>f \<in> set (flagNotations meta1). 0 \<le> flagStart f \<and> flagStart f \<le> flagEnd f"
proof -
  from assms obtain meta0 flags tags where
    f: "findFlagNotations imports (toNumber imports) (defaultHandbookOptions imports) src
          tags (optionDeclarations createOptions) = Inr flags"
    and a: "applyFlags flags (meta0\<lparr>flagNotations := flags\<rparr>) [] = (meta1, nodes1)"
    by (auto simp: scanFlags_def andThen_def Let_def split: sum.splits prod.splits)
  have "flagNotations meta1 = flags"
    using applyFlags_removals_aux [of flags "meta0\<lparr>flagNotations := flags\<rparr>" "[]"] a by simp
  then show ?thesis using findFlagNotations_spans [OF f] by simp
qed

lemma cutPairs_wellFormed:
  "cutPairs cutStart cutEnd acc = Inr rs \<Longrightarrow> \<forall>r \<in> set acc. wellFormed r
     \<Longrightarrow> \<forall>r \<in> set rs. wellFormed r"
proof (induction cutStart cutEnd acc rule: cutPairs.induct)
  case (1 cutEnd removals)
  then show ?case by simp
next
  case (2 s cutStart removals)
  then show ?case by simp
next
  case (3 s cutStart e cutEnd removals)
  show ?case
  proof (cases "matchIndex s > matchIndex e")
    case True
    then show ?thesis using 3(2) by simp
  next
    case False
    have "wellFormed (int (matchIndex s), int (matchIndex e + length (matchText e) + 1))"
      using False by (simp add: wellFormed_def)
    then show ?thesis
      using 3(1) [OF False] 3(2,3) False by simp
  qed
qed

lemma findCutNotations_wellFormed:
  assumes "findCutNotations res src = Inr cuts"
  shows "\<forall>r \<in> set cuts. wellFormed r"
proof -
  let ?after = "matchAll (reCutAfter res) src"
  let ?before = "matchAll (reCutBefore res) src"
  let ?r1 = "if ?before \<noteq> []
            then [(0, int (matchIndex (last ?before) + length (matchText (last ?before)) + 1))]
            else []"
  let ?r2 = "if ?after \<noteq> []
            then ?r1 @ [(int (matchIndex (hd ?after)), int (length src))]
            else ?r1"
  have c: "cutPairs (matchAll (reCutStart res) src) (matchAll (reCutEnd res) src) ?r2 = Inr cuts"
    using assms by (simp add: findCutNotations_def Let_def split: if_splits)
  have "matchIndex (hd ?after) \<le> length src" if "?after \<noteq> []"
    using matchAllFrom_indices [of "reCutAfter res" src 0] that
    by (simp add: matchAll_def)
  then have "\<forall>r \<in> set ?r2. wellFormed r"
    by (auto simp: wellFormed_def)
  then show ?thesis by (rule cutPairs_wellFormed [OF c])
qed

lemma markQuery_removals:
  assumes "markQuery lineAbove m meta = Inr meta'"
  shows "removals meta' = removals meta
           @ [(int (matchIndex m), int (matchIndex m) + int (length (matchText m)) + 1)]
       \<and> flagNotations meta' = flagNotations meta
       \<and> handbookOptions meta' = handbookOptions meta"
  using assms by (auto simp: markQuery_def Let_def andThen_def split: sum.splits if_splits)

lemma markQueries_removals:
  assumes "markQueries lineAbove ms meta = Inr meta'"
  shows "removals meta' = removals meta
           @ map (\<lambda>m. (int (matchIndex m), int (matchIndex m) + int (length (matchText m)) + 1)) ms
       \<and> flagNotations meta' = flagNotations meta
       \<and> handbookOptions meta' = handbookOptions meta"
  using assms
proof (induction ms arbitrary: meta)
  case Nil
  then show ?case by simp
next
  case (Cons m ms)
  from Cons.prems obtain meta1 where
    1: "markQuery lineAbove m meta = Inr meta1" and 2: "markQueries lineAbove ms meta1 = Inr meta'"
    by (auto simp: andThen_def split: sum.splits)
  show ?case
    using markQuery_removals [OF 1] Cons.IH [OF 2] by simp
qed

lemma findQueryMarkers_removals:
  assumes "findQueryMarkers res src meta lineAbove = Inr meta'"
  shows "removals meta' = removals meta @ specMarkerRanges res src
       \<and> flagNotations meta' = flagNotations meta
       \<and> handbookOptions meta' = handbookOptions meta"
proof (cases "includesText src ''//''")
  case True
  then show ?thesis
    using assms markQueries_removals [of lineAbove "matchAll (reAnnonateMarkers res) src" meta meta']
    by (simp add: findQueryMarkers_def specMarkerRanges_def)
next
  case False
  then have "meta' = meta" using assms by (simp add: findQueryMarkers_def)
  then show ?thesis using False by (simp add: specMarkerRanges_def)
qed

lemma specMarkerRanges_wellFormed: "\<forall>r \<in> set (specMarkerRanges res src). wellFormed r"
  by (auto simp: specMarkerRanges_def wellFormed_def)

lemma finish_erases:
  assumes "\<not> truthy (getProperty (handbookOptions meta) ''keepNotations'')"
    and "\<forall>r \<in> set (removals meta). wellFormed r"
  shows "returnCode (finish src pc code meta nodes) = nths code {i. int i \<notin> covered (removals meta)}"
    and "covered (removals (returnMeta (finish src pc code meta nodes))) = covered (removals meta)"
proof -
  have wf: "\<forall>r \<in> set (removals meta). 0 \<le> fst r \<and> fst r \<le> snd r"
    using assms(2) by (simp add: wellFormed_def)
  obtain c r n where rc: "removeCodeRanges code (removals meta) (Some nodes) = (c, r, n)"
    by (cases "removeCodeRanges code (removals meta) (Some nodes)") auto
  have c: "c = nths code {i. int i \<notin> covered (removals meta)}"
    using removeCodeRanges_text(1) [OF wf, of code "Some nodes"] rc by simp
  have r: "covered r = covered (removals meta)"
    using removeCodeRanges_text(2) [OF wf, of code "Some nodes"] rc by simp
  show "returnCode (finish src pc code meta nodes) = nths code {i. int i \<notin> covered (removals meta)}"
    using assms(1) rc c by (simp add: finish_def Let_def)
  show "covered (removals (returnMeta (finish src pc code meta nodes))) = covered (removals meta)"
    using assms(1) rc r by (simp add: finish_def Let_def)
qed

lemma finish_meta:
  "handbookOptions (returnMeta (finish src pc code meta nodes)) = handbookOptions meta
   \<and> flagNotations (returnMeta (finish src pc code meta nodes)) = flagNotations meta"
  by (simp add: finish_def Let_def split: prod.splits)

lemma runOnEnv_returns:
  assumes "runOnEnv bk imports createOptions options src meta1 nodes0 env = (Inr ret, env')"
  shows "\<exists>cuts meta2 meta code nodes.
      findCutNotations imports src = Inr cuts
      \<and> findQueryMarkers imports src (meta1\<lparr>removals := removals meta1 @ cuts\<rparr>)
            (getIndexOfLineAbove (createPositionConverter src)) = Inr meta2
      \<and> handbookOptions meta = handbookOptions meta2
      \<and> flagNotations meta = flagNotations meta2
      \<and> ret = finish src (createPositionConverter src) code meta nodes
      \<and> (\<not> truthy (getProperty (handbookOptions meta2) ''showEmit'')
            \<longrightarrow> code = src \<and> removals meta = removals meta2)"
proof -
  from assms obtain cuts where c: "findCutNotations imports src = Inr cuts"
    by (cases "findCutNotations imports src") (auto simp: runOnEnv_def Let_def)
  from assms c obtain meta2 where m: "findQueryMarkers imports src (meta1\<lparr>removals := removals meta1 @ cuts\<rparr>)
            (getIndexOfLineAbove (createPositionConverter src)) = Inr meta2"
    by (cases "findQueryMarkers imports src (meta1\<lparr>removals := removals meta1 @ cuts\<rparr>)
            (getIndexOfLineAbove (createPositionConverter src))") (auto simp: runOnEnv_def Let_def)
  let ?meta = "meta2\<lparr>virtualFiles := splitFiles src (''index.'' @ metaExtension meta1) (fsRootOf createOptions)\<rparr>"
  show ?thesis
  proof (cases "truthy (getProperty (handbookOptions meta2) ''showEmit'')")
    case True
    have "\<exists>emitted. ret = finish src (createPositionConverter src) (fst emitted)
                 (?meta\<lparr>metaExtension := snd emitted, removals := []\<rparr>) []"
      using assms True unfolding runOnEnv_def Let_def c m sum.case
      by (auto simp: thenStep_def split: sum.splits prod.splits option.splits if_splits)
    then obtain emitted where "ret = finish src (createPositionConverter src) (fst emitted)
                 (?meta\<lparr>metaExtension := snd emitted, removals := []\<rparr>) []" by blast
    then show ?thesis using c m True
      by (intro exI [of _ cuts] exI [of _ meta2]
          exI [of _ "?meta\<lparr>metaExtension := snd emitted, removals := []\<rparr>"]
          exI [of _ "fst emitted"] exI [of _ "[]"]) simp
  next
    case False
    have "\<exists>nodes. ret = finish src (createPositionConverter src) src ?meta nodes"
      using assms False unfolding runOnEnv_def Let_def c m sum.case
      by (auto simp: thenStep_def split: sum.splits prod.splits option.splits if_splits)
    then obtain nodes where "ret = finish src (createPositionConverter src) src ?meta nodes" by blast
    then show ?thesis using c m False
      by (intro exI [of _ cuts] exI [of _ meta2] exI [of _ ?meta] exI [of _ src] exI [of _ nodes]) simp
  qed
qed

lemma twoslasher_erases:
  assumes out: "outcome (twoslasher bk imports createOptions cache src ext options) = Inr ret"
    and kn: "\<not> truthy (getProperty (handbookOptions (returnMeta ret)) ''keepNotations'')"
    and se: "\<not> truthy (getProperty (handbookOptions (returnMeta ret)) ''showEmit'')"
  shows "returnCode ret = nths src {i. int i \<notin> covered (removals (returnMeta ret))}"
    and "\<forall>flag \<in> set (flagNotations (returnMeta ret)). flagType flag \<noteq> FlagUnknown \<longrightarrow>
          cover (flagStart flag, flagEnd flag) \<subseteq> covered (removals (returnMeta ret))"
    and "\<exists>cuts. findCutNotations imports src = Inr cuts
          \<and> covered (removals (returnMeta ret))
              = covered (map (\<lambda>flag. (flagStart flag, flagEnd flag))
                           (filter (\<lambda>flag. flagType flag \<noteq> FlagUnknown) (flagNotations (returnMeta ret))))
                \<union> covered cuts \<union> covered (specMarkerRanges imports src)"
proof -
  from out obtain meta1 nodes0 where s: "scanFlags imports createOptions options src ext = Inr (meta1, nodes0)"
    by (cases "scanFlags imports createOptions options src ext")
      (auto simp: twoslasher_def Let_def split: prod.splits)
  let ?env = "getEnv imports cache (compilerOptions meta1)"
  obtain res env' where r: "runOnEnv bk imports createOptions options src meta1 nodes0 ?env = (res, env')"
    by (cases "runOnEnv bk imports createOptions options src meta1 nodes0 ?env") auto
  have "res = Inr ret"
    using out s r by (simp add: twoslasher_def Let_def)
  with r have r': "runOnEnv bk imports createOptions options src meta1 nodes0 ?env = (Inr ret, env')"
    by simp
  from runOnEnv_returns [OF r'] obtain cuts meta2 meta code nodes where
    c: "findCutNotations imports src = Inr cuts"
    and m: "findQueryMarkers imports src (meta1\<lparr>removals := removals meta1 @ cuts\<rparr>)
            (getIndexOfLineAbove (createPositionConverter src)) = Inr meta2"
    and h: "handbookOptions meta = handbookOptions meta2" "flagNotations meta = flagNotations meta2"
    and ret: "ret = finish src (createPositionConverter src) code meta nodes"
    and plain: "\<not> truthy (getProperty (handbookOptions meta2) ''showEmit'')
            \<longrightarrow> code = src \<and> removals meta = removals meta2"
    by blast
  note fm = finish_meta [of src "createPositionConverter src" code meta nodes]
  have se2: "\<not> truthy (getProperty (handbookOptions meta2) ''showEmit'')"
    using se ret fm h by simp
  have kn2: "\<not> truthy (getProperty (handbookOptions meta) ''keepNotations'')"
    using kn ret fm by simp
  have code: "code = src" and rm: "removals meta = removals meta2"
    using plain se2 by simp_all
  have q: "removals meta2 = removals meta1 @ cuts @ specMarkerRanges imports src"
      "flagNotations meta2 = flagNotations meta1"
    using findQueryMarkers_removals [OF m] by simp_all
  have flags: "removals meta1 = map (\<lambda>flag. (flagStart flag, flagEnd flag))
                            (filter (\<lambda>flag. flagType flag \<noteq> FlagUnknown) (flagNotations meta1))"
    by (rule scanFlags_removals [OF s])
  have wf1: "\<forall>r \<in> set (removals meta1). wellFormed r"
    using scanFlags_spans [OF s] by (subst flags) (auto simp: wellFormed_def)
  have wf: "\<forall>r \<in> set (removals meta). wellFormed r"
    using wf1 findCutNotations_wellFormed [OF c] specMarkerRanges_wellFormed [of "imports" src] q(1) rm
    by auto
  note e = finish_erases [OF kn2 wf, of src "createPositionConverter src" code nodes]
  show "returnCode ret = nths src {i. int i \<notin> covered (removals (returnMeta ret))}"
    using e ret code by simp
  have fl: "flagNotations (returnMeta ret) = flagNotations meta1"
    using ret fm h q(2) by simp
  show "\<forall>flag \<in> set (flagNotations (returnMeta ret)). flagType flag \<noteq> FlagUnknown \<longrightarrow>
          cover (flagStart flag, flagEnd flag) \<subseteq> covered (removals (returnMeta ret))"
  proof (intro ballI impI)
    fix flag
    assume "flag \<in> set (flagNotations (returnMeta ret))" and known: "flagType flag \<noteq> FlagUnknown"
    then have "flag \<in> set (flagNotations meta1)" using fl by simp
    then have "(flagStart flag, flagEnd flag) \<in> set (removals meta1)"
      using known by (subst flags) auto
    then have "(flagStart flag, flagEnd flag) \<in> set (removals meta)" using q(1) rm by simp
    then have "cover (flagStart flag, flagEnd flag) \<subseteq> covered (removals meta)"
      by (auto simp: covered_def)
    then show "cover (flagStart flag, flagEnd flag) \<subseteq> covered (removals (returnMeta ret))"
      using e(2) ret by simp
  qed
  have "covered (removals (returnMeta ret))
      = covered (map (\<lambda>flag. (flagStart flag, flagEnd flag))
                   (filter (\<lambda>flag. flagType flag \<noteq> FlagUnknown) (flagNotations (returnMeta ret))))
        \<union> covered cuts \<union> covered (specMarkerRanges imports src)"
    using e(2) ret rm q(1) flags fl by (simp add: covered_append Un_assoc)
  then show "\<exists>cuts. findCutNotations imports src = Inr cuts
          \<and> covered (removals (returnMeta ret))
              = covered (map (\<lambda>flag. (flagStart flag, flagEnd flag))
                           (filter (\<lambda>flag. flagType flag \<noteq> FlagUnknown) (flagNotations (returnMeta ret))))
                \<union> covered cuts \<union> covered (specMarkerRanges imports src)"
    using c by blast
qed

text \<open>
  Claim C3, amended. The loop over the flags appends the range \<open>[start, end)\<close> of every
  flag of type tag, compilerOptions or handbookOptions to the removals, in the order of
  the flags, and appends nothing for a flag of type unknown. When the flags of a run are
  applied, its removals are the ranges of its flags that are not unknown. When the run
  returns with neither \<open>keepNotations\<close> nor \<open>showEmit\<close> set, the code it returns is the
  source without the characters at the offsets that the removals cover; these offsets
  are those of the ranges of the flags that are not unknown, of the cut ranges and of the
  ranges of the query markers. So every flag that is not unknown is erased, and a
  character of an unknown flag is erased only where one of these ranges covers it.
\<close>

theorem applyFlags_removals:
  "removals (fst (applyFlags flags meta nodes))
     = removals meta @ map (\<lambda>flag. (flagStart flag, flagEnd flag))
                         (filter (\<lambda>flag. flagType flag \<noteq> FlagUnknown) flags)
   \<and> (scanFlags imports createOptions options src ext = Inr (meta1, nodes1) \<longrightarrow>
        removals meta1 = map (\<lambda>flag. (flagStart flag, flagEnd flag))
                           (filter (\<lambda>flag. flagType flag \<noteq> FlagUnknown) (flagNotations meta1)))
   \<and> (outcome (twoslasher bk imports createOptions cache src ext options) = Inr ret
        \<and> \<not> truthy (getProperty (handbookOptions (returnMeta ret)) ''keepNotations'')
        \<and> \<not> truthy (getProperty (handbookOptions (returnMeta ret)) ''showEmit'') \<longrightarrow>
        returnCode ret = nths src {i. int i \<notin> covered (removals (returnMeta ret))}
        \<and> (\<forall>flag \<in> set (flagNotations (returnMeta ret)). flagType flag \<noteq> FlagUnknown \<longrightarrow>
             cover (flagStart flag, flagEnd flag) \<subseteq> covered (removals (returnMeta ret)))
        \<and> (\<exists>cuts. findCutNotations imports src = Inr cuts
             \<and> covered (removals (returnMeta ret))
                 = covered (map (\<lambda>flag. (flagStart flag, flagEnd flag))
                              (filter (\<lambda>flag. flagType flag \<noteq> FlagUnknown)
                                 (flagNotations (returnMeta ret))))
                   \<union> covered cuts \<union> covered (specMarkerRanges imports src)))"
proof (intro conjI impI)
  show "removals (fst (applyFlags flags meta nodes))
     = removals meta @ map (\<lambda>flag. (flagStart flag, flagEnd flag))
                         (filter (\<lambda>flag. flagType flag \<noteq> FlagUnknown) flags)"
    using applyFlags_removals_aux [of flags meta nodes] by simp
next
  assume "scanFlags imports createOptions options src ext = Inr (meta1, nodes1)"
  then show "removals meta1 = map (\<lambda>flag. (flagStart flag, flagEnd flag))
                           (filter (\<lambda>flag. flagType flag \<noteq> FlagUnknown) (flagNotations meta1))"
    by (rule scanFlags_removals)
next
  assume run: "outcome (twoslasher bk imports createOptions cache src ext options) = Inr ret
        \<and> \<not> truthy (getProperty (handbookOptions (returnMeta ret)) ''keepNotations'')
        \<and> \<not> truthy (getProperty (handbookOptions (returnMeta ret)) ''showEmit'')"
  note erases = twoslasher_erases [of bk "imports" createOptions cache src ext options ret]
  from run show "returnCode ret = nths src {i. int i \<notin> covered (removals (returnMeta ret))}"
    using erases(1) by simp
  from run show "\<forall>flag \<in> set (flagNotations (returnMeta ret)). flagType flag \<noteq> FlagUnknown \<longrightarrow>
             cover (flagStart flag, flagEnd flag) \<subseteq> covered (removals (returnMeta ret))"
    using erases(2) by simp
  from run show "\<exists>cuts. findCutNotations imports src = Inr cuts
             \<and> covered (removals (returnMeta ret))
                 = covered (map (\<lambda>flag. (flagStart flag, flagEnd flag))
                              (filter (\<lambda>flag. flagType flag \<noteq> FlagUnknown)
                                 (flagNotations (returnMeta ret))))
                   \<union> covered cuts \<union> covered (specMarkerRanges imports src)"
    using erases(3) by simp
qed

text \<open>
  The theorem at an unknown flag followed by a handbook option, and at the run on the
  code \<open>// @noErrors\<close>, a line feed and \<open>1\<close>: the flag covers the offsets 0 to 12, there is
  no cut and no query marker, and the run returns \<open>1\<close>.
\<close>

theorem applyFlags_removals_witness:
  "scanFlags exampleImports exampleCreateOptions (exampleOptions []) ''1'' ''ts'' = Inr (exampleMeta, [])
   \<and> removals exampleMeta = []
   \<and> removals (fst (applyFlags
        [\<lparr>flagType = FlagUnknown, flagName = ''foo'', flagValue = JBoolean True, flagStart = 0, flagEnd = 8\<rparr>,
         \<lparr>flagType = FlagHandbookOptions, flagName = ''noErrors'', flagValue = JBoolean True,
          flagStart = 8, flagEnd = 20\<rparr>]
        exampleMeta [])) = [(8, 20)]
   \<and> outcome (twoslasher exampleBackend exampleFlagImports exampleCreateOptions None
        ''// @noErrors\<newline>1'' ''ts'' (exampleOptions []))
     = Inr \<lparr>returnCode = ''1'', returnNodes = [],
            returnMeta = \<lparr>metaExtension = ''ts'', compilerOptions = [],
              handbookOptions = [(''noErrors'', JBoolean True)], removals = [(0, 13)],
              flagNotations = [\<lparr>flagType = FlagHandbookOptions, flagName = ''noErrors'',
                                 flagValue = JBoolean True, flagStart = 0, flagEnd = 13\<rparr>],
              virtualFiles = [\<lparr>offset = 0, filename = ''index.ts'', filepath = ''/index.ts'',
                                content = ''// @noErrors\<newline>1'', extension = ''ts''\<rparr>],
              positionQueries = [], positionCompletions = [], positionHighlights = []\<rparr>\<rparr>
   \<and> ''1'' = nths ''// @noErrors\<newline>1'' {i. int i \<notin> covered [(0, 13)]}
   \<and> cover (0, 13) \<subseteq> covered [(0, 13)]
   \<and> findCutNotations exampleFlagImports ''// @noErrors\<newline>1'' = Inr []
   \<and> specMarkerRanges exampleFlagImports ''// @noErrors\<newline>1'' = []
   \<and> covered [(0, 13)] = covered [(0, 13)] \<union> covered [] \<union> covered []"
proof -
  let ?ret = "\<lparr>returnCode = ''1'', returnNodes = [],
            returnMeta = \<lparr>metaExtension = ''ts'', compilerOptions = [],
              handbookOptions = [(''noErrors'', JBoolean True)], removals = [(0, 13)],
              flagNotations = [\<lparr>flagType = FlagHandbookOptions, flagName = ''noErrors'',
                                 flagValue = JBoolean True, flagStart = 0, flagEnd = 13\<rparr>],
              virtualFiles = [\<lparr>offset = 0, filename = ''index.ts'', filepath = ''/index.ts'',
                                content = ''// @noErrors\<newline>1'', extension = ''ts''\<rparr>],
              positionQueries = [], positionCompletions = [], positionHighlights = []\<rparr>\<rparr>"
  have s: "scanFlags exampleImports exampleCreateOptions (exampleOptions []) ''1'' ''ts'' = Inr (exampleMeta, [])"
    by code_simp
  have t: "outcome (twoslasher exampleBackend exampleFlagImports exampleCreateOptions None
        ''// @noErrors\<newline>1'' ''ts'' (exampleOptions [])) = Inr ?ret"
    by code_simp
  have o: "\<not> truthy (getProperty (handbookOptions (returnMeta ?ret)) ''keepNotations'')"
    "\<not> truthy (getProperty (handbookOptions (returnMeta ?ret)) ''showEmit'')"
    by (simp_all add: getProperty_def)
  have c: "findCutNotations exampleFlagImports ''// @noErrors\<newline>1'' = Inr []"
    by code_simp
  have m: "specMarkerRanges exampleFlagImports ''// @noErrors\<newline>1'' = []"
    by code_simp
  show ?thesis
    using s t o
      applyFlags_removals [of
        "[\<lparr>flagType = FlagUnknown, flagName = ''foo'', flagValue = JBoolean True, flagStart = 0, flagEnd = 8\<rparr>,
         \<lparr>flagType = FlagHandbookOptions, flagName = ''noErrors'', flagValue = JBoolean True,
          flagStart = 8, flagEnd = 20\<rparr>]"
        exampleMeta "[]" exampleImports exampleCreateOptions "exampleOptions []" "''1''" "''ts''" exampleMeta "[]"]
      applyFlags_removals [of "[]" exampleMeta "[]" exampleFlagImports exampleCreateOptions "exampleOptions []"
        "''// @noErrors\<newline>1''" "''ts''" exampleMeta "[]" exampleBackend None ?ret]
    unfolding c m
    by (simp add: exampleMeta_def)
qed

text \<open>
  Claim C3 as stated fails: \<open>@foo\<close>, in no table, is parsed as unknown, and the loop
  leaves the removals empty. The run on the code \<open>// @foo\<close>, a line feed and \<open>1\<close>, with
  \<open>noErrorValidation\<close> set, returns the code as it was given.
\<close>

theorem applyFlags_unknown_counterexample:
  "parseFlag (\<lambda>v. NaN) [] ''foo'' (JBoolean True) 0 8 [] []
     = Inr \<lparr>flagType = FlagUnknown, flagName = ''foo'', flagValue = JBoolean True, flagStart = 0, flagEnd = 8\<rparr>
   \<and> removals (fst (applyFlags
        [\<lparr>flagType = FlagUnknown, flagName = ''foo'', flagValue = JBoolean True, flagStart = 0, flagEnd = 8\<rparr>]
        exampleMeta [])) = []
   \<and> outcome (twoslasher exampleBackend exampleFlagImports exampleCreateOptions None
        ''// @foo\<newline>1'' ''ts'' (exampleOptions [(''noErrorValidation'', JBoolean True)]))
     = Inr \<lparr>returnCode = ''// @foo\<newline>1'', returnNodes = [],
            returnMeta = \<lparr>metaExtension = ''ts'', compilerOptions = [],
              handbookOptions = [(''noErrors'', JBoolean False), (''noErrorValidation'', JBoolean True)],
              removals = [],
              flagNotations = [\<lparr>flagType = FlagUnknown, flagName = ''foo'',
                                 flagValue = JBoolean True, flagStart = 0, flagEnd = 8\<rparr>],
              virtualFiles = [\<lparr>offset = 0, filename = ''index.ts'', filepath = ''/index.ts'',
                                content = ''// @foo\<newline>1'', extension = ''ts''\<rparr>],
              positionQueries = [], positionCompletions = [], positionHighlights = []\<rparr>\<rparr>"
proof -
  have "parseFlag (\<lambda>v. NaN) [] ''foo'' (JBoolean True) 0 8 [] []
     = Inr \<lparr>flagType = FlagUnknown, flagName = ''foo'', flagValue = JBoolean True, flagStart = 0, flagEnd = 8\<rparr>
   \<and> removals (fst (applyFlags
        [\<lparr>flagType = FlagUnknown, flagName = ''foo'', flagValue = JBoolean True, flagStart = 0, flagEnd = 8\<rparr>]
        exampleMeta [])) = []"
    by (simp add: parseFlag_def exampleMeta_def)
  moreover have "outcome (twoslasher exampleBackend exampleFlagImports exampleCreateOptions None
        ''// @foo\<newline>1'' ''ts'' (exampleOptions [(''noErrorValidation'', JBoolean True)]))
     = Inr \<lparr>returnCode = ''// @foo\<newline>1'', returnNodes = [],
            returnMeta = \<lparr>metaExtension = ''ts'', compilerOptions = [],
              handbookOptions = [(''noErrors'', JBoolean False), (''noErrorValidation'', JBoolean True)],
              removals = [],
              flagNotations = [\<lparr>flagType = FlagUnknown, flagName = ''foo'',
                                 flagValue = JBoolean True, flagStart = 0, flagEnd = 8\<rparr>],
              virtualFiles = [\<lparr>offset = 0, filename = ''index.ts'', filepath = ''/index.ts'',
                                content = ''// @foo\<newline>1'', extension = ''ts''\<rparr>],
              positionQueries = [], positionCompletions = [], positionHighlights = []\<rparr>\<rparr>"
    by code_simp
  ultimately show ?thesis by simp
qed

lemma isInRemoval_end:
  "(s, e) \<in> set (removals meta) \<Longrightarrow> s \<le> e \<Longrightarrow> isInRemoval meta e"
  by (auto simp: isInRemoval_def isInRanges_def find_None_iff isInRange_def)

text \<open>
  Claim C10. \<open>isInRange\<close> holds exactly when the index lies between the two ends, both
  included; so the end of a range with \<open>start \<le> end\<close> is in the range, and the loop that
  collects the hovers skips an identifier that starts at the end of a removal.
\<close>

theorem isInRange_inclusive:
  "isInRange i (s, e) = (s \<le> i \<and> i \<le> e)
   \<and> (s \<le> e \<longrightarrow> isInRange e (s, e))
   \<and> ((s, e) \<in> set (removals meta) \<and> s \<le> e \<longrightarrow>
        hoverLoop bk meta shouldGetHoverInfo file ((e, end', target) # rest) nodes env
          = hoverLoop bk meta shouldGetHoverInfo file rest nodes env)"
  using isInRemoval_end [of s e meta] by (simp add: isInRange_def)

text \<open>
  An identifier at offset 7: no hover after the removal \<open>[0, 7]\<close>, a hover after \<open>[0, 6]\<close>.
\<close>

theorem isInRange_inclusive_witness:
  "isInRange 7 (0, 7)
   \<and> hoverLoop exampleBackend (exampleMeta\<lparr>removals := [(0, 7)], virtualFiles := [exampleFile]\<rparr>)
        (\<lambda>target start' name. True) exampleFile [(7, 8, ''a'')] [] [] = (Inr [], [])
   \<and> hoverLoop exampleBackend (exampleMeta\<lparr>removals := [(0, 6)], virtualFiles := [exampleFile]\<rparr>)
        (\<lambda>target start' name. True) exampleFile [(7, 8, ''a'')] [] []
      = (Inr [\<lparr>start = 7, length_n = 1, type = NodeHover, info = HoverInfo ''any'' None ''a''\<rparr>],
         [GetQuickInfoAtPosition ''/index.ts'' 7])"
proof -
  have m: "(0, 7) \<in> set (removals (exampleMeta\<lparr>removals := [(0, 7)], virtualFiles := [exampleFile]\<rparr>))
      \<and> (0 :: int) \<le> 7"
    by simp
  have other: "hoverLoop exampleBackend (exampleMeta\<lparr>removals := [(0, 6)], virtualFiles := [exampleFile]\<rparr>)
        (\<lambda>target start' name. True) exampleFile [(7, 8, ''a'')] [] []
      = (Inr [\<lparr>start = 7, length_n = 1, type = NodeHover, info = HoverInfo ''any'' None ''a''\<rparr>],
         [GetQuickInfoAtPosition ''/index.ts'' 7])"
    by code_simp
  show ?thesis
    using m other
      isInRange_inclusive [of 7 0 7 "exampleMeta\<lparr>removals := [(0, 7)], virtualFiles := [exampleFile]\<rparr>"
        exampleBackend "\<lambda>target start' name. True" exampleFile 8 "''a''" "[]" "[]" "[]"]
    by simp
qed

lemma getIndexOfLineAbove_total: "\<exists>k. getIndexOfLineAbove ls i = Inr k"
proof -
  obtain k where k: "k \<le> length ls"
    "indexToPos ls i = \<lparr>line = int k, character = i - lineLengths (take k ls)\<rparr>"
    using indexToPosLoop_walk [of ls i 0] by (auto simp: indexToPos_def)
  have "nat (int k - 1) \<le> length ls" using k(1) by simp
  then have "\<exists>n. posToIndexLoop ls [0 ..< nat (int k - 1)] 0 = Inr n"
    using posToIndexLoop_upt [of "nat (int k - 1)" ls 0 0] by simp
  then show ?thesis
    by (auto simp: getIndexOfLineAbove_def Let_def k(2) posToIndex_def andThen_def)
qed

lemma markQuery_options:
  assumes "\<And>i. \<exists>k. lineAbove i = Inr k"
  shows "\<exists>meta'. markQuery lineAbove m meta = Inr meta'
      \<and> handbookOptions meta' = handbookOptions meta \<and> compilerOptions meta' = compilerOptions meta"
proof -
  obtain k where "lineAbove (int (matchIndex m) + indexOf (matchText m) (CHR ''^'')) = Inr k"
    using assms by blast
  then show ?thesis
    by (simp add: markQuery_def Let_def andThen_def)
qed

lemma markQueries_options:
  assumes "\<And>i. \<exists>k. lineAbove i = Inr k"
  shows "\<exists>meta'. markQueries lineAbove ms meta = Inr meta'
      \<and> handbookOptions meta' = handbookOptions meta \<and> compilerOptions meta' = compilerOptions meta"
proof (induction ms arbitrary: meta)
  case Nil
  then show ?case by simp
next
  case (Cons m ms)
  from markQuery_options [where lineAbove = lineAbove and m = m and meta = meta, OF assms]
  obtain meta1 where 1: "markQuery lineAbove m meta = Inr meta1"
    "handbookOptions meta1 = handbookOptions meta" "compilerOptions meta1 = compilerOptions meta"
    by blast
  from Cons.IH [of meta1] 1 show ?case
    by (auto simp: andThen_def)
qed

lemma findQueryMarkers_options:
  "\<exists>meta'. findQueryMarkers res src meta (getIndexOfLineAbove pc) = Inr meta'
      \<and> handbookOptions meta' = handbookOptions meta \<and> compilerOptions meta' = compilerOptions meta"
  using markQueries_options [where lineAbove = "getIndexOfLineAbove pc", OF getIndexOfLineAbove_total]
  by (simp add: findQueryMarkers_def)

lemma populateFile_showEmit_calls:
  assumes "truthy (getProperty (handbookOptions meta) ''showEmit'')"
  shows "populateFile bk meta shouldGetHoverInfo pc src fsRoot vf nodes env
      = (Inr nodes, env @ specCreateCalls (compilerOptions meta) fsRoot [vf])"
  using assms by (simp add: populateFile_def specCreateCalls_def Let_def)

lemma specCreateCalls_Cons:
  "specCreateCalls compilerOpts fsRoot (vf # files)
     = specCreateCalls compilerOpts fsRoot [vf] @ specCreateCalls compilerOpts fsRoot files"
  by (simp add: specCreateCalls_def)

lemma populateFiles_showEmit_calls:
  assumes "truthy (getProperty (handbookOptions meta) ''showEmit'')"
  shows "populateFiles bk meta shouldGetHoverInfo pc src fsRoot files nodes env
      = (Inr nodes, env @ specCreateCalls (compilerOptions meta) fsRoot files)"
proof (induction files arbitrary: env)
  case Nil
  then show ?case by (simp add: specCreateCalls_def)
next
  case (Cons vf files)
  show ?case
    using populateFile_showEmit_calls [OF assms, of bk shouldGetHoverInfo pc src fsRoot vf nodes env]
      Cons.IH [of "env @ specCreateCalls (compilerOptions meta) fsRoot [vf]"]
    by (simp add: thenStep_def specCreateCalls_Cons [of _ _ vf files])
qed

lemma specDiagnosticCalls_Cons:
  "specDiagnosticCalls handbookOpts fsRoot (vf # files)
     = specDiagnosticCalls handbookOpts fsRoot [vf] @ specDiagnosticCalls handbookOpts fsRoot files"
  by (simp add: specDiagnosticCalls_def)

lemma diagnoseFiles_spec_calls:
  "snd (diagnoseFiles bk meta fsRoot files errorNodes env)
     = env @ specDiagnosticCalls (handbookOptions meta) fsRoot files"
proof (induction files arbitrary: errorNodes env)
  case Nil
  then show ?case by (simp add: specDiagnosticCalls_def)
next
  case (Cons vf files)
  show ?case
    by (subst specDiagnosticCalls_Cons)
      (simp add: Cons.IH Let_def, simp add: specDiagnosticCalls_def)
qed

lemma runOnEnv_cut_mismatch:
  "findCutNotations imports src = Inl e
     \<Longrightarrow> runOnEnv bk imports createOptions options src meta1 nodes0 env = (Inl e, env)"
  by (simp add: runOnEnv_def Let_def)

lemma runOnEnv_showEmit_keepNotations:
  assumes se: "truthy (getProperty (handbookOptions meta1) ''showEmit'')"
    and kn: "truthy (getProperty (handbookOptions meta1) ''keepNotations'')"
    and cuts: "findCutNotations imports src = Inr cuts"
  shows "\<exists>meta2.
      findQueryMarkers imports src (meta1\<lparr>removals := removals meta1 @ cuts\<rparr>)
          (getIndexOfLineAbove (createPositionConverter src)) = Inr meta2
      \<and> fst (runOnEnv bk imports createOptions options src meta1 nodes0 env) =
          (let fsRoot = fsRootOf createOptions;
               files = splitFiles src (''index.'' @ metaExtension meta1) fsRoot;
               created = env @ specCreateCalls (compilerOptions meta1) fsRoot files;
               errorNodes0 = fst (diagnoseFiles bk (meta2\<lparr>virtualFiles := files\<rparr>) fsRoot files [] created);
               errorNodes = (case (case execFilterNode options of
                                      Some f \<Rightarrow> Some f
                                    | None \<Rightarrow> createFilterNode createOptions) of
                               None \<Rightarrow> errorNodes0
                             | Some f \<Rightarrow> filter f errorNodes0)
           in if \<not> truthy (getProperty (handbookOptions meta1) ''noErrorValidation'') \<and> errorNodes \<noteq> []
              then (case validateCodeForErrors imports errorNodes (handbookOptions meta1) fsRoot of
                      Some e \<Rightarrow> Inl e
                    | None \<Rightarrow> Inl ShowEmitWithKeepNotations)
              else Inl ShowEmitWithKeepNotations)
      \<and> snd (runOnEnv bk imports createOptions options src meta1 nodes0 env) =
          (let fsRoot = fsRootOf createOptions;
               files = splitFiles src (''index.'' @ metaExtension meta1) fsRoot
           in env @ specCreateCalls (compilerOptions meta1) fsRoot files
                @ specDiagnosticCalls (handbookOptions meta1) fsRoot files)"
proof -
  let ?fsRoot = "fsRootOf createOptions"
  let ?pc = "createPositionConverter src"
  let ?files = "splitFiles src (''index.'' @ metaExtension meta1) ?fsRoot"
  let ?should = "case execShouldGetHoverInfo options of
                                  Some f \<Rightarrow> f
                                | None \<Rightarrow> (case createShouldGetHoverInfo createOptions of
                                              Some f \<Rightarrow> f
                                            | None \<Rightarrow> (\<lambda>target start' name. True))"
  let ?filterNode = "case execFilterNode options of
                          Some f \<Rightarrow> Some f
                        | None \<Rightarrow> createFilterNode createOptions"
  from findQueryMarkers_options [of "imports" src "meta1\<lparr>removals := removals meta1 @ cuts\<rparr>" ?pc]
  obtain meta2 where m2: "findQueryMarkers imports src (meta1\<lparr>removals := removals meta1 @ cuts\<rparr>)
        (getIndexOfLineAbove ?pc) = Inr meta2"
    "handbookOptions meta2 = handbookOptions meta1" "compilerOptions meta2 = compilerOptions meta1"
    by auto
  let ?meta = "meta2\<lparr>virtualFiles := ?files\<rparr>"
  let ?created = "env @ specCreateCalls (compilerOptions meta1) ?fsRoot ?files"
  have hb: "handbookOptions ?meta = handbookOptions meta1" using m2(2) by simp
  have co: "compilerOptions ?meta = compilerOptions meta1" using m2(3) by simp
  have se': "truthy (getProperty (handbookOptions ?meta) ''showEmit'')" using se hb by simp
  have kn': "truthy (getProperty (handbookOptions ?meta) ''keepNotations'')" using kn hb by simp
  have p: "populateFiles bk ?meta ?should ?pc src ?fsRoot (virtualFiles ?meta) nodes0 env
      = (Inr nodes0, ?created)"
    using populateFiles_showEmit_calls [OF se', of bk ?should ?pc src ?fsRoot ?files nodes0 env] co
    by simp
  obtain errs env2 where d: "diagnoseFiles bk ?meta ?fsRoot (virtualFiles ?meta) [] ?created = (errs, env2)"
    by (cases "diagnoseFiles bk ?meta ?fsRoot (virtualFiles ?meta) [] ?created") auto
  have errs: "errs = fst (diagnoseFiles bk ?meta ?fsRoot ?files [] ?created)"
    using d by simp
  have env2: "env2 = ?created @ specDiagnosticCalls (handbookOptions meta1) ?fsRoot ?files"
    using d diagnoseFiles_spec_calls [of bk ?meta ?fsRoot ?files "[]" ?created] hb by simp
  let ?errorNodes = "case ?filterNode of None \<Rightarrow> errs | Some f \<Rightarrow> filter f errs"
  let ?validation = "if \<not> truthy (getProperty (handbookOptions ?meta) ''noErrorValidation'')
                        \<and> ?errorNodes \<noteq> []
                     then validateCodeForErrors imports ?errorNodes (handbookOptions ?meta) ?fsRoot
                     else None"
  have emit: "showEmit bk imports ?meta src (''index.'' @ metaExtension meta1) ?fsRoot env2
      = (Inl ShowEmitWithKeepNotations, env2)"
    using kn' by (simp add: showEmit_def)
  have run: "runOnEnv bk imports createOptions options src meta1 nodes0 env =
      (case ?validation of
         Some e \<Rightarrow> (Inl e, env2)
       | None \<Rightarrow> (Inl ShowEmitWithKeepNotations, env2))"
    unfolding runOnEnv_def Let_def cuts m2(1) sum.case p thenStep_def prod.case d
    using se' emit by (simp add: thenStep_def split: option.splits)
  have out: "fst (runOnEnv bk imports createOptions options src meta1 nodes0 env) =
      (if \<not> truthy (getProperty (handbookOptions meta1) ''noErrorValidation'') \<and> ?errorNodes \<noteq> []
       then (case validateCodeForErrors imports ?errorNodes (handbookOptions meta1) ?fsRoot of
               Some e \<Rightarrow> Inl e
             | None \<Rightarrow> Inl ShowEmitWithKeepNotations)
       else Inl ShowEmitWithKeepNotations)"
    unfolding run hb by (simp split: option.splits)
  have calls: "snd (runOnEnv bk imports createOptions options src meta1 nodes0 env) = env2"
    unfolding run by (simp split: option.splits)
  have "fst (runOnEnv bk imports createOptions options src meta1 nodes0 env) =
          (let fsRoot = fsRootOf createOptions;
               files = splitFiles src (''index.'' @ metaExtension meta1) fsRoot;
               created = env @ specCreateCalls (compilerOptions meta1) fsRoot files;
               errorNodes0 = fst (diagnoseFiles bk (meta2\<lparr>virtualFiles := files\<rparr>) fsRoot files [] created);
               errorNodes = (case (case execFilterNode options of
                                      Some f \<Rightarrow> Some f
                                    | None \<Rightarrow> createFilterNode createOptions) of
                               None \<Rightarrow> errorNodes0
                             | Some f \<Rightarrow> filter f errorNodes0)
           in if \<not> truthy (getProperty (handbookOptions meta1) ''noErrorValidation'') \<and> errorNodes \<noteq> []
              then (case validateCodeForErrors imports errorNodes (handbookOptions meta1) fsRoot of
                      Some e \<Rightarrow> Inl e
                    | None \<Rightarrow> Inl ShowEmitWithKeepNotations)
              else Inl ShowEmitWithKeepNotations)"
    unfolding Let_def out errs ..
  moreover have "snd (runOnEnv bk imports createOptions options src meta1 nodes0 env) =
          (let fsRoot = fsRootOf createOptions;
               files = splitFiles src (''index.'' @ metaExtension meta1) fsRoot
           in env @ specCreateCalls (compilerOptions meta1) fsRoot files
                @ specDiagnosticCalls (handbookOptions meta1) fsRoot files)"
    unfolding Let_def calls env2 by simp
  ultimately show ?thesis using m2(1) by blast
qed

text \<open>
  Claim C4, amended. When \<open>showEmit\<close> and \<open>keepNotations\<close> both hold after the flags are
  applied, the run returns no result: it throws. When the cut markers are mismatched it
  throws their error with the environment as \<open>getEnv\<close> gave it. Otherwise the run first
  makes on the environment of \<open>getEnv\<close> the calls of the two loops over the virtual files,
  \<open>createFile\<close> for every source file and then the diagnostics, and throws after them:
  the error of the validation when there are error nodes, \<open>noErrorValidation\<close> is not
  set and the validation of these error nodes throws, and the error about the two
  options in every other case.
\<close>

theorem showEmit_with_keepNotations:
  assumes scan: "scanFlags imports createOptions options src ext = Inr (meta1, nodes0)"
    and se: "truthy (getProperty (handbookOptions meta1) ''showEmit'')"
    and kn: "truthy (getProperty (handbookOptions meta1) ''keepNotations'')"
  shows
    "(let run = twoslasher bk imports createOptions cache src ext options;
          env = getEnv imports cache (compilerOptions meta1);
          fsRoot = fsRootOf createOptions;
          files = splitFiles src (''index.'' @ metaExtension meta1) fsRoot;
          created = env @ specCreateCalls (compilerOptions meta1) fsRoot files
      in (\<exists>e. outcome run = Inl e)
       \<and> (case findCutNotations imports src of
             Inl e \<Rightarrow> outcome run = Inl e \<and> environment run = Some env
           | Inr cuts \<Rightarrow>
               environment run = Some (created @ specDiagnosticCalls (handbookOptions meta1) fsRoot files)
               \<and> (\<exists>meta2.
                     findQueryMarkers imports src (meta1\<lparr>removals := removals meta1 @ cuts\<rparr>)
                         (getIndexOfLineAbove (createPositionConverter src)) = Inr meta2
                     \<and> outcome run =
                         (let errorNodes0 = fst (diagnoseFiles bk (meta2\<lparr>virtualFiles := files\<rparr>)
                                                   fsRoot files [] created);
                              errorNodes = (case (case execFilterNode options of
                                                    Some f \<Rightarrow> Some f
                                                  | None \<Rightarrow> createFilterNode createOptions) of
                                              None \<Rightarrow> errorNodes0
                                            | Some f \<Rightarrow> filter f errorNodes0)
                          in if \<not> truthy (getProperty (handbookOptions meta1) ''noErrorValidation'')
                                \<and> errorNodes \<noteq> []
                             then (case validateCodeForErrors imports errorNodes (handbookOptions meta1)
                                          fsRoot of
                                     Some e \<Rightarrow> Inl e
                                   | None \<Rightarrow> Inl ShowEmitWithKeepNotations)
                             else Inl ShowEmitWithKeepNotations))))"
proof -
  let ?env = "getEnv imports cache (compilerOptions meta1)"
  let ?run = "twoslasher bk imports createOptions cache src ext options"
  have o: "outcome ?run = fst (runOnEnv bk imports createOptions options src meta1 nodes0 ?env)"
    and e: "environment ?run = Some (snd (runOnEnv bk imports createOptions options src meta1 nodes0 ?env))"
    using scan by (simp_all add: twoslasher_def Let_def split: prod.splits)
  show ?thesis
  proof (cases "findCutNotations imports src")
    case (Inl err)
    have "runOnEnv bk imports createOptions options src meta1 nodes0 ?env = (Inl err, ?env)"
      by (rule runOnEnv_cut_mismatch [OF Inl])
    then show ?thesis
      unfolding Let_def o e Inl by simp
  next
    case (Inr cuts)
    from runOnEnv_showEmit_keepNotations [OF se kn Inr, of bk createOptions options nodes0 ?env]
    obtain meta2 where m: "findQueryMarkers imports src (meta1\<lparr>removals := removals meta1 @ cuts\<rparr>)
          (getIndexOfLineAbove (createPositionConverter src)) = Inr meta2"
      and f: "fst (runOnEnv bk imports createOptions options src meta1 nodes0 ?env) =
          (let fsRoot = fsRootOf createOptions;
               files = splitFiles src (''index.'' @ metaExtension meta1) fsRoot;
               created = ?env @ specCreateCalls (compilerOptions meta1) fsRoot files;
               errorNodes0 = fst (diagnoseFiles bk (meta2\<lparr>virtualFiles := files\<rparr>) fsRoot files [] created);
               errorNodes = (case (case execFilterNode options of
                                      Some f \<Rightarrow> Some f
                                    | None \<Rightarrow> createFilterNode createOptions) of
                               None \<Rightarrow> errorNodes0
                             | Some f \<Rightarrow> filter f errorNodes0)
           in if \<not> truthy (getProperty (handbookOptions meta1) ''noErrorValidation'') \<and> errorNodes \<noteq> []
              then (case validateCodeForErrors imports errorNodes (handbookOptions meta1) fsRoot of
                      Some e \<Rightarrow> Inl e
                    | None \<Rightarrow> Inl ShowEmitWithKeepNotations)
              else Inl ShowEmitWithKeepNotations)"
      and s: "snd (runOnEnv bk imports createOptions options src meta1 nodes0 ?env) =
          (let fsRoot = fsRootOf createOptions;
               files = splitFiles src (''index.'' @ metaExtension meta1) fsRoot
           in ?env @ specCreateCalls (compilerOptions meta1) fsRoot files
                @ specDiagnosticCalls (handbookOptions meta1) fsRoot files)"
      by blast
    have thrown: "\<exists>err. fst (runOnEnv bk imports createOptions options src meta1 nodes0 ?env) = Inl err"
      unfolding f Let_def by (simp split: option.splits)
    show ?thesis
      unfolding Let_def o e Inr sum.case
      using thrown m f s unfolding Let_def by auto
  qed
qed

text \<open>
  The theorem on the code \<open>const a = 1\<close> with both options given by the caller, on the code
  \<open>x\<close> with a backend that reports an error and a validation that rejects it, and on a
  code whose cut markers are in the wrong order.
\<close>

theorem showEmit_with_keepNotations_witness:
  "scanFlags exampleImports exampleCreateOptions
      (exampleOptions [(''showEmit'', JBoolean True), (''keepNotations'', JBoolean True)])
      ''const a = 1'' ''ts''
     = Inr (exampleMeta\<lparr>handbookOptions := [(''showEmit'', JBoolean True), (''keepNotations'', JBoolean True)]\<rparr>, [])
   \<and> findCutNotations exampleImports ''const a = 1'' = Inr []
   \<and> outcome (twoslasher exampleBackend exampleImports exampleCreateOptions None ''const a = 1'' ''ts''
        (exampleOptions [(''showEmit'', JBoolean True), (''keepNotations'', JBoolean True)]))
     = Inl ShowEmitWithKeepNotations
   \<and> environment (twoslasher exampleBackend exampleImports exampleCreateOptions None ''const a = 1'' ''ts''
        (exampleOptions [(''showEmit'', JBoolean True), (''keepNotations'', JBoolean True)]))
     = Some [CreateVirtualTypeScriptEnvironment [], CreateFile ''/index.ts'' ''const a = 1'',
             GetSemanticDiagnostics ''/index.ts'', GetSyntacticDiagnostics ''/index.ts'']
   \<and> outcome (twoslasher exampleDiagnosingBackend exampleValidatingImports exampleCreateOptions None
        ''x'' ''ts''
        (exampleOptions [(''showEmit'', JBoolean True), (''keepNotations'', JBoolean True)]))
     = Inl (ValidationFailure ''Errors were thrown in the sample'')
   \<and> environment (twoslasher exampleDiagnosingBackend exampleValidatingImports exampleCreateOptions None
        ''x'' ''ts''
        (exampleOptions [(''showEmit'', JBoolean True), (''keepNotations'', JBoolean True)]))
     = Some [CreateVirtualTypeScriptEnvironment [], CreateFile ''/index.ts'' ''x'',
             GetSemanticDiagnostics ''/index.ts'', GetSyntacticDiagnostics ''/index.ts'']
   \<and> outcome (twoslasher exampleBackend exampleCutImports exampleCreateOptions None
        ''a// ---cut-end---b// ---cut-start---c'' ''ts''
        (exampleOptions [(''showEmit'', JBoolean True), (''keepNotations'', JBoolean True)]))
     = Inl (MismatchedCutOrder 18 1)
   \<and> environment (twoslasher exampleBackend exampleCutImports exampleCreateOptions None
        ''a// ---cut-end---b// ---cut-start---c'' ''ts''
        (exampleOptions [(''showEmit'', JBoolean True), (''keepNotations'', JBoolean True)]))
     = Some [CreateVirtualTypeScriptEnvironment []]"
proof -
  let ?options = "exampleOptions [(''showEmit'', JBoolean True), (''keepNotations'', JBoolean True)]"
  let ?meta = "exampleMeta\<lparr>handbookOptions := [(''showEmit'', JBoolean True), (''keepNotations'', JBoolean True)]\<rparr>"
  have t: "truthy (getProperty (handbookOptions ?meta) ''showEmit'')"
    "truthy (getProperty (handbookOptions ?meta) ''keepNotations'')"
    by (simp_all add: getProperty_def)
  have g: "getEnv imports None [] = [CreateVirtualTypeScriptEnvironment []]"
    for "imports" :: Imports
    by (simp add: getEnv_def)
  have root: "fsRootOf exampleCreateOptions = ''/''" "metaExtension ?meta = ''ts''"
    "compilerOptions ?meta = []"
    "handbookOptions ?meta = [(''showEmit'', JBoolean True), (''keepNotations'', JBoolean True)]"
    "execFilterNode ?options = None" "createFilterNode exampleCreateOptions = None"
    by (simp_all add: fsRootOf_def exampleCreateOptions_def exampleMeta_def exampleOptions_def)

  have s1: "scanFlags exampleImports exampleCreateOptions ?options ''const a = 1'' ''ts'' = Inr (?meta, [])"
    by code_simp
  have c1: "findCutNotations exampleImports ''const a = 1'' = Inr []"
    by code_simp
  have f1: "splitFiles ''const a = 1'' ''index.ts'' ''/''
      = [\<lparr>offset = 0, filename = ''index.ts'', filepath = ''/index.ts'', content = ''const a = 1'',
          extension = ''ts''\<rparr>]"
    by code_simp
  have q1: "findQueryMarkers exampleImports ''const a = 1'' (?meta\<lparr>removals := removals ?meta @ []\<rparr>)
        (getIndexOfLineAbove (createPositionConverter ''const a = 1'')) = Inr ?meta"
    by code_simp
  have d1: "fst (diagnoseFiles exampleBackend meta ''/''
        [\<lparr>offset = 0, filename = ''index.ts'', filepath = ''/index.ts'', content = ''const a = 1'',
          extension = ''ts''\<rparr>] [] env) = []" for meta env
    by (simp add: exampleBackend_def supportedFileTyes_def Let_def)
  have sd: "semanticDiagnostics exampleBackend env path = []"
    "syntacticDiagnostics exampleBackend env path = []" for env path
    by (simp_all add: exampleBackend_def)
  note first = showEmit_with_keepNotations [OF s1 t, of exampleBackend None]
  have r1: "outcome (twoslasher exampleBackend exampleImports exampleCreateOptions None ''const a = 1'' ''ts''
        ?options) = Inl ShowEmitWithKeepNotations
     \<and> environment (twoslasher exampleBackend exampleImports exampleCreateOptions None ''const a = 1'' ''ts''
        ?options)
       = Some [CreateVirtualTypeScriptEnvironment [], CreateFile ''/index.ts'' ''const a = 1'',
             GetSemanticDiagnostics ''/index.ts'', GetSyntacticDiagnostics ''/index.ts'']"
    using first q1
    by (simp add: Let_def c1 g root f1 sd specCreateCalls_def specDiagnosticCalls_def
        supportedFileTyes_def getProperty_def)
  have s2: "scanFlags exampleValidatingImports exampleCreateOptions ?options ''x'' ''ts'' = Inr (?meta, [])"
    by code_simp
  have c2: "findCutNotations exampleValidatingImports ''x'' = Inr []"
    by code_simp
  have f2: "splitFiles ''x'' ''index.ts'' ''/''
      = [\<lparr>offset = 0, filename = ''index.ts'', filepath = ''/index.ts'', content = ''x'',
          extension = ''ts''\<rparr>]"
    by code_simp
  have q2: "findQueryMarkers exampleValidatingImports ''x'' (?meta\<lparr>removals := removals ?meta @ []\<rparr>)
        (getIndexOfLineAbove (createPositionConverter ''x'')) = Inr ?meta"
    by code_simp
  have sd2: "semanticDiagnostics exampleDiagnosingBackend env path
      = [\<lparr>diagFileName = Some path, diagCode = 2304, diagStart = 0, diagLength = 1,
           diagMessageText = ''Cannot find name'', diagCategory = 1\<rparr>]"
    "syntacticDiagnostics exampleDiagnosingBackend env path = []" for env path
    by (simp_all add: exampleDiagnosingBackend_def exampleBackend_def)
  have v2: "validateCodeForErrors exampleValidatingImports errorNodes handbook fsRoot
      = Some (ValidationFailure ''Errors were thrown in the sample'')" for errorNodes handbook fsRoot
    by (simp add: exampleValidatingImports_def)
  note second = showEmit_with_keepNotations [OF s2 t, of exampleDiagnosingBackend None]
  have r2: "outcome (twoslasher exampleDiagnosingBackend exampleValidatingImports exampleCreateOptions None
        ''x'' ''ts'' ?options) = Inl (ValidationFailure ''Errors were thrown in the sample'')
     \<and> environment (twoslasher exampleDiagnosingBackend exampleValidatingImports exampleCreateOptions None
        ''x'' ''ts'' ?options)
       = Some [CreateVirtualTypeScriptEnvironment [], CreateFile ''/index.ts'' ''x'',
             GetSemanticDiagnostics ''/index.ts'', GetSyntacticDiagnostics ''/index.ts'']"
    using second q2
    by (simp add: Let_def c2 g root f2 sd2 v2 specCreateCalls_def specDiagnosticCalls_def
        supportedFileTyes_def getProperty_def)
  have s3: "scanFlags exampleCutImports exampleCreateOptions ?options
        ''a// ---cut-end---b// ---cut-start---c'' ''ts'' = Inr (?meta, [])"
    by code_simp
  have c3: "findCutNotations exampleCutImports ''a// ---cut-end---b// ---cut-start---c''
      = Inl (MismatchedCutOrder 18 1)"
    by code_simp
  note third = showEmit_with_keepNotations [OF s3 t, of exampleBackend None]
  have r3: "outcome (twoslasher exampleBackend exampleCutImports exampleCreateOptions None
        ''a// ---cut-end---b// ---cut-start---c'' ''ts'' ?options) = Inl (MismatchedCutOrder 18 1)
     \<and> environment (twoslasher exampleBackend exampleCutImports exampleCreateOptions None
        ''a// ---cut-end---b// ---cut-start---c'' ''ts'' ?options)
       = Some [CreateVirtualTypeScriptEnvironment []]"
    using third
    by (simp add: Let_def c3 g root)
  show ?thesis
    using s1 c1 r1 r2 r3 by simp
qed

text \<open>
  Claim C4 as stated fails. With the extension \<open>py\<close> the run throws the error of
  \<open>typesToExtension\<close>, not the one about the two options. With the extension \<open>ts\<close> it
  throws the error about the two options after it has created the environment, created
  the file and asked for both kinds of diagnostics. When the diagnostics hold an error
  that the validation rejects, it throws the error of the validation.
\<close>

theorem showEmit_with_keepNotations_counterexample:
  "outcome (twoslasher exampleBackend exampleImports exampleCreateOptions None ''const a = 1'' ''py''
      (exampleOptions [(''showEmit'', JBoolean True), (''keepNotations'', JBoolean True)]))
     = Inl (UnknownExtension ''py'')
   \<and> environment (twoslasher exampleBackend exampleImports exampleCreateOptions None ''const a = 1'' ''py''
      (exampleOptions [(''showEmit'', JBoolean True), (''keepNotations'', JBoolean True)])) = None
   \<and> outcome (twoslasher exampleBackend exampleImports exampleCreateOptions None ''const a = 1'' ''ts''
      (exampleOptions [(''showEmit'', JBoolean True), (''keepNotations'', JBoolean True)]))
     = Inl ShowEmitWithKeepNotations
   \<and> environment (twoslasher exampleBackend exampleImports exampleCreateOptions None ''const a = 1'' ''ts''
      (exampleOptions [(''showEmit'', JBoolean True), (''keepNotations'', JBoolean True)]))
     = Some [CreateVirtualTypeScriptEnvironment [], CreateFile ''/index.ts'' ''const a = 1'',
             GetSemanticDiagnostics ''/index.ts'', GetSyntacticDiagnostics ''/index.ts'']
   \<and> outcome (twoslasher exampleDiagnosingBackend exampleValidatingImports exampleCreateOptions None
      ''x'' ''ts''
      (exampleOptions [(''showEmit'', JBoolean True), (''keepNotations'', JBoolean True)]))
     = Inl (ValidationFailure ''Errors were thrown in the sample'')"
  by code_simp

end
